theory Spec2Isabelle
  imports Main "HOL-Library.Word"
begin

unbundle bit_operations_syntax

section \<open>The buffer library: data model\<close>

text \<open>
  \<^verbatim>\<open>src/index.js\<close> holds two editions of the same library, one after the other
  (lines 1--2487 and 2488--4960). Where a function is written differently in the two
  editions, both are embedded: the suffix \<open>1\<close> marks the first edition, the suffix
  \<open>2\<close> the second. A function carrying no suffix has the same statements in both
  editions. A JavaScript name starting with an underscore (\<^verbatim>\<open>_compare\<close>,
  \<^verbatim>\<open>_fill\<close>) gets the prefix \<open>priv_\<close>.

  A buffer is a \<^verbatim>\<open>Uint8Array\<close>: a fixed-length list of bytes. A JavaScript string
  is a list of 16-bit code units. Numbers are modelled where they are integral, as
  \<open>int\<close>; \<^verbatim>\<open>undefined\<close> (an absent argument, an out-of-range element read) is
  \<open>None\<close>. A method that mutates its receiver returns its outcome together with the
  buffer as the call leaves it, also when the call throws.
\<close>

type_synonym byte = "8 word"
type_synonym buffer = "byte list"
type_synonym jsstring = "16 word list"

text \<open>
  The errors the library throws. The named ones are the \<^verbatim>\<open>ERR_*\<close> constructors of
  the source; \<open>PlainRangeError\<close> and \<open>PlainTypeError\<close> are the raw
  \<^verbatim>\<open>new RangeError(...)\<close>, \<^verbatim>\<open>new TypeError(...)\<close> of the codec methods;
  \<open>ReferenceError\<close> is what the engine throws when an identifier resolves to no
  binding; \<open>InvalidCharacterError\<close> is the exception of the host's \<^verbatim>\<open>atob\<close>.
  Messages are left out.
\<close>

datatype error =
    ERR_OUT_OF_RANGE
  | ERR_BUFFER_OUT_OF_BOUNDS
  | ERR_INVALID_BUFFER_SIZE
  | ERR_INVALID_ARG_TYPE
  | ERR_UNKNOWN_ENCODING
  | PlainRangeError
  | PlainTypeError
  | ReferenceError
  | InvalidCharacterError

text \<open>The JavaScript class of each error, as its constructor in the source builds it.\<close>

fun isRangeError :: "error \<Rightarrow> bool" where
  "isRangeError ERR_OUT_OF_RANGE = True"
| "isRangeError ERR_BUFFER_OUT_OF_BOUNDS = True"
| "isRangeError ERR_INVALID_BUFFER_SIZE = True"
| "isRangeError PlainRangeError = True"
| "isRangeError _ = False"

text \<open>An absent argument takes its default.\<close>

definition dflt :: "int option \<Rightarrow> int \<Rightarrow> int" where
  "dflt a d = (case a of None \<Rightarrow> d | Some v \<Rightarrow> v)"

text \<open>
  \<^verbatim>\<open>buf[i]\<close>: the element as a number, \<^verbatim>\<open>undefined\<close> outside \<open>[0, length)\<close>.
\<close>

definition bufGet :: "buffer \<Rightarrow> int \<Rightarrow> int option" where
  "bufGet buf i = (if 0 \<le> i \<and> i < int (length buf) then Some (uint (buf ! nat i)) else None)"

text \<open>
  \<^verbatim>\<open>buf[i] = v\<close> on a \<^verbatim>\<open>Uint8Array\<close>: the value is reduced modulo 256; a store
  outside \<open>[0, length)\<close> is ignored.
\<close>

definition bufSet :: "buffer \<Rightarrow> int \<Rightarrow> int \<Rightarrow> buffer" where
  "bufSet buf i v = (if 0 \<le> i \<and> i < int (length buf) then buf[nat i := word_of_int v] else buf)"

text \<open>
  Storing a value that may be \<^verbatim>\<open>undefined\<close> or \<^verbatim>\<open>NaN\<close>: \<^verbatim>\<open>undefined\<close> converts to
  \<^verbatim>\<open>NaN\<close>, and \<^verbatim>\<open>NaN\<close> is stored as 0.
\<close>

definition bufSetU :: "buffer \<Rightarrow> int \<Rightarrow> int option \<Rightarrow> buffer" where
  "bufSetU buf i v = bufSet buf i (case v of None \<Rightarrow> 0 | Some x \<Rightarrow> x)"

text \<open>\<^verbatim>\<open>s.charCodeAt(i)\<close>: the code unit, NaN (here \<open>None\<close>) outside the string.\<close>

definition charCodeAt :: "jsstring \<Rightarrow> int \<Rightarrow> int option" where
  "charCodeAt s i = (if 0 \<le> i \<and> i < int (length s) then Some (uint (s ! nat i)) else None)"

text \<open>\<^verbatim>\<open>x & m\<close> where \<open>x\<close> may be NaN: NaN converts to 0.\<close>

definition andNum :: "int option \<Rightarrow> int \<Rightarrow> int" where
  "andNum x m = (case x of None \<Rightarrow> 0 | Some c \<Rightarrow> c AND m)"

text \<open>\<^verbatim>\<open>String.fromCharCode(n)\<close> keeps the low 16 bits of \<open>n\<close>.\<close>

definition fromCharCode :: "int \<Rightarrow> 16 word" where
  "fromCharCode n = word_of_int n"

text \<open>A string literal of the theory as a JavaScript string (one code unit per character).\<close>

definition js :: "string \<Rightarrow> jsstring" where
  "js s = map (\<lambda>c. of_nat (of_char c)) s"

section \<open>The ASCII codec\<close>

text \<open>
  First edition, lines 809--825:
  \<^verbatim>\<open>
  asciiWrite(string, offset, length) {
    if (typeof offset === 'undefined') offset = 0;
    if (typeof length === 'undefined') length = string.length;
    if (offset < 0 || length < 0) throw new RangeError('Index out of range');
    if (offset > this.length) throw new RangeError(...);
    length = Math.min(this.length - offset, string.length, length);
    let i;
    for (i = 0; i < length; ++i)
      this[offset++] = string.charCodeAt(i) & 0xFF;
    return i;
  }\<close>
\<close>

function asciiWrite1_loop :: "jsstring \<Rightarrow> int \<Rightarrow> int \<Rightarrow> int \<Rightarrow> buffer \<Rightarrow> int \<times> buffer" where
  "asciiWrite1_loop string len i offset this =
     (if i < len
      then asciiWrite1_loop string len (i + 1) (offset + 1)
             (bufSet this offset (andNum (charCodeAt string i) 0xFF))
      else (i, this))"
  by pat_completeness auto
termination
  by (relation "measure (\<lambda>(string, len, i, offset, this). nat (len - i))") auto

definition asciiWrite1 :: "buffer \<Rightarrow> jsstring \<Rightarrow> int option \<Rightarrow> int option \<Rightarrow> (error + int) \<times> buffer" where
  "asciiWrite1 this string offset0 length0 =
     (let offset = dflt offset0 0;
          len = dflt length0 (int (length string))
      in if offset < 0 \<or> len < 0 then (Inl PlainRangeError, this)
         else if offset > int (length this) then (Inl PlainRangeError, this)
         else (case asciiWrite1_loop string
                      (min (int (length this) - offset) (min (int (length string)) len))
                      0 offset this of
                 (i, this') \<Rightarrow> (Inr i, this')))"

text \<open>
  Second edition, lines 3777--3788: the same checks; the loop is
  \<^verbatim>\<open>for (let i = 0; i !== length; ++i) this[offset++] = string.charCodeAt(i) & 0xFF;\<close>
  and the method returns \<^verbatim>\<open>length\<close>. A loop guarded by \<^verbatim>\<open>!==\<close> need not
  end, so the loop is a partial function: \<open>None\<close> is a call that does not return.
\<close>

partial_function (option) asciiWrite2_loop :: "jsstring \<Rightarrow> int \<Rightarrow> int \<Rightarrow> int \<Rightarrow> buffer \<Rightarrow> buffer option" where
  "asciiWrite2_loop string len i offset this =
     (if i \<noteq> len
      then asciiWrite2_loop string len (i + 1) (offset + 1)
             (bufSet this offset (andNum (charCodeAt string i) 0xFF))
      else Some this)"

declare asciiWrite2_loop.simps [code]

definition asciiWrite2 :: "buffer \<Rightarrow> jsstring \<Rightarrow> int option \<Rightarrow> int option \<Rightarrow> ((error + int) \<times> buffer) option" where
  "asciiWrite2 this string offset0 length0 =
     (let offset = dflt offset0 0;
          len = dflt length0 (int (length string))
      in if offset < 0 \<or> len < 0 then Some (Inl PlainRangeError, this)
         else if offset > int (length this) then Some (Inl PlainRangeError, this)
         else (let n = min (int (length this) - offset) (min (int (length string)) len)
               in case asciiWrite2_loop string n 0 offset this of
                    None \<Rightarrow> None
                  | Some this' \<Rightarrow> Some (Inr n, this')))"

text \<open>
  First edition, lines 827--836:
  \<^verbatim>\<open>
  asciiSlice(start = 0, end = this.length) {
    if (start < 0 || start > this.length || end > this.length)
      throw new RangeError('Index out of range');
    if (end < start) end = start;
    let ret = '';
    for (let i = start; i < end; ++i)
      ret += String.fromCharCode(this[i] & 0x7F);
    return ret;
  }\<close>
\<close>

function asciiSlice1_loop :: "buffer \<Rightarrow> int \<Rightarrow> int \<Rightarrow> jsstring \<Rightarrow> jsstring" where
  "asciiSlice1_loop this end i ret =
     (if i < end
      then asciiSlice1_loop this end (i + 1) (ret @ [fromCharCode (andNum (bufGet this i) 0x7F)])
      else ret)"
  by pat_completeness auto
termination
  by (relation "measure (\<lambda>(this, end, i, ret). nat (end - i))") auto

definition asciiSlice1 :: "buffer \<Rightarrow> int option \<Rightarrow> int option \<Rightarrow> error + jsstring" where
  "asciiSlice1 this start0 end0 =
     (let start = dflt start0 0;
          end = dflt end0 (int (length this))
      in if start < 0 \<or> start > int (length this) \<or> end > int (length this)
         then Inl PlainRangeError
         else Inr (asciiSlice1_loop this (if end < start then start else end) start []))"

text \<open>
  Second edition, lines 3766--3775: the same, with the loop
  \<^verbatim>\<open>for (let i = start; i !== end; ++i) res += String.fromCharCode(this[i] & 0x7f);\<close>
\<close>

partial_function (option) asciiSlice2_loop :: "buffer \<Rightarrow> int \<Rightarrow> int \<Rightarrow> jsstring \<Rightarrow> jsstring option" where
  "asciiSlice2_loop this end i res =
     (if i \<noteq> end
      then asciiSlice2_loop this end (i + 1) (res @ [fromCharCode (andNum (bufGet this i) 0x7F)])
      else Some res)"

declare asciiSlice2_loop.simps [code]

definition asciiSlice2 :: "buffer \<Rightarrow> int option \<Rightarrow> int option \<Rightarrow> (error + jsstring) option" where
  "asciiSlice2 this start0 end0 =
     (let start = dflt start0 0;
          end = dflt end0 (int (length this))
      in if start < 0 \<or> start > int (length this) \<or> end > int (length this)
         then Some (Inl PlainRangeError)
         else map_option Inr (asciiSlice2_loop this (if end < start then start else end) start []))"

section \<open>Byte-order swaps\<close>

text \<open>
  \<^verbatim>\<open>a % b\<close> on integral numbers: the remainder takes the sign of the dividend.
\<close>

definition jsRem :: "int \<Rightarrow> int \<Rightarrow> int" where
  "jsRem a b = sgn a * (\<bar>a\<bar> mod \<bar>b\<bar>)"

text \<open>
  Both editions (lines 1505--1509 and 4919--4923):
  \<^verbatim>\<open>function swap(b, n, m) { const i = b[n]; b[n] = b[m]; b[m] = i; }\<close>
\<close>

definition swap :: "buffer \<Rightarrow> int \<Rightarrow> int \<Rightarrow> buffer" where
  "swap b n m = (let i = bufGet b n; b1 = bufSetU b n (bufGet b m) in bufSetU b1 m i)"

text \<open>
  The loops of \<^verbatim>\<open>swap16\<close>, \<^verbatim>\<open>swap32\<close> and \<^verbatim>\<open>swap64\<close> are the same in
  both editions:
  \<^verbatim>\<open>for (let i = 0; i < len; i += 2) swap(this, i, i + 1);\<close>
  \<^verbatim>\<open>for (let i = 0; i < len; i += 4) { swap(this, i, i + 3); swap(this, i + 1, i + 2); }\<close>
  \<^verbatim>\<open>for (let i = 0; i < len; i += 8) { swap(this, i, i + 7); swap(this, i + 1, i + 6);
       swap(this, i + 2, i + 5); swap(this, i + 3, i + 4); }\<close>
\<close>

function swap16_loop :: "int \<Rightarrow> int \<Rightarrow> buffer \<Rightarrow> buffer" where
  "swap16_loop len i this =
     (if i < len then swap16_loop len (i + 2) (swap this i (i + 1)) else this)"
  by pat_completeness auto
termination
  by (relation "measure (\<lambda>(len, i, this). nat (len - i))") auto

function swap32_loop :: "int \<Rightarrow> int \<Rightarrow> buffer \<Rightarrow> buffer" where
  "swap32_loop len i this =
     (if i < len
      then swap32_loop len (i + 4) (swap (swap this i (i + 3)) (i + 1) (i + 2))
      else this)"
  by pat_completeness auto
termination
  by (relation "measure (\<lambda>(len, i, this). nat (len - i))") auto

function swap64_loop :: "int \<Rightarrow> int \<Rightarrow> buffer \<Rightarrow> buffer" where
  "swap64_loop len i this =
     (if i < len
      then swap64_loop len (i + 8)
             (swap (swap (swap (swap this i (i + 7)) (i + 1) (i + 6)) (i + 2) (i + 5)) (i + 3) (i + 4))
      else this)"
  by pat_completeness auto
termination
  by (relation "measure (\<lambda>(len, i, this). nat (len - i))") auto

text \<open>
  First edition, lines 1511--1541. The methods read an identifier \<^verbatim>\<open>len\<close> that no
  enclosing scope of the first edition declares:
  \<^verbatim>\<open>
  Buffer.prototype.swap16 = function swap16() {
    if (len % 2 !== 0)
      throw new ERR_INVALID_BUFFER_SIZE('16-bits');
    for (let i = 0; i < len; i += 2)
      swap(this, i, i + 1);
    return this;
  };\<close>
  The identifier therefore resolves in the global object. The argument \<open>glen\<close> is
  that global binding: \<open>None\<close> when the host defines no global \<^verbatim>\<open>len\<close> (no
  standard host does), and reading it then throws a \<^verbatim>\<open>ReferenceError\<close>. The method
  returns \<^verbatim>\<open>this\<close>: the outcome \<open>Inr ()\<close> with the buffer beside it.
\<close>

definition swap16_1 :: "int option \<Rightarrow> buffer \<Rightarrow> (error + unit) \<times> buffer" where
  "swap16_1 glen this =
     (case glen of
        None \<Rightarrow> (Inl ReferenceError, this)
      | Some len \<Rightarrow>
          if jsRem len 2 \<noteq> 0 then (Inl ERR_INVALID_BUFFER_SIZE, this)
          else (Inr (), swap16_loop len 0 this))"

definition swap32_1 :: "int option \<Rightarrow> buffer \<Rightarrow> (error + unit) \<times> buffer" where
  "swap32_1 glen this =
     (case glen of
        None \<Rightarrow> (Inl ReferenceError, this)
      | Some len \<Rightarrow>
          if jsRem len 4 \<noteq> 0 then (Inl ERR_INVALID_BUFFER_SIZE, this)
          else (Inr (), swap32_loop len 0 this))"

definition swap64_1 :: "int option \<Rightarrow> buffer \<Rightarrow> (error + unit) \<times> buffer" where
  "swap64_1 glen this =
     (case glen of
        None \<Rightarrow> (Inl ReferenceError, this)
      | Some len \<Rightarrow>
          if jsRem len 8 \<noteq> 0 then (Inl ERR_INVALID_BUFFER_SIZE, this)
          else (Inr (), swap64_loop len 0 this))"

text \<open>
  Second edition, lines 4925--4956: each method starts with
  \<^verbatim>\<open>const len = this.length;\<close> and is otherwise the same.
\<close>

definition swap16_2 :: "buffer \<Rightarrow> (error + unit) \<times> buffer" where
  "swap16_2 this =
     (let len = int (length this)
      in if jsRem len 2 \<noteq> 0 then (Inl ERR_INVALID_BUFFER_SIZE, this)
         else (Inr (), swap16_loop len 0 this))"

definition swap32_2 :: "buffer \<Rightarrow> (error + unit) \<times> buffer" where
  "swap32_2 this =
     (let len = int (length this)
      in if jsRem len 4 \<noteq> 0 then (Inl ERR_INVALID_BUFFER_SIZE, this)
         else (Inr (), swap32_loop len 0 this))"

definition swap64_2 :: "buffer \<Rightarrow> (error + unit) \<times> buffer" where
  "swap64_2 this =
     (let len = int (length this)
      in if jsRem len 8 \<noteq> 0 then (Inl ERR_INVALID_BUFFER_SIZE, this)
         else (Inr (), swap64_loop len 0 this))"

text \<open>
  The specification of a swap: the byte at position \<open>j\<close> of the result comes from the
  mirrored position of \<open>j\<close> within its group of \<open>w\<close> bytes.
\<close>

definition groupRev :: "nat \<Rightarrow> nat \<Rightarrow> nat" where
  "groupRev w j = w * (j div w) + (w - 1 - j mod w)"

section \<open>Comparison\<close>

text \<open>
  \<^verbatim>\<open>a < b\<close> on two numbers, element reads or arguments: false as soon as one side is
  \<^verbatim>\<open>undefined\<close> or \<^verbatim>\<open>NaN\<close>.
\<close>

definition numLess :: "int option \<Rightarrow> int option \<Rightarrow> bool" where
  "numLess a b = (case (a, b) of (Some x, Some y) \<Rightarrow> x < y | _ \<Rightarrow> False)"

text \<open>
  The specification of \<^verbatim>\<open>compare\<close> in the words of the claim: the first position at
  which the bytes differ decides (\<open>-1\<close> when the byte of the first buffer is smaller,
  \<open>1\<close> when it is larger, bytes compared unsigned); when no position differs before one
  buffer ends, the shorter buffer is the smaller one, and two buffers that end together
  are equal.
\<close>

fun lexCompare :: "buffer \<Rightarrow> buffer \<Rightarrow> int" where
  "lexCompare [] [] = 0"
| "lexCompare [] (y # ys) = - 1"
| "lexCompare (x # xs) [] = 1"
| "lexCompare (x # xs) (y # ys) =
     (if x < y then - 1 else if y < x then 1 else lexCompare xs ys)"

text \<open>
  First edition, lines 693--707:
  \<^verbatim>\<open>
  function _compare(buf1, buf2) {
    if (buf1.length < buf2.length) return -1;
    if (buf1.length > buf2.length) return 1;
    for (let i = 0; i < buf1.length; ++i) {
      const c1 = buf1[i];
      const c2 = buf2[i];
      if (c1 < c2) return -1;
      if (c1 > c2) return 1;
    }
    return 0;
  }\<close>
\<close>

function priv_compare1_loop :: "buffer \<Rightarrow> buffer \<Rightarrow> int \<Rightarrow> int" where
  "priv_compare1_loop buf1 buf2 i =
     (if i < int (length buf1)
      then (let c1 = bufGet buf1 i; c2 = bufGet buf2 i
            in if numLess c1 c2 then - 1
               else if numLess c2 c1 then 1
               else priv_compare1_loop buf1 buf2 (i + 1))
      else 0)"
  by pat_completeness auto
termination
  by (relation "measure (\<lambda>(buf1, buf2, i). nat (int (length buf1) - i))") auto

definition priv_compare1 :: "buffer \<Rightarrow> buffer \<Rightarrow> int" where
  "priv_compare1 buf1 buf2 =
     (if length buf1 < length buf2 then - 1
      else if length buf1 > length buf2 then 1
      else priv_compare1_loop buf1 buf2 0)"

text \<open>
  Second edition, lines 2708--2737:
  \<^verbatim>\<open>
  function normalizeCompareVal(val, aLen, bLen) {
    if (val === 0) {
      if (aLen > bLen) return 1;
      else if (aLen < bLen) return -1;
    } else {
      if (val > 0) return 1;
      else return -1;
    }
    return val;
  }
  function _compare(source, target) {
    const sourceLen = source.length;
    const targetLen = target.length;
    const len = Math.min(sourceLen, targetLen);
    if (len)
      for (let i = 0; i !== len; ++i) {
        const a = source[i];
        const b = target[i];
        if (a !== b) {
          if (a > b) return 1;
          return -1;
        }
      }
    return normalizeCompareVal(0, sourceLen, targetLen);
  }\<close>
  The loop function carries the statement that follows the loop as its exit.
\<close>

definition normalizeCompareVal :: "int \<Rightarrow> int \<Rightarrow> int \<Rightarrow> int" where
  "normalizeCompareVal val aLen bLen =
     (if val = 0
      then (if aLen > bLen then 1 else if aLen < bLen then - 1 else val)
      else (if val > 0 then 1 else - 1))"

partial_function (option) priv_compare2_loop :: "buffer \<Rightarrow> buffer \<Rightarrow> int \<Rightarrow> int \<Rightarrow> int option" where
  "priv_compare2_loop source target len i =
     (if i \<noteq> len
      then (let a = bufGet source i; b = bufGet target i
            in if a \<noteq> b then (if numLess b a then Some 1 else Some (- 1))
               else priv_compare2_loop source target len (i + 1))
      else Some (normalizeCompareVal 0 (int (length source)) (int (length target))))"

declare priv_compare2_loop.simps [code]

definition priv_compare2 :: "buffer \<Rightarrow> buffer \<Rightarrow> int option" where
  "priv_compare2 source target =
     (let sourceLen = int (length source);
          targetLen = int (length target);
          len = min sourceLen targetLen
      in if len \<noteq> 0 then priv_compare2_loop source target len 0
         else Some (normalizeCompareVal 0 sourceLen targetLen))"

section \<open>Bounds and value validation of the numeric accessors\<close>

text \<open>
  The numeric accessors have the same statements in both editions (first edition lines
  1555--1592, 1751--1758 and 2085--2402; second edition lines 2865--2897, 3055--3062 and
  3388--3703). Offsets are integral numbers here; an offset may also be absent. The
  parameters \<^verbatim>\<open>min\<close> and \<^verbatim>\<open>max\<close> are \<open>vmin\<close> and \<open>vmax\<close>.

  The value of a write is an \<open>int option\<close>. \<open>Some v\<close> is the integer \<open>v\<close>, a Number, or
  a BigInt in the 64-bit writes. \<open>None\<close> is a value that is no number: in the writes of
  Numbers, which start with \<^verbatim>\<open>value = +value\<close>, it is \<^verbatim>\<open>NaN\<close>, the conversion of
  \<^verbatim>\<open>undefined\<close>, of a string that is not a numeric literal and of \<^verbatim>\<open>NaN\<close> itself;
  in the 64-bit writes, which do not convert, it is \<^verbatim>\<open>undefined\<close> or \<^verbatim>\<open>NaN\<close>.
  Numbers that are not integers are not in the model. A comparison with \<^verbatim>\<open>NaN\<close> or
  \<^verbatim>\<open>undefined\<close> is false (\<open>numLess\<close>), and a store of \<^verbatim>\<open>NaN\<close> in the buffer stores
  0 (\<open>bufSetU\<close>).

  \<^verbatim>\<open>
  function boundsError(value, length, type) {
    if (Math.floor(value) !== value) {
      validateNumber(value, type);
      throw new ERR_OUT_OF_RANGE(type || 'offset', 'an integer', value);
    }
    if (length < 0)
      throw new ERR_BUFFER_OUT_OF_BOUNDS();
    throw new ERR_OUT_OF_RANGE(type || 'offset', `>= ${type ? 1 : 0} and <= ${length}`, value);
  }\<close>
  \<^verbatim>\<open>boundsError\<close> throws on every path; the model returns the error it throws. On an
  integral \<open>value\<close> the first test is false.
\<close>

definition boundsError :: "int \<Rightarrow> int \<Rightarrow> error" where
  "boundsError value len = (if len < 0 then ERR_BUFFER_OUT_OF_BOUNDS else ERR_OUT_OF_RANGE)"

text \<open>
  \<^verbatim>\<open>
  function checkBounds(buf, offset, byteLength) {
    validateNumber(offset, 'offset');
    if (buf[offset] === undefined || buf[offset + byteLength] === undefined)
      boundsError(offset, buf.length - (byteLength + 1));
  }\<close>
  \<^verbatim>\<open>validateNumber(offset, 'offset')\<close> throws \<^verbatim>\<open>ERR_INVALID_ARG_TYPE\<close> when the
  offset is not a number, and nothing else here, where it is given no bounds. The model
  returns the error thrown, or the offset as the number it was found to be.
\<close>

definition checkBounds :: "buffer \<Rightarrow> int option \<Rightarrow> int \<Rightarrow> error + int" where
  "checkBounds buf offset0 byteLength =
     (case offset0 of
        None \<Rightarrow> Inl ERR_INVALID_ARG_TYPE
      | Some offset \<Rightarrow>
          if bufGet buf offset = None \<or> bufGet buf (offset + byteLength) = None
          then Inl (boundsError offset (int (length buf) - (byteLength + 1)))
          else Inr offset)"

text \<open>
  \<^verbatim>\<open>
  function checkInt(value, min, max, buf, offset, byteLength) {
    if (value > max || value < min) {
      ...
      throw new ERR_OUT_OF_RANGE('value', range, value);
    }
    checkBounds(buf, offset, byteLength);
  }\<close>
  \<^verbatim>\<open>value > max\<close> is \<open>max < value\<close>. Both tests are false on a \<open>value\<close> that is
  \<^verbatim>\<open>NaN\<close> or \<^verbatim>\<open>undefined\<close>, which goes on to \<^verbatim>\<open>checkBounds\<close>.
\<close>

definition checkInt :: "int option \<Rightarrow> int \<Rightarrow> int \<Rightarrow> buffer \<Rightarrow> int option \<Rightarrow> int \<Rightarrow> error + int" where
  "checkInt value vmin vmax buf offset0 byteLength =
     (if numLess (Some vmax) value \<or> numLess value (Some vmin) then Inl ERR_OUT_OF_RANGE
      else checkBounds buf offset0 byteLength)"

text \<open>
  \<^verbatim>\<open>
  Buffer.prototype.readUInt8 = function readUInt8(offset = 0) {
    validateNumber(offset, 'offset');
    const val = this[offset];
    if (val === undefined)
      boundsError(offset, this.length - 1);
    return val;
  }\<close>
\<close>

definition readUInt8 :: "buffer \<Rightarrow> int option \<Rightarrow> error + int" where
  "readUInt8 this offset0 =
     (let offset = dflt offset0 0
      in case bufGet this offset of
           None \<Rightarrow> Inl (boundsError offset (int (length this) - 1))
         | Some val \<Rightarrow> Inr val)"

section \<open>Integer writes\<close>

text \<open>
  \<^verbatim>\<open>v >>> 8\<close> converts \<open>v\<close> to an unsigned 32-bit integer, \<^verbatim>\<open>NaN\<close> to 0, and shifts
  it right; the result is a number. \<^verbatim>\<open>v >> 8\<close> converts \<open>v\<close> to a signed 32-bit integer
  and shifts it right, keeping the sign; the code applies it to numbers only.
  \<^verbatim>\<open>Math.floor(v * 2 ** -32)\<close> is the floor of \<open>v / 2^32\<close>, and \<^verbatim>\<open>NaN\<close> when \<open>v\<close> is.
\<close>

definition ushr8 :: "int option \<Rightarrow> int option" where
  "ushr8 v = Some (drop_bit 8 (take_bit 32 (case v of None \<Rightarrow> 0 | Some x \<Rightarrow> x)))"

definition sshr8 :: "int \<Rightarrow> int" where
  "sshr8 v = drop_bit 8 (signed_take_bit 31 v)"

definition floorShift32 :: "int option \<Rightarrow> int option" where
  "floorShift32 v = (case v of None \<Rightarrow> None | Some x \<Rightarrow> Some (x div 2 ^ 32))"

text \<open>
  \<^verbatim>\<open>
  function writeBigU_Int64LE(buf, value, offset, min, max) {
    checkInt(value, min, max, buf, offset, 7);
    let lo = Number(value & 0xffffffffn);
    buf[offset++] = lo;
    lo = lo >> 8;
    buf[offset++] = lo;
    lo = lo >> 8;
    buf[offset++] = lo;
    lo = lo >> 8;
    buf[offset++] = lo;
    let hi = Number(value >> 32n & 0xffffffffn);
    buf[offset++] = hi;
    hi = hi >> 8;
    buf[offset++] = hi;
    hi = hi >> 8;
    buf[offset++] = hi;
    hi = hi >> 8;
    buf[offset++] = hi;
    return offset;
  }\<close>
  A \<open>value\<close> that is \<^verbatim>\<open>undefined\<close> or \<^verbatim>\<open>NaN\<close> passes both comparisons of
  \<^verbatim>\<open>checkInt\<close>; then \<^verbatim>\<open>value & 0xffffffffn\<close>, an operation on a BigInt and a value
  that is none, throws a \<^verbatim>\<open>TypeError\<close>, before the first store.
\<close>

definition writeBigU_Int64LE :: "buffer \<Rightarrow> int option \<Rightarrow> int option \<Rightarrow> int \<Rightarrow> int \<Rightarrow> (error + int) \<times> buffer" where
  "writeBigU_Int64LE buf value offset0 vmin vmax =
     (case checkInt value vmin vmax buf offset0 7 of
        Inl e \<Rightarrow> (Inl e, buf)
      | Inr offset \<Rightarrow>
          (case value of
             None \<Rightarrow> (Inl PlainTypeError, buf)
           | Some value \<Rightarrow>
               (let lo = value AND 0xffffffff;
                    b0 = bufSet buf offset lo;
                    lo1 = sshr8 lo;
                    b1 = bufSet b0 (offset + 1) lo1;
                    lo2 = sshr8 lo1;
                    b2 = bufSet b1 (offset + 2) lo2;
                    lo3 = sshr8 lo2;
                    b3 = bufSet b2 (offset + 3) lo3;
                    hi = drop_bit 32 value AND 0xffffffff;
                    b4 = bufSet b3 (offset + 4) hi;
                    hi1 = sshr8 hi;
                    b5 = bufSet b4 (offset + 5) hi1;
                    hi2 = sshr8 hi1;
                    b6 = bufSet b5 (offset + 6) hi2;
                    hi3 = sshr8 hi2;
                    b7 = bufSet b6 (offset + 7) hi3
                in (Inr (offset + 8), b7))))"

text \<open>
  \<^verbatim>\<open>
  function writeBigU_Int64BE(buf, value, offset, min, max) {
    checkInt(value, min, max, buf, offset, 7);
    let lo = Number(value & 0xffffffffn);
    buf[offset + 7] = lo;
    lo = lo >> 8;
    buf[offset + 6] = lo;
    lo = lo >> 8;
    buf[offset + 5] = lo;
    lo = lo >> 8;
    buf[offset + 4] = lo;
    let hi = Number(value >> 32n & 0xffffffffn);
    buf[offset + 3] = hi;
    hi = hi >> 8;
    buf[offset + 2] = hi;
    hi = hi >> 8;
    buf[offset + 1] = hi;
    hi = hi >> 8;
    buf[offset] = hi;
    return offset + 8;
  }\<close>
\<close>

definition writeBigU_Int64BE :: "buffer \<Rightarrow> int option \<Rightarrow> int option \<Rightarrow> int \<Rightarrow> int \<Rightarrow> (error + int) \<times> buffer" where
  "writeBigU_Int64BE buf value offset0 vmin vmax =
     (case checkInt value vmin vmax buf offset0 7 of
        Inl e \<Rightarrow> (Inl e, buf)
      | Inr offset \<Rightarrow>
          (case value of
             None \<Rightarrow> (Inl PlainTypeError, buf)
           | Some value \<Rightarrow>
               (let lo = value AND 0xffffffff;
                    b0 = bufSet buf (offset + 7) lo;
                    lo1 = sshr8 lo;
                    b1 = bufSet b0 (offset + 6) lo1;
                    lo2 = sshr8 lo1;
                    b2 = bufSet b1 (offset + 5) lo2;
                    lo3 = sshr8 lo2;
                    b3 = bufSet b2 (offset + 4) lo3;
                    hi = drop_bit 32 value AND 0xffffffff;
                    b4 = bufSet b3 (offset + 3) hi;
                    hi1 = sshr8 hi;
                    b5 = bufSet b4 (offset + 2) hi1;
                    hi2 = sshr8 hi1;
                    b6 = bufSet b5 (offset + 1) hi2;
                    hi3 = sshr8 hi2;
                    b7 = bufSet b6 offset hi3
                in (Inr (offset + 8), b7))))"

text \<open>
  \<^verbatim>\<open>
  function writeU_Int48LE(buf, value, offset, min, max) {
    value = +value;
    checkInt(value, min, max, buf, offset, 5);
    const newVal = Math.floor(value * 2 ** -32);
    buf[offset++] = value;
    value = value >>> 8;
    buf[offset++] = value;
    value = value >>> 8;
    buf[offset++] = value;
    value = value >>> 8;
    buf[offset++] = value;
    buf[offset++] = newVal;
    buf[offset++] = (newVal >>> 8);
    return offset;
  }\<close>
\<close>

definition writeU_Int48LE :: "buffer \<Rightarrow> int option \<Rightarrow> int option \<Rightarrow> int \<Rightarrow> int \<Rightarrow> (error + int) \<times> buffer" where
  "writeU_Int48LE buf value offset0 vmin vmax =
     (case checkInt value vmin vmax buf offset0 5 of
        Inl e \<Rightarrow> (Inl e, buf)
      | Inr offset \<Rightarrow>
          (let newVal = floorShift32 value;
               b0 = bufSetU buf offset value;
               v1 = ushr8 value;
               b1 = bufSetU b0 (offset + 1) v1;
               v2 = ushr8 v1;
               b2 = bufSetU b1 (offset + 2) v2;
               v3 = ushr8 v2;
               b3 = bufSetU b2 (offset + 3) v3;
               b4 = bufSetU b3 (offset + 4) newVal;
               b5 = bufSetU b4 (offset + 5) (ushr8 newVal)
           in (Inr (offset + 6), b5)))"

text \<open>
  \<^verbatim>\<open>
  function writeU_Int40LE(buf, value, offset, min, max) {
    value = +value;
    checkInt(value, min, max, buf, offset, 4);
    const newVal = value;
    buf[offset++] = value;
    value = value >>> 8;
    buf[offset++] = value;
    value = value >>> 8;
    buf[offset++] = value;
    value = value >>> 8;
    buf[offset++] = value;
    buf[offset++] = Math.floor(newVal * 2 ** -32);
    return offset;
  }\<close>
\<close>

definition writeU_Int40LE :: "buffer \<Rightarrow> int option \<Rightarrow> int option \<Rightarrow> int \<Rightarrow> int \<Rightarrow> (error + int) \<times> buffer" where
  "writeU_Int40LE buf value offset0 vmin vmax =
     (case checkInt value vmin vmax buf offset0 4 of
        Inl e \<Rightarrow> (Inl e, buf)
      | Inr offset \<Rightarrow>
          (let newVal = value;
               b0 = bufSetU buf offset value;
               v1 = ushr8 value;
               b1 = bufSetU b0 (offset + 1) v1;
               v2 = ushr8 v1;
               b2 = bufSetU b1 (offset + 2) v2;
               v3 = ushr8 v2;
               b3 = bufSetU b2 (offset + 3) v3;
               b4 = bufSetU b3 (offset + 4) (floorShift32 newVal)
           in (Inr (offset + 5), b4)))"

text \<open>
  \<^verbatim>\<open>
  function writeU_Int32LE(buf, value, offset, min, max) {
    value = +value;
    checkInt(value, min, max, buf, offset, 3);
    buf[offset++] = value;
    value = value >>> 8;
    buf[offset++] = value;
    value = value >>> 8;
    buf[offset++] = value;
    value = value >>> 8;
    buf[offset++] = value;
    return offset;
  }\<close>
\<close>

definition writeU_Int32LE :: "buffer \<Rightarrow> int option \<Rightarrow> int option \<Rightarrow> int \<Rightarrow> int \<Rightarrow> (error + int) \<times> buffer" where
  "writeU_Int32LE buf value offset0 vmin vmax =
     (case checkInt value vmin vmax buf offset0 3 of
        Inl e \<Rightarrow> (Inl e, buf)
      | Inr offset \<Rightarrow>
          (let b0 = bufSetU buf offset value;
               v1 = ushr8 value;
               b1 = bufSetU b0 (offset + 1) v1;
               v2 = ushr8 v1;
               b2 = bufSetU b1 (offset + 2) v2;
               v3 = ushr8 v2;
               b3 = bufSetU b2 (offset + 3) v3
           in (Inr (offset + 4), b3)))"

text \<open>
  \<^verbatim>\<open>
  function writeU_Int24LE(buf, value, offset, min, max) {
    value = +value;
    checkInt(value, min, max, buf, offset, 2);
    buf[offset++] = value;
    value = value >>> 8;
    buf[offset++] = value;
    value = value >>> 8;
    buf[offset++] = value;
    return offset;
  }
  function writeU_Int16LE(buf, value, offset, min, max) {
    value = +value;
    checkInt(value, min, max, buf, offset, 1);
    buf[offset++] = value;
    buf[offset++] = (value >>> 8);
    return offset;
  }\<close>
\<close>

definition writeU_Int24LE :: "buffer \<Rightarrow> int option \<Rightarrow> int option \<Rightarrow> int \<Rightarrow> int \<Rightarrow> (error + int) \<times> buffer" where
  "writeU_Int24LE buf value offset0 vmin vmax =
     (case checkInt value vmin vmax buf offset0 2 of
        Inl e \<Rightarrow> (Inl e, buf)
      | Inr offset \<Rightarrow>
          (let b0 = bufSetU buf offset value;
               v1 = ushr8 value;
               b1 = bufSetU b0 (offset + 1) v1;
               v2 = ushr8 v1;
               b2 = bufSetU b1 (offset + 2) v2
           in (Inr (offset + 3), b2)))"

definition writeU_Int16LE :: "buffer \<Rightarrow> int option \<Rightarrow> int option \<Rightarrow> int \<Rightarrow> int \<Rightarrow> (error + int) \<times> buffer" where
  "writeU_Int16LE buf value offset0 vmin vmax =
     (case checkInt value vmin vmax buf offset0 1 of
        Inl e \<Rightarrow> (Inl e, buf)
      | Inr offset \<Rightarrow>
          (let b0 = bufSetU buf offset value;
               b1 = bufSetU b0 (offset + 1) (ushr8 value)
           in (Inr (offset + 2), b1)))"

text \<open>
  \<^verbatim>\<open>
  function writeU_Int8(buf, value, offset, min, max) {
    value = +value;
    // `checkInt()` can not be used here because it checks two entries.
    validateNumber(offset, 'offset');
    if (value > max || value < min) {
      throw new ERR_OUT_OF_RANGE('value', `>= ${min} and <= ${max}`, value);
    }
    if (buf[offset] === undefined)
      boundsError(offset, buf.length - 1);
    buf[offset] = value;
    return offset + 1;
  }\<close>
\<close>

definition writeU_Int8 :: "buffer \<Rightarrow> int option \<Rightarrow> int option \<Rightarrow> int \<Rightarrow> int \<Rightarrow> (error + int) \<times> buffer" where
  "writeU_Int8 buf value offset0 vmin vmax =
     (case offset0 of
        None \<Rightarrow> (Inl ERR_INVALID_ARG_TYPE, buf)
      | Some offset \<Rightarrow>
          if numLess (Some vmax) value \<or> numLess value (Some vmin) then (Inl ERR_OUT_OF_RANGE, buf)
          else if bufGet buf offset = None
          then (Inl (boundsError offset (int (length buf) - 1)), buf)
          else (Inr (offset + 1), bufSetU buf offset value))"

text \<open>
  \<^verbatim>\<open>
  function writeU_Int48BE(buf, value, offset, min, max) {
    value = +value;
    checkInt(value, min, max, buf, offset, 5);
    const newVal = Math.floor(value * 2 ** -32);
    buf[offset++] = (newVal >>> 8);
    buf[offset++] = newVal;
    buf[offset + 3] = value;
    value = value >>> 8;
    buf[offset + 2] = value;
    value = value >>> 8;
    buf[offset + 1] = value;
    value = value >>> 8;
    buf[offset] = value;
    return offset + 4;
  }\<close>
  After the two \<^verbatim>\<open>offset++\<close> the variable is the original offset plus 2.
\<close>

definition writeU_Int48BE :: "buffer \<Rightarrow> int option \<Rightarrow> int option \<Rightarrow> int \<Rightarrow> int \<Rightarrow> (error + int) \<times> buffer" where
  "writeU_Int48BE buf value offset0 vmin vmax =
     (case checkInt value vmin vmax buf offset0 5 of
        Inl e \<Rightarrow> (Inl e, buf)
      | Inr offset \<Rightarrow>
          (let newVal = floorShift32 value;
               b0 = bufSetU buf offset (ushr8 newVal);
               b1 = bufSetU b0 (offset + 1) newVal;
               offset2 = offset + 2;
               b2 = bufSetU b1 (offset2 + 3) value;
               v1 = ushr8 value;
               b3 = bufSetU b2 (offset2 + 2) v1;
               v2 = ushr8 v1;
               b4 = bufSetU b3 (offset2 + 1) v2;
               v3 = ushr8 v2;
               b5 = bufSetU b4 offset2 v3
           in (Inr (offset2 + 4), b5)))"

text \<open>
  \<^verbatim>\<open>
  function writeU_Int40BE(buf, value, offset, min, max) {
    value = +value;
    checkInt(value, min, max, buf, offset, 4);
    buf[offset++] = Math.floor(value * 2 ** -32);
    buf[offset + 3] = value;
    value = value >>> 8;
    buf[offset + 2] = value;
    value = value >>> 8;
    buf[offset + 1] = value;
    value = value >>> 8;
    buf[offset] = value;
    return offset + 4;
  }\<close>
\<close>

definition writeU_Int40BE :: "buffer \<Rightarrow> int option \<Rightarrow> int option \<Rightarrow> int \<Rightarrow> int \<Rightarrow> (error + int) \<times> buffer" where
  "writeU_Int40BE buf value offset0 vmin vmax =
     (case checkInt value vmin vmax buf offset0 4 of
        Inl e \<Rightarrow> (Inl e, buf)
      | Inr offset \<Rightarrow>
          (let b0 = bufSetU buf offset (floorShift32 value);
               offset1 = offset + 1;
               b1 = bufSetU b0 (offset1 + 3) value;
               v1 = ushr8 value;
               b2 = bufSetU b1 (offset1 + 2) v1;
               v2 = ushr8 v1;
               b3 = bufSetU b2 (offset1 + 1) v2;
               v3 = ushr8 v2;
               b4 = bufSetU b3 offset1 v3
           in (Inr (offset1 + 4), b4)))"

text \<open>
  \<^verbatim>\<open>
  function writeU_Int32BE(buf, value, offset, min, max) {
    value = +value;
    checkInt(value, min, max, buf, offset, 3);
    buf[offset + 3] = value;
    value = value >>> 8;
    buf[offset + 2] = value;
    value = value >>> 8;
    buf[offset + 1] = value;
    value = value >>> 8;
    buf[offset] = value;
    return offset + 4;
  }
  function writeU_Int24BE(buf, value, offset, min, max) {
    value = +value;
    checkInt(value, min, max, buf, offset, 2);
    buf[offset + 2] = value;
    value = value >>> 8;
    buf[offset + 1] = value;
    value = value >>> 8;
    buf[offset] = value;
    return offset + 3;
  }
  function writeU_Int16BE(buf, value, offset, min, max) {
    value = +value;
    checkInt(value, min, max, buf, offset, 1);
    buf[offset++] = (value >>> 8);
    buf[offset++] = value;
    return offset;
  }\<close>
\<close>

definition writeU_Int32BE :: "buffer \<Rightarrow> int option \<Rightarrow> int option \<Rightarrow> int \<Rightarrow> int \<Rightarrow> (error + int) \<times> buffer" where
  "writeU_Int32BE buf value offset0 vmin vmax =
     (case checkInt value vmin vmax buf offset0 3 of
        Inl e \<Rightarrow> (Inl e, buf)
      | Inr offset \<Rightarrow>
          (let b0 = bufSetU buf (offset + 3) value;
               v1 = ushr8 value;
               b1 = bufSetU b0 (offset + 2) v1;
               v2 = ushr8 v1;
               b2 = bufSetU b1 (offset + 1) v2;
               v3 = ushr8 v2;
               b3 = bufSetU b2 offset v3
           in (Inr (offset + 4), b3)))"

definition writeU_Int24BE :: "buffer \<Rightarrow> int option \<Rightarrow> int option \<Rightarrow> int \<Rightarrow> int \<Rightarrow> (error + int) \<times> buffer" where
  "writeU_Int24BE buf value offset0 vmin vmax =
     (case checkInt value vmin vmax buf offset0 2 of
        Inl e \<Rightarrow> (Inl e, buf)
      | Inr offset \<Rightarrow>
          (let b0 = bufSetU buf (offset + 2) value;
               v1 = ushr8 value;
               b1 = bufSetU b0 (offset + 1) v1;
               v2 = ushr8 v1;
               b2 = bufSetU b1 offset v2
           in (Inr (offset + 3), b2)))"

definition writeU_Int16BE :: "buffer \<Rightarrow> int option \<Rightarrow> int option \<Rightarrow> int \<Rightarrow> int \<Rightarrow> (error + int) \<times> buffer" where
  "writeU_Int16BE buf value offset0 vmin vmax =
     (case checkInt value vmin vmax buf offset0 1 of
        Inl e \<Rightarrow> (Inl e, buf)
      | Inr offset \<Rightarrow>
          (let b0 = bufSetU buf offset (ushr8 value);
               b1 = bufSetU b0 (offset + 1) value
           in (Inr (offset + 2), b1)))"

text \<open>
  The methods of the prototype. A method declared with \<^verbatim>\<open>offset = 0\<close> takes 0 for an
  absent offset; \<^verbatim>\<open>writeUIntLE\<close>, \<^verbatim>\<open>writeUIntBE\<close>, \<^verbatim>\<open>writeIntLE\<close> and
  \<^verbatim>\<open>writeIntBE\<close> pass the offset on as they get it.
  \<^verbatim>\<open>
  writeBigUInt64LE(value, offset = 0) { return writeBigU_Int64LE(this, value, offset, 0n, 0xffffffffffffffffn); }
  writeBigUInt64BE(value, offset = 0) { return writeBigU_Int64BE(this, value, offset, 0n, 0xffffffffffffffffn); }
  writeBigInt64LE(value, offset = 0) {
    return writeBigU_Int64LE(this, value, offset, -0x8000000000000000n, 0x7fffffffffffffffn); }
  writeBigInt64BE(value, offset = 0) {
    return writeBigU_Int64BE(this, value, offset, -0x8000000000000000n, 0x7fffffffffffffffn); }\<close>
\<close>

definition writeBigUInt64LE :: "buffer \<Rightarrow> int option \<Rightarrow> int option \<Rightarrow> (error + int) \<times> buffer" where
  "writeBigUInt64LE this value offset0 =
     writeBigU_Int64LE this value (Some (dflt offset0 0)) 0 0xffffffffffffffff"

definition writeBigUInt64BE :: "buffer \<Rightarrow> int option \<Rightarrow> int option \<Rightarrow> (error + int) \<times> buffer" where
  "writeBigUInt64BE this value offset0 =
     writeBigU_Int64BE this value (Some (dflt offset0 0)) 0 0xffffffffffffffff"

definition writeBigInt64LE :: "buffer \<Rightarrow> int option \<Rightarrow> int option \<Rightarrow> (error + int) \<times> buffer" where
  "writeBigInt64LE this value offset0 =
     writeBigU_Int64LE this value (Some (dflt offset0 0)) (- 0x8000000000000000) 0x7fffffffffffffff"

definition writeBigInt64BE :: "buffer \<Rightarrow> int option \<Rightarrow> int option \<Rightarrow> (error + int) \<times> buffer" where
  "writeBigInt64BE this value offset0 =
     writeBigU_Int64BE this value (Some (dflt offset0 0)) (- 0x8000000000000000) 0x7fffffffffffffff"

text \<open>
  \<^verbatim>\<open>
  Buffer.prototype.writeUIntLE = function writeUIntLE(value, offset, byteLength) {
    if (byteLength === 6) return writeU_Int48LE(this, value, offset, 0, 0xffffffffffff);
    if (byteLength === 5) return writeU_Int40LE(this, value, offset, 0, 0xffffffffff);
    if (byteLength === 3) return writeU_Int24LE(this, value, offset, 0, 0xffffff);
    if (byteLength === 4) return writeU_Int32LE(this, value, offset, 0, 0xffffffff);
    if (byteLength === 2) return writeU_Int16LE(this, value, offset, 0, 0xffff);
    if (byteLength === 1) return writeU_Int8(this, value, offset, 0, 0xff);
    boundsError(byteLength, 6, 'byteLength');
  }\<close>
  \<^verbatim>\<open>writeUIntBE\<close> is the same over the \<^verbatim>\<open>BE\<close> helpers.
\<close>

definition writeUIntLE :: "buffer \<Rightarrow> int option \<Rightarrow> int option \<Rightarrow> int \<Rightarrow> (error + int) \<times> buffer" where
  "writeUIntLE this value offset byteLength =
     (if byteLength = 6 then writeU_Int48LE this value offset 0 0xffffffffffff
      else if byteLength = 5 then writeU_Int40LE this value offset 0 0xffffffffff
      else if byteLength = 3 then writeU_Int24LE this value offset 0 0xffffff
      else if byteLength = 4 then writeU_Int32LE this value offset 0 0xffffffff
      else if byteLength = 2 then writeU_Int16LE this value offset 0 0xffff
      else if byteLength = 1 then writeU_Int8 this value offset 0 0xff
      else (Inl (boundsError byteLength 6), this))"

definition writeUIntBE :: "buffer \<Rightarrow> int option \<Rightarrow> int option \<Rightarrow> int \<Rightarrow> (error + int) \<times> buffer" where
  "writeUIntBE this value offset byteLength =
     (if byteLength = 6 then writeU_Int48BE this value offset 0 0xffffffffffff
      else if byteLength = 5 then writeU_Int40BE this value offset 0 0xffffffffff
      else if byteLength = 3 then writeU_Int24BE this value offset 0 0xffffff
      else if byteLength = 4 then writeU_Int32BE this value offset 0 0xffffffff
      else if byteLength = 2 then writeU_Int16BE this value offset 0 0xffff
      else if byteLength = 1 then writeU_Int8 this value offset 0 0xff
      else (Inl (boundsError byteLength 6), this))"

text \<open>
  \<^verbatim>\<open>
  writeUInt32LE(value, offset = 0) { return writeU_Int32LE(this, value, offset, 0, 0xffffffff); }
  writeUInt16LE(value, offset = 0) { return writeU_Int16LE(this, value, offset, 0, 0xffff); }
  writeUInt8(value, offset = 0) { return writeU_Int8(this, value, offset, 0, 0xff); }
  writeUInt32BE(value, offset = 0) { return writeU_Int32BE(this, value, offset, 0, 0xffffffff); }
  writeUInt16BE(value, offset = 0) { return writeU_Int16BE(this, value, offset, 0, 0xffff); }\<close>
\<close>

definition writeUInt32LE :: "buffer \<Rightarrow> int option \<Rightarrow> int option \<Rightarrow> (error + int) \<times> buffer" where
  "writeUInt32LE this value offset0 = writeU_Int32LE this value (Some (dflt offset0 0)) 0 0xffffffff"

definition writeUInt16LE :: "buffer \<Rightarrow> int option \<Rightarrow> int option \<Rightarrow> (error + int) \<times> buffer" where
  "writeUInt16LE this value offset0 = writeU_Int16LE this value (Some (dflt offset0 0)) 0 0xffff"

definition writeUInt8 :: "buffer \<Rightarrow> int option \<Rightarrow> int option \<Rightarrow> (error + int) \<times> buffer" where
  "writeUInt8 this value offset0 = writeU_Int8 this value (Some (dflt offset0 0)) 0 0xff"

definition writeUInt32BE :: "buffer \<Rightarrow> int option \<Rightarrow> int option \<Rightarrow> (error + int) \<times> buffer" where
  "writeUInt32BE this value offset0 = writeU_Int32BE this value (Some (dflt offset0 0)) 0 0xffffffff"

definition writeUInt16BE :: "buffer \<Rightarrow> int option \<Rightarrow> int option \<Rightarrow> (error + int) \<times> buffer" where
  "writeUInt16BE this value offset0 = writeU_Int16BE this value (Some (dflt offset0 0)) 0 0xffff"

text \<open>
  \<^verbatim>\<open>
  Buffer.prototype.writeIntLE = function writeIntLE(value, offset, byteLength) {
    if (byteLength === 6) return writeU_Int48LE(this, value, offset, -0x800000000000, 0x7fffffffffff);
    if (byteLength === 5) return writeU_Int40LE(this, value, offset, -0x8000000000, 0x7fffffffff);
    if (byteLength === 3) return writeU_Int24LE(this, value, offset, -0x800000, 0x7fffff);
    if (byteLength === 4) return writeU_Int32LE(this, value, offset, -0x80000000, 0x7fffffff);
    if (byteLength === 2) return writeU_Int16LE(this, value, offset, -0x8000, 0x7fff);
    if (byteLength === 1) return writeU_Int8(this, value, offset, -0x80, 0x7f);
    boundsError(byteLength, 6, 'byteLength');
  }\<close>
  \<^verbatim>\<open>writeIntBE\<close> is the same over the \<^verbatim>\<open>BE\<close> helpers.
\<close>

definition writeIntLE :: "buffer \<Rightarrow> int option \<Rightarrow> int option \<Rightarrow> int \<Rightarrow> (error + int) \<times> buffer" where
  "writeIntLE this value offset byteLength =
     (if byteLength = 6 then writeU_Int48LE this value offset (- 0x800000000000) 0x7fffffffffff
      else if byteLength = 5 then writeU_Int40LE this value offset (- 0x8000000000) 0x7fffffffff
      else if byteLength = 3 then writeU_Int24LE this value offset (- 0x800000) 0x7fffff
      else if byteLength = 4 then writeU_Int32LE this value offset (- 0x80000000) 0x7fffffff
      else if byteLength = 2 then writeU_Int16LE this value offset (- 0x8000) 0x7fff
      else if byteLength = 1 then writeU_Int8 this value offset (- 0x80) 0x7f
      else (Inl (boundsError byteLength 6), this))"

definition writeIntBE :: "buffer \<Rightarrow> int option \<Rightarrow> int option \<Rightarrow> int \<Rightarrow> (error + int) \<times> buffer" where
  "writeIntBE this value offset byteLength =
     (if byteLength = 6 then writeU_Int48BE this value offset (- 0x800000000000) 0x7fffffffffff
      else if byteLength = 5 then writeU_Int40BE this value offset (- 0x8000000000) 0x7fffffffff
      else if byteLength = 3 then writeU_Int24BE this value offset (- 0x800000) 0x7fffff
      else if byteLength = 4 then writeU_Int32BE this value offset (- 0x80000000) 0x7fffffff
      else if byteLength = 2 then writeU_Int16BE this value offset (- 0x8000) 0x7fff
      else if byteLength = 1 then writeU_Int8 this value offset (- 0x80) 0x7f
      else (Inl (boundsError byteLength 6), this))"

text \<open>
  \<^verbatim>\<open>
  writeInt32LE(value, offset = 0) { return writeU_Int32LE(this, value, offset, -0x80000000, 0x7fffffff); }
  writeInt16LE(value, offset = 0) { return writeU_Int16LE(this, value, offset, -0x8000, 0x7fff); }
  writeInt8(value, offset = 0) { return writeU_Int8(this, value, offset, -0x80, 0x7f); }
  writeInt32BE(value, offset = 0) { return writeU_Int32BE(this, value, offset, -0x80000000, 0x7fffffff); }
  writeInt16BE(value, offset = 0) { return writeU_Int16BE(this, value, offset, -0x8000, 0x7fff); }\<close>
\<close>

definition writeInt32LE :: "buffer \<Rightarrow> int option \<Rightarrow> int option \<Rightarrow> (error + int) \<times> buffer" where
  "writeInt32LE this value offset0 =
     writeU_Int32LE this value (Some (dflt offset0 0)) (- 0x80000000) 0x7fffffff"

definition writeInt16LE :: "buffer \<Rightarrow> int option \<Rightarrow> int option \<Rightarrow> (error + int) \<times> buffer" where
  "writeInt16LE this value offset0 = writeU_Int16LE this value (Some (dflt offset0 0)) (- 0x8000) 0x7fff"

definition writeInt8 :: "buffer \<Rightarrow> int option \<Rightarrow> int option \<Rightarrow> (error + int) \<times> buffer" where
  "writeInt8 this value offset0 = writeU_Int8 this value (Some (dflt offset0 0)) (- 0x80) 0x7f"

definition writeInt32BE :: "buffer \<Rightarrow> int option \<Rightarrow> int option \<Rightarrow> (error + int) \<times> buffer" where
  "writeInt32BE this value offset0 =
     writeU_Int32BE this value (Some (dflt offset0 0)) (- 0x80000000) 0x7fffffff"

definition writeInt16BE :: "buffer \<Rightarrow> int option \<Rightarrow> int option \<Rightarrow> (error + int) \<times> buffer" where
  "writeInt16BE this value offset0 = writeU_Int16BE this value (Some (dflt offset0 0)) (- 0x8000) 0x7fff"

text \<open>
  The integer writes as one family: the name of a method (with the \<^verbatim>\<open>byteLength\<close>
  argument of the four variable-width ones) and the call of that method.
\<close>

datatype intWrite =
    WriteBigUInt64LE | WriteBigUInt64BE | WriteBigInt64LE | WriteBigInt64BE
  | WriteUIntLE int | WriteUIntBE int | WriteIntLE int | WriteIntBE int
  | WriteUInt32LE | WriteUInt16LE | WriteUInt8 | WriteUInt32BE | WriteUInt16BE
  | WriteInt32LE | WriteInt16LE | WriteInt8 | WriteInt32BE | WriteInt16BE

fun callIntWrite :: "intWrite \<Rightarrow> buffer \<Rightarrow> int option \<Rightarrow> int option \<Rightarrow> (error + int) \<times> buffer" where
  "callIntWrite WriteBigUInt64LE this value offset = writeBigUInt64LE this value offset"
| "callIntWrite WriteBigUInt64BE this value offset = writeBigUInt64BE this value offset"
| "callIntWrite WriteBigInt64LE this value offset = writeBigInt64LE this value offset"
| "callIntWrite WriteBigInt64BE this value offset = writeBigInt64BE this value offset"
| "callIntWrite (WriteUIntLE byteLength) this value offset = writeUIntLE this value offset byteLength"
| "callIntWrite (WriteUIntBE byteLength) this value offset = writeUIntBE this value offset byteLength"
| "callIntWrite (WriteIntLE byteLength) this value offset = writeIntLE this value offset byteLength"
| "callIntWrite (WriteIntBE byteLength) this value offset = writeIntBE this value offset byteLength"
| "callIntWrite WriteUInt32LE this value offset = writeUInt32LE this value offset"
| "callIntWrite WriteUInt16LE this value offset = writeUInt16LE this value offset"
| "callIntWrite WriteUInt8 this value offset = writeUInt8 this value offset"
| "callIntWrite WriteUInt32BE this value offset = writeUInt32BE this value offset"
| "callIntWrite WriteUInt16BE this value offset = writeUInt16BE this value offset"
| "callIntWrite WriteInt32LE this value offset = writeInt32LE this value offset"
| "callIntWrite WriteInt16LE this value offset = writeInt16LE this value offset"
| "callIntWrite WriteInt8 this value offset = writeInt8 this value offset"
| "callIntWrite WriteInt32BE this value offset = writeInt32BE this value offset"
| "callIntWrite WriteInt16BE this value offset = writeInt16BE this value offset"

text \<open>
  The specification side of claim C5: the width in bytes of a write, whether it is
  signed, and the exact range of the values a width and signedness represent.
\<close>

fun writeWidth :: "intWrite \<Rightarrow> int" where
  "writeWidth WriteBigUInt64LE = 8"
| "writeWidth WriteBigUInt64BE = 8"
| "writeWidth WriteBigInt64LE = 8"
| "writeWidth WriteBigInt64BE = 8"
| "writeWidth (WriteUIntLE byteLength) = byteLength"
| "writeWidth (WriteUIntBE byteLength) = byteLength"
| "writeWidth (WriteIntLE byteLength) = byteLength"
| "writeWidth (WriteIntBE byteLength) = byteLength"
| "writeWidth WriteUInt32LE = 4"
| "writeWidth WriteUInt16LE = 2"
| "writeWidth WriteUInt8 = 1"
| "writeWidth WriteUInt32BE = 4"
| "writeWidth WriteUInt16BE = 2"
| "writeWidth WriteInt32LE = 4"
| "writeWidth WriteInt16LE = 2"
| "writeWidth WriteInt8 = 1"
| "writeWidth WriteInt32BE = 4"
| "writeWidth WriteInt16BE = 2"

fun writeSigned :: "intWrite \<Rightarrow> bool" where
  "writeSigned WriteBigInt64LE = True"
| "writeSigned WriteBigInt64BE = True"
| "writeSigned (WriteIntLE byteLength) = True"
| "writeSigned (WriteIntBE byteLength) = True"
| "writeSigned WriteInt32LE = True"
| "writeSigned WriteInt16LE = True"
| "writeSigned WriteInt8 = True"
| "writeSigned WriteInt32BE = True"
| "writeSigned WriteInt16BE = True"
| "writeSigned _ = False"

text \<open>
  The variable-width writes take a \<^verbatim>\<open>byteLength\<close> of 1 to 6; every other write has
  its width in its name.
\<close>

fun supportedWidth :: "intWrite \<Rightarrow> bool" where
  "supportedWidth (WriteUIntLE byteLength) = (1 \<le> byteLength \<and> byteLength \<le> 6)"
| "supportedWidth (WriteUIntBE byteLength) = (1 \<le> byteLength \<and> byteLength \<le> 6)"
| "supportedWidth (WriteIntLE byteLength) = (1 \<le> byteLength \<and> byteLength \<le> 6)"
| "supportedWidth (WriteIntBE byteLength) = (1 \<le> byteLength \<and> byteLength \<le> 6)"
| "supportedWidth _ = True"

definition representable :: "bool \<Rightarrow> int \<Rightarrow> int \<Rightarrow> bool" where
  "representable sgnd width value =
     (if sgnd then - (2 ^ nat (8 * width - 1)) \<le> value \<and> value < 2 ^ nat (8 * width - 1)
      else 0 \<le> value \<and> value < 2 ^ nat (8 * width))"




section \<open>Fill\<close>

text \<open>
  \<^verbatim>\<open>validateInteger(value, name, min = Number.MIN_SAFE_INTEGER, max = Number.MAX_SAFE_INTEGER)\<close>
  (lines 238--245 and 2654--2661) throws \<^verbatim>\<open>ERR_INVALID_ARG_TYPE\<close> on a value that is
  not a number, \<^verbatim>\<open>ERR_OUT_OF_RANGE\<close> on a number that is not an integer, and
  \<^verbatim>\<open>
    if (value < min || value > max)
      throw new ERR_OUT_OF_RANGE(name, `>= ${min} && <= ${max}`, value);\<close>
  On the integral numbers of this model only the last test can fail. The result is the
  error thrown, if any. The second edition's \<^verbatim>\<open>validateOffset(value, name, min = 0,
  max = Number.MAX_SAFE_INTEGER)\<close> (line 2680) calls \<^verbatim>\<open>validateInteger\<close> with these
  bounds.
\<close>

definition MAX_SAFE_INTEGER :: int where
  "MAX_SAFE_INTEGER = 9007199254740991"

definition MIN_SAFE_INTEGER :: int where
  "MIN_SAFE_INTEGER = - 9007199254740991"

definition validateInteger :: "int \<Rightarrow> int \<Rightarrow> int \<Rightarrow> error option" where
  "validateInteger value vmin vmax =
     (if value < vmin \<or> value > vmax then Some ERR_OUT_OF_RANGE else None)"

definition validateOffset :: "int \<Rightarrow> int \<Rightarrow> int \<Rightarrow> error option" where
  "validateOffset value vmin vmax = validateInteger value vmin vmax"

text \<open>
  \<^verbatim>\<open>Uint8Array.prototype.fill.call(buf, value, start, end)\<close> is the host's typed-array
  fill, not code of this library. It is modelled as ECMAScript defines it
  (\<^verbatim>\<open>%TypedArray%.prototype.fill\<close>): a negative \<open>start\<close> or \<open>end\<close> counts from the
  end of the array, both are clamped into \<open>[0, length]\<close>, and the elements from the
  resulting first index up to, not including, the resulting last index are set to the
  value, one after the other.
\<close>

function fillRange :: "buffer \<Rightarrow> int \<Rightarrow> int \<Rightarrow> int \<Rightarrow> buffer" where
  "fillRange buf value k final =
     (if k < final then fillRange (bufSet buf k value) value (k + 1) final else buf)"
  by pat_completeness auto
termination
  by (relation "measure (\<lambda>(buf, value, k, final). nat (final - k))") auto

definition typedArrayFill :: "buffer \<Rightarrow> int \<Rightarrow> int \<Rightarrow> int \<Rightarrow> buffer" where
  "typedArrayFill buf value start end =
     (let len = int (length buf);
          k = (if start < 0 then max (len + start) 0 else min start len);
          final = (if end < 0 then max (len + end) 0 else min end len)
      in fillRange buf value k final)"

text \<open>
  First edition, lines 522--582, for a \<^verbatim>\<open>value\<close> that is a number (the branches for a
  string value, and the loop for a string or buffer pattern, are not part of this
  model):
  \<^verbatim>\<open>
  function _fill(buf, value, offset, end, encoding) {
    if (typeof value === 'string') { ... } else { encoding = undefined; }
    if (offset === undefined) {
      offset = 0;
      end = buf.length;
    } else {
      validateInteger(offset, 'offset');
      // Invalid ranges are not set to a default, so can range check early.
      if (end === undefined) {
        end = buf.length;
      } else {
        validateInteger(end, 'end', 0, buf.length);
      }
      if (offset >= end)
        return buf;
    }
    if (typeof value === 'number')
      Uint8Array.prototype.fill.call(buf, value, offset, end);
    else { ... }
    return buf;
  }\<close>
  The function returns \<^verbatim>\<open>buf\<close>: the outcome \<open>Inr ()\<close> with the buffer beside it.
\<close>

definition priv_fill1 :: "buffer \<Rightarrow> int \<Rightarrow> int option \<Rightarrow> int option \<Rightarrow> (error + unit) \<times> buffer" where
  "priv_fill1 buf value offset0 end0 =
     (case offset0 of
        None \<Rightarrow> (Inr (), typedArrayFill buf value 0 (int (length buf)))
      | Some offset \<Rightarrow>
          (case validateInteger offset MIN_SAFE_INTEGER MAX_SAFE_INTEGER of
             Some e \<Rightarrow> (Inl e, buf)
           | None \<Rightarrow>
               (case (case end0 of
                        None \<Rightarrow> Inr (int (length buf))
                      | Some end \<Rightarrow>
                          (case validateInteger end 0 (int (length buf)) of
                             Some e \<Rightarrow> Inl e
                           | None \<Rightarrow> Inr end)) of
                  Inl e \<Rightarrow> (Inl e, buf)
                | Inr end \<Rightarrow>
                    if offset \<ge> end then (Inr (), buf)
                    else (Inr (), typedArrayFill buf value offset end))))"

text \<open>
  Second edition, lines 4791--4849, for a \<^verbatim>\<open>value\<close> that is a number:
  \<^verbatim>\<open>
    if (offset === undefined) {
      offset = 0;
      end = buf.length;
    } else {
      validateOffset(offset, 'offset');
      if (end === undefined)
        end = buf.length;
      else validateOffset(end, 'end', 0, buf.length);
      if (offset >= end)
        return buf;
    }
    if (typeof value === 'number') {
      const byteLen = new Uint8Array(buf.buffer).byteLength;
      const fillLength = end - offset;
      if (offset > end || fillLength + offset > byteLen)
        throw new ERR_BUFFER_OUT_OF_BOUNDS();
      Uint8Array.prototype.fill.call(buf, value, offset, end);
    } else { ... }
    return buf;\<close>
  \<open>byteLen\<close> is the size of the memory region the buffer is a view of; it is an
  argument of the model, and at least the length of the buffer.
\<close>

definition priv_fill2 :: "int \<Rightarrow> buffer \<Rightarrow> int \<Rightarrow> int option \<Rightarrow> int option \<Rightarrow> (error + unit) \<times> buffer" where
  "priv_fill2 byteLen buf value offset0 end0 =
     (case (case offset0 of
              None \<Rightarrow> Inr (0, int (length buf), False)
            | Some offset \<Rightarrow>
                (case validateOffset offset 0 MAX_SAFE_INTEGER of
                   Some e \<Rightarrow> Inl e
                 | None \<Rightarrow>
                     (case end0 of
                        None \<Rightarrow> Inr (offset, int (length buf), offset \<ge> int (length buf))
                      | Some end \<Rightarrow>
                          (case validateOffset end 0 (int (length buf)) of
                             Some e \<Rightarrow> Inl e
                           | None \<Rightarrow> Inr (offset, end, offset \<ge> end))))) of
        Inl e \<Rightarrow> (Inl e, buf)
      | Inr (offset, end, done) \<Rightarrow>
          if done then (Inr (), buf)
          else (let fillLength = end - offset
                in if offset > end \<or> fillLength + offset > byteLen
                   then (Inl ERR_BUFFER_OUT_OF_BOUNDS, buf)
                   else (Inr (), typedArrayFill buf value offset end)))"

section \<open>The hex codec\<close>

text \<open>
  Host string functions, as ECMAScript defines them. \<^verbatim>\<open>s.slice(from, to)\<close>: a negative
  bound counts from the end of the string, both bounds are clamped into the string, and
  the result is the code units from the first bound up to, not including, the second.
\<close>

definition slice :: "jsstring \<Rightarrow> int \<Rightarrow> int \<Rightarrow> jsstring" where
  "slice s start end =
     (let len = int (length s);
          from = (if start < 0 then max (len + start) 0 else min start len);
          to = (if end < 0 then max (len + end) 0 else min end len)
      in take (nat (to - from)) (drop (nat from) s))"

text \<open>
  The code units that ECMAScript's \<^verbatim>\<open>parseInt\<close> and \<^verbatim>\<open>trim\<close> skip: white space
  and line terminators.
\<close>

definition isWhiteSpace :: "16 word \<Rightarrow> bool" where
  "isWhiteSpace c =
     (c \<in> {0x9, 0xA, 0xB, 0xC, 0xD, 0x20, 0xA0, 0x1680, 0x2028, 0x2029, 0x202F, 0x205F,
           0x3000, 0xFEFF} \<or> (0x2000 \<le> c \<and> c \<le> 0x200A))"

text \<open>The value of a hexadecimal digit; \<open>None\<close> for any other code unit.\<close>

definition hexDigit :: "16 word \<Rightarrow> int option" where
  "hexDigit c =
     (if 0x30 \<le> c \<and> c \<le> 0x39 then Some (uint c - 0x30)
      else if 0x61 \<le> c \<and> c \<le> 0x66 then Some (uint c - 0x61 + 10)
      else if 0x41 \<le> c \<and> c \<le> 0x46 then Some (uint c - 0x41 + 10)
      else None)"

text \<open>
  \<^verbatim>\<open>parseInt(s, 16)\<close>: leading white space is skipped, then an optional sign, then an
  optional \<^verbatim>\<open>0x\<close> or \<^verbatim>\<open>0X\<close>; the longest run of hexadecimal digits that follows is
  the number, and there being none the result is NaN (here \<open>None\<close>).
\<close>

definition parseInt16 :: "jsstring \<Rightarrow> int option" where
  "parseInt16 s =
     (let s1 = dropWhile isWhiteSpace s;
          sign = (if take 1 s1 = [0x2D] then - 1 else 1 :: int);
          s2 = (if take 1 s1 = [0x2D] \<or> take 1 s1 = [0x2B] then drop 1 s1 else s1);
          s3 = (if take 2 s2 = [0x30, 0x78] \<or> take 2 s2 = [0x30, 0x58] then drop 2 s2 else s2);
          z = takeWhile (\<lambda>c. hexDigit c \<noteq> None) s3
      in if z = [] then None
         else Some (sign * foldl (\<lambda>acc c. acc * 16 + (case hexDigit c of None \<Rightarrow> 0 | Some d \<Rightarrow> d)) 0 z))"

text \<open>
  \<^verbatim>\<open>n.toString(16)\<close> of an integral number that is not negative: its hexadecimal
  digits, lower case, with no leading zero. \<^verbatim>\<open>s.padStart(2, '0')\<close> puts zeros in front
  of a string shorter than 2.
\<close>

definition hexChar :: "int \<Rightarrow> 16 word" where
  "hexChar d = (if d < 10 then word_of_int (0x30 + d) else word_of_int (0x61 + (d - 10)))"

function toString16 :: "int \<Rightarrow> jsstring" where
  "toString16 n = (if n < 16 then [hexChar n] else toString16 (n div 16) @ [hexChar (n mod 16)])"
  by pat_completeness auto
termination
  by (relation "measure nat") auto

definition padStart2 :: "jsstring \<Rightarrow> jsstring" where
  "padStart2 s = replicate (2 - length s) 0x30 @ s"

text \<open>
  First edition, lines 1142--1164:
  \<^verbatim>\<open>
  hexWrite(string, offset, length) {
    if (typeof offset === 'undefined') offset = 0;
    if (typeof length === 'undefined') length = string.length >>> 1;
    if (offset < 0) throw new RangeError('Index out of range');
    if (offset > this.length) throw new RangeError('"offset" is outside of buffer bounds');
    if (length < 0) throw new RangeError('Index out of range');
    length = Math.min(this.length - offset, string.length >>> 1, length);
    let i;
    for (i = 0; i < length; ++i) {
      const code = parseInt(string.slice(i * 2, i * 2 + 1), 16);
      if (Number.isNaN(code))
        return i;
      this[offset++] = code;
    }
    return i;
  }\<close>
\<close>

function hexWrite1_loop :: "jsstring \<Rightarrow> int \<Rightarrow> int \<Rightarrow> int \<Rightarrow> buffer \<Rightarrow> int \<times> buffer" where
  "hexWrite1_loop string len i offset this =
     (if i < len
      then (case parseInt16 (slice string (i * 2) (i * 2 + 1)) of
              None \<Rightarrow> (i, this)
            | Some code \<Rightarrow> hexWrite1_loop string len (i + 1) (offset + 1) (bufSet this offset code))
      else (i, this))"
  by pat_completeness auto
termination
  by (relation "measure (\<lambda>(string, len, i, offset, this). nat (len - i))") auto

definition hexWrite1 :: "buffer \<Rightarrow> jsstring \<Rightarrow> int option \<Rightarrow> int option \<Rightarrow> (error + int) \<times> buffer" where
  "hexWrite1 this string offset0 length0 =
     (let offset = dflt offset0 0;
          len = dflt length0 (int (length string) div 2)
      in if offset < 0 then (Inl PlainRangeError, this)
         else if offset > int (length this) then (Inl PlainRangeError, this)
         else if len < 0 then (Inl PlainRangeError, this)
         else (case hexWrite1_loop string
                      (min (int (length this) - offset) (min (int (length string) div 2) len))
                      0 offset this of
                 (i, this') \<Rightarrow> (Inr i, this')))"

text \<open>
  Second edition, lines 4142--4157: the defaults are default parameters, the two tests
  on negative arguments come first, in one \<^verbatim>\<open>if\<close>, and the loop is
  \<^verbatim>\<open>
    for (let i = 0; i !== length; ++i) {
      const code = parseInt(string.slice(i * 2, i * 2 + 1), 16);
      if (Number.isNaN(code))
        return i;
      this[offset++] = code;
    }
    return length;\<close>
\<close>

partial_function (option) hexWrite2_loop :: "jsstring \<Rightarrow> int \<Rightarrow> int \<Rightarrow> int \<Rightarrow> buffer \<Rightarrow> (int \<times> buffer) option" where
  "hexWrite2_loop string len i offset this =
     (if i \<noteq> len
      then (case parseInt16 (slice string (i * 2) (i * 2 + 1)) of
              None \<Rightarrow> Some (i, this)
            | Some code \<Rightarrow> hexWrite2_loop string len (i + 1) (offset + 1) (bufSet this offset code))
      else Some (len, this))"

declare hexWrite2_loop.simps [code]

definition hexWrite2 :: "buffer \<Rightarrow> jsstring \<Rightarrow> int option \<Rightarrow> int option \<Rightarrow> ((error + int) \<times> buffer) option" where
  "hexWrite2 this string offset0 length0 =
     (let offset = dflt offset0 0;
          len = dflt length0 (int (length string) div 2)
      in if offset < 0 \<or> len < 0 then Some (Inl PlainRangeError, this)
         else if offset > int (length this) then Some (Inl PlainRangeError, this)
         else (case hexWrite2_loop string
                      (min (int (length this) - offset) (min (int (length string) div 2) len))
                      0 offset this of
                 None \<Rightarrow> None
               | Some (i, this') \<Rightarrow> Some (Inr i, this')))"

text \<open>
  First edition, lines 1166--1175:
  \<^verbatim>\<open>
  hexSlice(start = 0, end = this.length) {
    if (start < 0 || start > this.length || end > this.length)
      throw new RangeError('Index out of range');
    if (end < start) end = start;
    let res = '';
    for (let i = start; i < end; ++i)
      res += this[i].toString(16);
    return res;
  }\<close>
  Calling \<^verbatim>\<open>toString\<close> on an element that is \<^verbatim>\<open>undefined\<close> throws a
  \<^verbatim>\<open>TypeError\<close>.
\<close>

function hexSlice1_loop :: "buffer \<Rightarrow> int \<Rightarrow> int \<Rightarrow> jsstring \<Rightarrow> error + jsstring" where
  "hexSlice1_loop this end i res =
     (if i < end
      then (case bufGet this i of
              None \<Rightarrow> Inl PlainTypeError
            | Some b \<Rightarrow> hexSlice1_loop this end (i + 1) (res @ toString16 b))
      else Inr res)"
  by pat_completeness auto
termination
  by (relation "measure (\<lambda>(this, end, i, res). nat (end - i))") auto

definition hexSlice1 :: "buffer \<Rightarrow> int option \<Rightarrow> int option \<Rightarrow> error + jsstring" where
  "hexSlice1 this start0 end0 =
     (let start = dflt start0 0;
          end = dflt end0 (int (length this))
      in if start < 0 \<or> start > int (length this) \<or> end > int (length this)
         then Inl PlainRangeError
         else hexSlice1_loop this (if end < start then start else end) start [])"

text \<open>
  Second edition, lines 4131--4140: the same, with the loop
  \<^verbatim>\<open>for (let i = start; i !== end; ++i) res += this[i].toString(16).padStart(2, '0');\<close>
\<close>

partial_function (option) hexSlice2_loop :: "buffer \<Rightarrow> int \<Rightarrow> int \<Rightarrow> jsstring \<Rightarrow> (error + jsstring) option" where
  "hexSlice2_loop this end i res =
     (if i \<noteq> end
      then (case bufGet this i of
              None \<Rightarrow> Some (Inl PlainTypeError)
            | Some b \<Rightarrow> hexSlice2_loop this end (i + 1) (res @ padStart2 (toString16 b)))
      else Some (Inr res))"

declare hexSlice2_loop.simps [code]

definition hexSlice2 :: "buffer \<Rightarrow> int option \<Rightarrow> int option \<Rightarrow> (error + jsstring) option" where
  "hexSlice2 this start0 end0 =
     (let start = dflt start0 0;
          end = dflt end0 (int (length this))
      in if start < 0 \<or> start > int (length this) \<or> end > int (length this)
         then Some (Inl PlainRangeError)
         else hexSlice2_loop this (if end < start then start else end) start [])"

section \<open>The base64 codec\<close>

text \<open>
  Second edition, lines 3997--4009: the table \<^verbatim>\<open>kBase64DecMap\<close>, 128 entries, the
  value of each character of the base64 alphabet at the index of its code.
\<close>

definition kBase64DecMap :: "int list" where
  "kBase64DecMap =
     [
      0x00, 0x00, 0x00, 0x00, 0x00, 0x00, 0x00, 0x00, 0x00, 0x00, 0x00, 0x00,
      0x00, 0x00, 0x00, 0x00, 0x00, 0x00, 0x00, 0x00, 0x00, 0x00, 0x00, 0x00,
      0x00, 0x00, 0x00, 0x00, 0x00, 0x00, 0x00, 0x00, 0x00, 0x00, 0x00, 0x00,
      0x00, 0x00, 0x00, 0x00, 0x00, 0x00, 0x00, 0x3E, 0x00, 0x00, 0x00, 0x3F,
      0x34, 0x35, 0x36, 0x37, 0x38, 0x39, 0x3A, 0x3B, 0x3C, 0x3D, 0x00, 0x00,
      0x00, 0x00, 0x00, 0x00, 0x00, 0x00, 0x01, 0x02, 0x03, 0x04, 0x05, 0x06,
      0x07, 0x08, 0x09, 0x0A, 0x0B, 0x0C, 0x0D, 0x0E, 0x0F, 0x10, 0x11, 0x12,
      0x13, 0x14, 0x15, 0x16, 0x17, 0x18, 0x19, 0x00, 0x00, 0x00, 0x00, 0x00,
      0x00, 0x1A, 0x1B, 0x1C, 0x1D, 0x1E, 0x1F, 0x20, 0x21, 0x22, 0x23, 0x24,
      0x25, 0x26, 0x27, 0x28, 0x29, 0x2A, 0x2B, 0x2C, 0x2D, 0x2E, 0x2F, 0x30,
      0x31, 0x32, 0x33, 0x00, 0x00, 0x00, 0x00, 0x00
     ]"

text \<open>
  The tests of \<^verbatim>\<open>base64Decode\<close> on a character \<^verbatim>\<open>ch\<close>:
  \<^verbatim>\<open>('0' <= ch && ch <= '9') || ('A' <= ch && ch <= 'Z') || ('a' <= ch && ch <= 'z') ||
  ch == '+' || ch == '/'\<close> and
  \<^verbatim>\<open>ch <= ' ' && (ch == ' ' || ch == '\n' || ch == '\t' || ch == '\r' || ch == '\f')\<close>.
\<close>

definition isBase64Char :: "16 word \<Rightarrow> bool" where
  "isBase64Char ch =
     ((0x30 \<le> ch \<and> ch \<le> 0x39) \<or> (0x41 \<le> ch \<and> ch \<le> 0x5A) \<or> (0x61 \<le> ch \<and> ch \<le> 0x7A) \<or>
      ch = 0x2B \<or> ch = 0x2F)"

definition isSkipped :: "16 word \<Rightarrow> bool" where
  "isSkipped ch = (ch \<le> 0x20 \<and> (ch = 0x20 \<or> ch = 0x0A \<or> ch = 0x09 \<or> ch = 0x0D \<or> ch = 0x0C))"

text \<open>
  An element of a JavaScript array of numbers, read as the operand of a bitwise operator:
  outside the array the read gives \<^verbatim>\<open>undefined\<close>, which the operator converts to 0.
\<close>

definition arrNum :: "int list \<Rightarrow> int \<Rightarrow> int" where
  "arrNum out i = (if 0 \<le> i \<and> i < int (length out) then out ! nat i else 0)"

text \<open>
  \<^verbatim>\<open>out[i] = v\<close> on a JavaScript array. Every store of \<^verbatim>\<open>base64Decode\<close> is guarded
  by a test that puts \<open>i\<close> below \<^verbatim>\<open>outLength\<close>, which is at most the length of the
  array, so the store replaces an element; a store outside the array leaves the model's
  list as it is.
\<close>

definition arrSet :: "int list \<Rightarrow> int \<Rightarrow> int \<Rightarrow> int list" where
  "arrSet out i v = (if 0 \<le> i \<and> i < int (length out) then out[nat i := v] else out)"

text \<open>
  Second edition, lines 4040--4103. The first loop of \<^verbatim>\<open>base64Decode\<close> visits the
  characters in order:
  \<^verbatim>\<open>
    for (let idx = 0; idx < dataLen; ++idx) {
      const ch = data[idx];
      if (ch == '=') {
        ++equalsSignCount;
        if (equalsSignCount > 2) {
          hadError = true;
          break;
        }
      } else if (('0' <= ch && ch <= '9') || ('A' <= ch && ch <= 'Z') ||
                 ('a' <= ch && ch <= 'z') || ch == '+' || ch == '/') {
        if (equalsSignCount) {
          hadError = true;
          break;
        }
        out[outLength++] = kBase64DecMap[ch.charCodeAt(0)];
      } else {
        if (ch <= ' ' && (ch == ' ' || ch == '\n' || ch == '\t' || ch == '\r' || ch == '\f'))
          continue;
        hadError = true;
        break;
      }
    }\<close>
  The function below is that loop on the characters still to visit; it returns
  \<^verbatim>\<open>out\<close>, \<^verbatim>\<open>equalsSignCount\<close> and \<^verbatim>\<open>hadError\<close>. \<^verbatim>\<open>outLength\<close> is the length
  of \<^verbatim>\<open>out\<close> throughout. The code of a character of the alphabet is below 128, inside
  the table.
\<close>

fun base64Decode_scan :: "jsstring \<Rightarrow> int list \<Rightarrow> int \<Rightarrow> int list \<times> int \<times> bool" where
  "base64Decode_scan [] out equalsSignCount = (out, equalsSignCount, False)"
| "base64Decode_scan (ch # rest) out equalsSignCount =
     (if ch = 0x3D
      then (if equalsSignCount + 1 > 2 then (out, equalsSignCount + 1, True)
            else base64Decode_scan rest out (equalsSignCount + 1))
      else if isBase64Char ch
      then (if equalsSignCount \<noteq> 0 then (out, equalsSignCount, True)
            else base64Decode_scan rest (out @ [arrNum kBase64DecMap (uint ch)]) equalsSignCount)
      else if isSkipped ch then base64Decode_scan rest out equalsSignCount
      else (out, equalsSignCount, True))"

text \<open>
  The second loop packs four 6-bit values into three bytes, in place:
  \<^verbatim>\<open>
      while (didx < outLength - 2) {
        out[didx++] = (((out[sidx] << 2) & 255) | ((out[sidx + 1] >> 4) & 3));
        out[didx++] = (((out[sidx + 1] << 4) & 255) | ((out[sidx + 2] >> 2) & 15));
        out[didx++] = (((out[sidx + 2] << 6) & 255) | (out[sidx + 3] & 63));
        sidx += 4;
      }\<close>
  It returns \<^verbatim>\<open>out\<close>, \<^verbatim>\<open>sidx\<close> and \<^verbatim>\<open>didx\<close>.
\<close>

function base64Decode_loop :: "int list \<Rightarrow> int \<Rightarrow> int \<Rightarrow> int \<Rightarrow> int list \<times> int \<times> int" where
  "base64Decode_loop out outLength sidx didx =
     (if didx < outLength - 2
      then (let out1 = arrSet out didx
                         ((push_bit 2 (arrNum out sidx) AND 255) OR
                          (drop_bit 4 (arrNum out (sidx + 1)) AND 3));
                out2 = arrSet out1 (didx + 1)
                         ((push_bit 4 (arrNum out1 (sidx + 1)) AND 255) OR
                          (drop_bit 2 (arrNum out1 (sidx + 2)) AND 15));
                out3 = arrSet out2 (didx + 2)
                         ((push_bit 6 (arrNum out2 (sidx + 2)) AND 255) OR
                          (arrNum out2 (sidx + 3) AND 63))
            in base64Decode_loop out3 outLength (sidx + 4) (didx + 3))
      else (out, sidx, didx))"
  by pat_completeness auto
termination
  by (relation "measure (\<lambda>(out, outLength, sidx, didx). nat (outLength - didx))") auto

text \<open>
  \<^verbatim>\<open>
  function base64Decode(data) {
    const dataLen = data.length;
    if (!dataLen)
      return '';
    let out = [];
    let equalsSignCount = 0;
    let outLength = 0;
    let hadError = false;
    for (...) { ... }
    if (outLength < out.length)
      out = out.slice(0, outLength);
    if (hadError)
      return '';
    if (!outLength) {
      if (!equalsSignCount)
        return out.map(c => String.fromCharCode(c)).join('');
      else return '';
    }
    if (equalsSignCount && (outLength + equalsSignCount) % 4)
      return '';
    if ((outLength % 4) == 1)
      return '';
    outLength -= Math.floor((outLength + 3) / 4);
    if (!outLength)
      return '';
    let sidx = 0;
    let didx = 0;
    if (outLength > 1)
      while (didx < outLength - 2) { ... }
    if (didx < outLength) {
      out[didx++] = (((out[sidx] << 2) & 255) | ((out[sidx + 1] >> 4) & 3));
      if (didx < outLength)
        out[didx] = (((out[sidx + 1] << 4) & 255) | ((out[sidx + 2] >> 2) & 15));
    }
    if (outLength < out.length)
      out = out.slice(0, outLength);
    return out.map(c => String.fromCharCode(c)).join('');
  }\<close>
  The function has no \<^verbatim>\<open>throw\<close> and calls nothing that throws: it returns a string
  on every input.
\<close>

definition base64Decode :: "jsstring \<Rightarrow> jsstring" where
  "base64Decode data =
     (if length data = 0 then []
      else (case base64Decode_scan data [] 0 of
              (out, equalsSignCount, hadError) \<Rightarrow>
                (let outLength = int (length out)
                 in if hadError then []
                    else if outLength = 0
                    then (if equalsSignCount = 0 then map fromCharCode out else [])
                    else if equalsSignCount \<noteq> 0 \<and> jsRem (outLength + equalsSignCount) 4 \<noteq> 0 then []
                    else if jsRem outLength 4 = 1 then []
                    else (let outLength = outLength - (outLength + 3) div 4
                          in if outLength = 0 then []
                             else (case (if outLength > 1 then base64Decode_loop out outLength 0 0
                                         else (out, 0, 0)) of
                                     (out, sidx, didx) \<Rightarrow>
                                       (let out =
                                          (if didx < outLength
                                           then (let out1 = arrSet out didx
                                                        ((push_bit 2 (arrNum out sidx) AND 255) OR
                                                         (drop_bit 4 (arrNum out (sidx + 1)) AND 3))
                                                 in if didx + 1 < outLength
                                                    then arrSet out1 (didx + 1)
                                                           ((push_bit 4 (arrNum out1 (sidx + 1)) AND 255) OR
                                                            (drop_bit 2 (arrNum out1 (sidx + 2)) AND 15))
                                                    else out1)
                                           else out)
                                        in map fromCharCode
                                             (if outLength < int (length out)
                                              then take (nat outLength) out else out)))))))"

text \<open>
  Host string functions of the second edition's \<^verbatim>\<open>base64Write\<close>:
  \<^verbatim>\<open>string.trim()\<close> removes white space and line terminators at both ends;
  \<^verbatim>\<open>.replace(/[^A-Za-z0-9\+\/\=]/g, '')\<close> removes every character that is neither of
  the alphabet nor \<^verbatim>\<open>=\<close>; \<^verbatim>\<open>.replace(/=[\S\s]*?$/, '')\<close> removes the first
  \<^verbatim>\<open>=\<close> and everything after it.
\<close>

definition trim :: "jsstring \<Rightarrow> jsstring" where
  "trim s = rev (dropWhile isWhiteSpace (rev (dropWhile isWhiteSpace s)))"

definition removeNonBase64 :: "jsstring \<Rightarrow> jsstring" where
  "removeNonBase64 s = filter (\<lambda>c. isBase64Char c \<or> c = 0x3D) s"

definition removeFromFirstPad :: "jsstring \<Rightarrow> jsstring" where
  "removeFromFirstPad s = takeWhile (\<lambda>c. c \<noteq> 0x3D) s"

text \<open>
  Both editions (lines 1079--1088 and 4478--4485):
  \<^verbatim>\<open>
  function base64ByteLength(str, bytes) {
    if (str.charCodeAt(bytes - 1) === 0x3D)
      bytes--;
    if (bytes > 1 && str.charCodeAt(bytes - 1) === 0x3D)
      bytes--;
    return (bytes * 3) >>> 2;
  }\<close>
  The first edition's \<^verbatim>\<open>base64Write\<close> also calls it with one argument. Then
  \<^verbatim>\<open>bytes\<close> is \<^verbatim>\<open>undefined\<close>: \<^verbatim>\<open>bytes - 1\<close> and \<^verbatim>\<open>bytes--\<close> give NaN,
  \<^verbatim>\<open>bytes > 1\<close> is false, and \<^verbatim>\<open>(bytes * 3) >>> 2\<close> is 0.
\<close>

definition base64ByteLength :: "jsstring \<Rightarrow> int option \<Rightarrow> int" where
  "base64ByteLength str bytes0 =
     (case bytes0 of
        None \<Rightarrow> 0
      | Some bytes \<Rightarrow>
          (let bytes1 = (if charCodeAt str (bytes - 1) = Some 0x3D then bytes - 1 else bytes);
               bytes2 = (if bytes1 > 1 \<and> charCodeAt str (bytes1 - 1) = Some 0x3D
                         then bytes1 - 1 else bytes1)
           in drop_bit 2 (take_bit 32 (bytes2 * 3))))"

text \<open>
  \<^verbatim>\<open>latin1Write\<close> has the statements of \<^verbatim>\<open>asciiWrite\<close> in each edition (lines
  1050--1066 and 3976--3987).
\<close>

definition latin1Write1 :: "buffer \<Rightarrow> jsstring \<Rightarrow> int option \<Rightarrow> int option \<Rightarrow> (error + int) \<times> buffer" where
  "latin1Write1 this string offset0 length0 = asciiWrite1 this string offset0 length0"

definition latin1Write2 :: "buffer \<Rightarrow> jsstring \<Rightarrow> int option \<Rightarrow> int option \<Rightarrow> ((error + int) \<times> buffer) option" where
  "latin1Write2 this string offset0 length0 = asciiWrite2 this string offset0 length0"

text \<open>
  Second edition, lines 4113--4121:
  \<^verbatim>\<open>
  base64Write(string, offset = 0, length = base64ByteLength(string, string.length)) {
    if (typeof string !== 'string')
      throw new TypeError('argument must be a string');
    if (offset < 0 || length < 0)
      throw new RangeError('Index out of range');
    if (offset > this.length)
      throw new RangeError('"offset" is outside of buffer bounds');
    return this.latin1Write(base64Decode(string.trim().replace(/[^A-Za-z0-9\+\/\=]/g, '')
      .replace(/=[\S\s]*?$/, '')), offset);
  }\<close>
\<close>

definition base64Write2 :: "buffer \<Rightarrow> jsstring \<Rightarrow> int option \<Rightarrow> int option \<Rightarrow> ((error + int) \<times> buffer) option" where
  "base64Write2 this string offset0 length0 =
     (let offset = dflt offset0 0;
          len = dflt length0 (base64ByteLength string (Some (int (length string))))
      in if offset < 0 \<or> len < 0 then Some (Inl PlainRangeError, this)
         else if offset > int (length this) then Some (Inl PlainRangeError, this)
         else latin1Write2 this
                (base64Decode (removeFromFirstPad (removeNonBase64 (trim string))))
                (Some offset) None)"

text \<open>
  The host function \<^verbatim>\<open>atob\<close>, which the first edition decodes with, is not code of
  this library. It is modelled as the HTML Standard defines it (forgiving-base64 decode):
  ASCII white space is removed; when the length is then a multiple of 4, one or two
  trailing \<^verbatim>\<open>=\<close> are removed; a length that leaves the remainder 1 on division by 4,
  or a character outside the alphabet, makes the call throw an
  \<^verbatim>\<open>InvalidCharacterError\<close>; otherwise every four characters give three bytes, and a
  last group of two or three characters gives one or two bytes.
\<close>

definition isAsciiWhitespace :: "16 word \<Rightarrow> bool" where
  "isAsciiWhitespace c = (c = 0x09 \<or> c = 0x0A \<or> c = 0x0C \<or> c = 0x0D \<or> c = 0x20)"

definition base64Value :: "16 word \<Rightarrow> int" where
  "base64Value c =
     (if 0x41 \<le> c \<and> c \<le> 0x5A then uint c - 0x41
      else if 0x61 \<le> c \<and> c \<le> 0x7A then uint c - 0x61 + 26
      else if 0x30 \<le> c \<and> c \<le> 0x39 then uint c - 0x30 + 52
      else if c = 0x2B then 62
      else 63)"

fun atob_groups :: "int list \<Rightarrow> int list" where
  "atob_groups (a # b # c # d # rest) =
     [a * 4 + b div 16, (b mod 16) * 16 + c div 4, (c mod 4) * 64 + d] @ atob_groups rest"
| "atob_groups [a, b, c] = [a * 4 + b div 16, (b mod 16) * 16 + c div 4]"
| "atob_groups [a, b] = [a * 4 + b div 16]"
| "atob_groups _ = []"

definition atob :: "jsstring \<Rightarrow> error + jsstring" where
  "atob data =
     (let d1 = filter (\<lambda>c. \<not> isAsciiWhitespace c) data;
          n = length d1;
          d2 = (if n mod 4 = 0
                then (if 2 \<le> n \<and> drop (n - 2) d1 = [0x3D, 0x3D] then take (n - 2) d1
                      else if 1 \<le> n \<and> drop (n - 1) d1 = [0x3D] then take (n - 1) d1
                      else d1)
                else d1)
      in if length d2 mod 4 = 1 then Inl InvalidCharacterError
         else if \<exists>c \<in> set d2. \<not> isBase64Char c then Inl InvalidCharacterError
         else Inr (map fromCharCode (atob_groups (map base64Value d2))))"

text \<open>
  First edition, lines 1090--1106:
  \<^verbatim>\<open>
  base64Write(string, offset, length) {
    if (typeof string !== 'string')
      throw new TypeError('argument must be a string');
    if (typeof offset === 'undefined')
      offset = 0;
    if (typeof length === 'undefined')
      length = base64ByteLength(string);
    if (offset < 0)
      throw new RangeError('Index out of range');
    if (offset > this.length)
      throw new RangeError('"offset" is outside of buffer bounds');
    if (length < 0)
      throw new RangeError('Index out of range');
    length = Math.min(this.length - offset, base64ByteLength(string, string.length), length);
    const decoded = atob(string.trim());
    return this.latin1Write(decoded, offset, length);
  }\<close>
  There is no \<^verbatim>\<open>try\<close>: what \<^verbatim>\<open>atob\<close> throws leaves \<^verbatim>\<open>base64Write\<close>.
\<close>

definition base64Write1 :: "buffer \<Rightarrow> jsstring \<Rightarrow> int option \<Rightarrow> int option \<Rightarrow> (error + int) \<times> buffer" where
  "base64Write1 this string offset0 length0 =
     (let offset = dflt offset0 0;
          len = dflt length0 (base64ByteLength string None)
      in if offset < 0 then (Inl PlainRangeError, this)
         else if offset > int (length this) then (Inl PlainRangeError, this)
         else if len < 0 then (Inl PlainRangeError, this)
         else (case atob (trim string) of
                 Inl e \<Rightarrow> (Inl e, this)
               | Inr decoded \<Rightarrow>
                   latin1Write1 this decoded (Some offset)
                     (Some (min (int (length this) - offset)
                              (min (base64ByteLength string (Some (int (length string)))) len)))))"

text \<open>
  The specification side of claim C7: the inputs the decoder is said to reject. A
  character that is neither of the alphabet, nor \<^verbatim>\<open>=\<close>, nor one of the five
  white-space characters the decoder skips; more than two \<^verbatim>\<open>=\<close>; a character of the
  alphabet after a \<^verbatim>\<open>=\<close>; or a count of characters that does not fit: with padding,
  alphabet characters and padding together not a multiple of 4, or, padded or not, one
  alphabet character more than a multiple of 4.
\<close>

definition outOfAlphabet :: "jsstring \<Rightarrow> bool" where
  "outOfAlphabet data = (\<exists>c \<in> set data. c \<noteq> 0x3D \<and> \<not> isBase64Char c \<and> \<not> isSkipped c)"

definition tooMuchPadding :: "jsstring \<Rightarrow> bool" where
  "tooMuchPadding data = (2 < length (filter (\<lambda>c. c = 0x3D) data))"

definition interleavedPadding :: "jsstring \<Rightarrow> bool" where
  "interleavedPadding data =
     (\<exists>c \<in> set (dropWhile (\<lambda>c. c \<noteq> 0x3D) data). isBase64Char c)"

definition lengthInconsistent :: "jsstring \<Rightarrow> bool" where
  "lengthInconsistent data =
     (let n = length (filter isBase64Char data);
          p = length (filter (\<lambda>c. c = 0x3D) data)
      in (0 < p \<and> (n + p) mod 4 \<noteq> 0) \<or> n mod 4 = 1)"

definition rejected :: "jsstring \<Rightarrow> bool" where
  "rejected data =
     (outOfAlphabet data \<or> tooMuchPadding data \<or> interleavedPadding data \<or> lengthInconsistent data)"

section \<open>The UTF-8 codec\<close>

text \<open>
  \<^verbatim>\<open>byteLengthUtf8\<close>, \<^verbatim>\<open>utf8Write\<close> and \<^verbatim>\<open>utf8Slice\<close> have the same statements in
  both editions (lines 838--1011, and 2689--2706 with 3790--3930), up to the way absent
  arguments get their defaults and the spelling of the loop tests (\<^verbatim>\<open>i < string.length\<close>,
  \<^verbatim>\<open>i != string.length\<close>, \<^verbatim>\<open>i !== string.length\<close>, on a counter that starts at 0 and
  grows by 1). The loops over the code units of a string are recursions over the code
  units still to visit.
  \<^verbatim>\<open>
  function isLeadSurrogate(codePoint) { return (codePoint & 0xfc00) == 0xd800; }
  function isTrailSurrogate(codePoint) { return (codePoint & 0xfc00) == 0xdc00; }
  function byteLengthUtf8(string) {
    let byteLength = 0;
    let previous = null;
    for (let i = 0; i < string.length; ++i) {
      const c = string.charCodeAt(i);
      if (c <= 0x7f) {
        byteLength += 1;
      } else if (c <= 0x7ff) {
        byteLength += 2;
      } else if (c <= 0xffff) {
        if (previous !== null && (isLeadSurrogate(previous) && isTrailSurrogate(c))) {
          byteLength += 1;
        } else byteLength += 3;
      } else {
        byteLength += 4;
      }
      previous = c;
    }
    return byteLength;
  }\<close>
\<close>

definition isLeadSurrogate :: "int \<Rightarrow> bool" where
  "isLeadSurrogate codePoint = (codePoint AND 0xfc00 = 0xd800)"

definition isTrailSurrogate :: "int \<Rightarrow> bool" where
  "isTrailSurrogate codePoint = (codePoint AND 0xfc00 = 0xdc00)"

fun byteLengthUtf8_loop :: "jsstring \<Rightarrow> int option \<Rightarrow> int \<Rightarrow> int" where
  "byteLengthUtf8_loop [] previous byteLength = byteLength"
| "byteLengthUtf8_loop (ch # rest) previous byteLength =
     (let c = uint ch
      in byteLengthUtf8_loop rest (Some c)
           (if c \<le> 0x7f then byteLength + 1
            else if c \<le> 0x7ff then byteLength + 2
            else if c \<le> 0xffff
            then (if (case previous of None \<Rightarrow> False
                      | Some p \<Rightarrow> isLeadSurrogate p \<and> isTrailSurrogate c)
                  then byteLength + 1 else byteLength + 3)
            else byteLength + 4))"

definition byteLengthUtf8 :: "jsstring \<Rightarrow> int" where
  "byteLengthUtf8 string = byteLengthUtf8_loop string None 0"

text \<open>
  The loop of \<^verbatim>\<open>utf8Write\<close>:
  \<^verbatim>\<open>
    let written = 0;
    let lead = null;
    for (let i = 0; i != string.length; ++i) {
      let code = string.charCodeAt(i);
      if (code > 0xD7FF && code < 0xE000) {
        if (!lead) {
          if (code > 0xDBFF || i + 1 === string.length) {
            if ((length -= 3) > -1) {
              this[offset++] = 0xEF;
              this[offset++] = 0xBF;
              this[offset++] = 0xBD;
              written += 3;
            }
          } else lead = code;
          continue;
        }
        if (code < 0xDC00) {
          if ((length -= 3) > -1) {
            this[offset++] = 0xEF;
            this[offset++] = 0xBF;
            this[offset++] = 0xBD;
            written += 3;
          }
          lead = code;
          continue;
        }
        code = 0x10000 + ((lead & 0x3ff) << 10) + (code & 0x3ff);
      } else if (lead && (length -= 3) > -1) {
        this[offset++] = 0xEF;
        this[offset++] = 0xBF;
        this[offset++] = 0xBD;
        written += 3;
      }
      lead = null;
      if (code < 0x80) {
        if ((length -= 1) < 0)
          break;
        this[offset++] = code;
        ++written;
      } else if (code < 0x800) {
        if ((length -= 2) < 0)
          break;
        this[offset++] = code >> 0x6 | 0xC0;
        this[offset++] = code & 0x3F | 0x80;
        written += 2;
      } else if (code < 0x10000) {
        if ((length -= 3) < 0)
          break;
        this[offset++] = code >> 0xC | 0xE0;
        this[offset++] = code >> 0x6 & 0x3F | 0x80;
        this[offset++] = code & 0x3F | 0x80;
        written += 3;
      } else if (code < 0x110000) {
        if ((length -= 4) < 0)
          break;
        this[offset++] = code >> 0x12 | 0xF0;
        this[offset++] = code >> 0xC & 0x3F | 0x80;
        this[offset++] = code >> 0x6 & 0x3F | 0x80;
        this[offset++] = code & 0x3F | 0x80;
        written += 4;
      }
    }
    return written;\<close>
  \<^verbatim>\<open>lead\<close> is \<^verbatim>\<open>null\<close> (\<open>None\<close>) or a surrogate, which is not 0, so \<^verbatim>\<open>!lead\<close>
  is \<open>lead = None\<close>. An assignment \<^verbatim>\<open>length -= 3\<close> inside a test takes effect whether
  the test succeeds or not. The state of the loop is \<^verbatim>\<open>lead\<close>, \<^verbatim>\<open>length\<close>,
  \<^verbatim>\<open>offset\<close>, \<^verbatim>\<open>written\<close> and the buffer; the result is \<^verbatim>\<open>written\<close> and the
  buffer.
\<close>

definition putReplacement :: "buffer \<Rightarrow> int \<Rightarrow> buffer" where
  "putReplacement this offset =
     bufSet (bufSet (bufSet this offset 0xEF) (offset + 1) 0xBF) (offset + 2) 0xBD"

definition utf8Write_encode :: "int \<Rightarrow> int \<Rightarrow> int \<Rightarrow> int \<Rightarrow> buffer \<Rightarrow> (bool \<times> int \<times> int \<times> int \<times> buffer)" where
  "utf8Write_encode code len offset written this =
     (if code < 0x80
      then (if len - 1 < 0 then (True, len - 1, offset, written, this)
            else (False, len - 1, offset + 1, written + 1, bufSet this offset code))
      else if code < 0x800
      then (if len - 2 < 0 then (True, len - 2, offset, written, this)
            else (False, len - 2, offset + 2, written + 2,
                  bufSet (bufSet this offset (drop_bit 6 code OR 0xC0))
                    (offset + 1) (code AND 0x3F OR 0x80)))
      else if code < 0x10000
      then (if len - 3 < 0 then (True, len - 3, offset, written, this)
            else (False, len - 3, offset + 3, written + 3,
                  bufSet (bufSet (bufSet this offset (drop_bit 12 code OR 0xE0))
                    (offset + 1) (drop_bit 6 code AND 0x3F OR 0x80))
                    (offset + 2) (code AND 0x3F OR 0x80)))
      else if code < 0x110000
      then (if len - 4 < 0 then (True, len - 4, offset, written, this)
            else (False, len - 4, offset + 4, written + 4,
                  bufSet (bufSet (bufSet (bufSet this offset (drop_bit 18 code OR 0xF0))
                    (offset + 1) (drop_bit 12 code AND 0x3F OR 0x80))
                    (offset + 2) (drop_bit 6 code AND 0x3F OR 0x80))
                    (offset + 3) (code AND 0x3F OR 0x80)))
      else (False, len, offset, written, this))"

fun utf8Write_loop :: "jsstring \<Rightarrow> int option \<Rightarrow> int \<Rightarrow> int \<Rightarrow> int \<Rightarrow> buffer \<Rightarrow> int \<times> buffer" where
  "utf8Write_loop [] lead len offset written this = (written, this)"
| "utf8Write_loop (ch # rest) lead len offset written this =
     (let code = uint ch
      in if code > 0xD7FF \<and> code < 0xE000
         then (case lead of
                 None \<Rightarrow>
                   if code > 0xDBFF \<or> rest = []
                   then (if len - 3 > - 1
                         then utf8Write_loop rest None (len - 3) (offset + 3) (written + 3)
                                (putReplacement this offset)
                         else utf8Write_loop rest None (len - 3) offset written this)
                   else utf8Write_loop rest (Some code) len offset written this
               | Some l \<Rightarrow>
                   if code < 0xDC00
                   then (if len - 3 > - 1
                         then utf8Write_loop rest (Some code) (len - 3) (offset + 3) (written + 3)
                                (putReplacement this offset)
                         else utf8Write_loop rest (Some code) (len - 3) offset written this)
                   else (case utf8Write_encode (0x10000 + push_bit 10 (l AND 0x3ff) + (code AND 0x3ff))
                                len offset written this of
                           (stop, len', offset', written', this') \<Rightarrow>
                             if stop then (written', this')
                             else utf8Write_loop rest None len' offset' written' this'))
         else (case (case lead of
                       None \<Rightarrow> (len, offset, written, this)
                     | Some l \<Rightarrow>
                         if len - 3 > - 1
                         then (len - 3, offset + 3, written + 3, putReplacement this offset)
                         else (len - 3, offset, written, this)) of
                 (len1, offset1, written1, this1) \<Rightarrow>
                   (case utf8Write_encode code len1 offset1 written1 this1 of
                      (stop, len', offset', written', this') \<Rightarrow>
                        if stop then (written', this')
                        else utf8Write_loop rest None len' offset' written' this')))"

text \<open>
  \<^verbatim>\<open>
  utf8Write(string, offset, length) {
    if (typeof string !== 'string')
      throw new TypeError('argument must be a string');
    if (typeof offset === 'undefined')
      offset = 0;
    if (typeof length === 'undefined')
      length = byteLengthUtf8(string);
    if (offset < 0)
      throw new RangeError('Index out of range');
    if (offset > this.length)
      throw new RangeError('"offset" is outside of buffer bounds');
    if (length < 0)
      throw new RangeError('Index out of range');
    length = Math.min(this.length - offset, byteLengthUtf8(string), length);
    ...
  }\<close>
\<close>

definition utf8Write :: "buffer \<Rightarrow> jsstring \<Rightarrow> int option \<Rightarrow> int option \<Rightarrow> (error + int) \<times> buffer" where
  "utf8Write this string offset0 length0 =
     (let offset = dflt offset0 0;
          len = dflt length0 (byteLengthUtf8 string)
      in if offset < 0 then (Inl PlainRangeError, this)
         else if offset > int (length this) then (Inl PlainRangeError, this)
         else if len < 0 then (Inl PlainRangeError, this)
         else (case utf8Write_loop string None
                      (min (int (length this) - offset) (min (byteLengthUtf8 string) len))
                      offset 0 this of
                 (written, this') \<Rightarrow> (Inr written, this')))"

text \<open>
  \<^verbatim>\<open>
  utf8Slice(start = 0, end = this.length) {
    if (start < 0 || start > this.length || end > this.length)
      throw new RangeError('Index out of range');
    if (end < start)
      end = start;
    let res = '';
    let i = start;
    while (i < end) {
      const first = this[i];
      let code = null;
      if (first <= 0xBF) {
        if (i + 1 <= end) {
          if (first < 0x80) {
            code = first;
            ++i;
          }
        }
      } else if (first <= 0xDF) {
        if (i + 2 <= end) {
          const second = this[i + 1];
          if ((second & 0xC0) === 0x80) {
            const tmp = (first & 0x1F) << 0x6 | (second & 0x3F);
            if (tmp > 0x7F) {
              code = tmp;
              i += 2;
            }
          }
        }
      } else if (first <= 0xEF) {
        if (i + 3 <= end) {
          const second = this[i + 1];
          const third = this[i + 2];
          if ((second & 0xC0) === 0x80 && (third & 0xC0) === 0x80) {
            const tmp = (first & 0xF) << 0xC | (second & 0x3F) << 0x6 | (third & 0x3F);
            if (tmp > 0x7FF && (tmp < 0xD800 || tmp > 0xDFFF)) {
              code = tmp;
              i += 3;
            }
          }
        }
      } else if (i + 4 <= end) {
        const second = this[i + 1];
        const third = this[i + 2];
        const fourth = this[i + 3];
        if ((second & 0xC0) === 0x80 && (third & 0xC0) === 0x80 && (fourth & 0xC0) === 0x80) {
          const tmp = (first & 0xF) << 0x12 | (second & 0x3F) << 0xC | (third & 0x3F) << 0x6 | (fourth & 0x3F);
          if (tmp > 0xFFFF && tmp < 0x110000) {
            code = tmp;
            i += 4;
          }
        }
      }
      if (code === null) {
        res += '\uFFFD';
        ++i;
        continue;
      }
      if (code > 0xFFFF) {
        code -= 0x10000;
        res += String.fromCharCode(0xd800 + (((code - 0x10000) >> 10) & 0x3ff));
        code = 0xdc00 + (code & 0x3ff);
      }
      res += String.fromCharCode(code);
    }
    return res;
  }\<close>
  \<open>utf8Slice_decode\<close> is the part of the loop body that sets \<^verbatim>\<open>code\<close>: it returns
  the code point and the number of bytes \<^verbatim>\<open>i\<close> advances by, or \<open>None\<close> where
  \<^verbatim>\<open>code\<close> stays \<^verbatim>\<open>null\<close>. An element \<^verbatim>\<open>first\<close> that is \<^verbatim>\<open>undefined\<close> fails
  every comparison and every test on the following bytes. \<open>utf8Slice_emit\<close> is the end
  of the body, from \<^verbatim>\<open>if (code > 0xFFFF)\<close> on.
\<close>

datatype utf8Width = W1 | W2 | W3 | W4

fun widthBytes :: "utf8Width \<Rightarrow> int" where
  "widthBytes W1 = 1"
| "widthBytes W2 = 2"
| "widthBytes W3 = 3"
| "widthBytes W4 = 4"

definition utf8Slice_decode :: "buffer \<Rightarrow> int \<Rightarrow> int \<Rightarrow> (int \<times> utf8Width) option" where
  "utf8Slice_decode this end i =
     (case bufGet this i of
        None \<Rightarrow> None
      | Some first \<Rightarrow>
          if first \<le> 0xBF
          then (if i + 1 \<le> end \<and> first < 0x80 then Some (first, W1) else None)
          else if first \<le> 0xDF
          then (if i + 2 \<le> end \<and> andNum (bufGet this (i + 1)) 0xC0 = 0x80
                then (let tmp = push_bit 6 (first AND 0x1F) OR andNum (bufGet this (i + 1)) 0x3F
                      in if tmp > 0x7F then Some (tmp, W2) else None)
                else None)
          else if first \<le> 0xEF
          then (if i + 3 \<le> end \<and> andNum (bufGet this (i + 1)) 0xC0 = 0x80 \<and>
                   andNum (bufGet this (i + 2)) 0xC0 = 0x80
                then (let tmp = push_bit 12 (first AND 0xF) OR
                                push_bit 6 (andNum (bufGet this (i + 1)) 0x3F) OR
                                andNum (bufGet this (i + 2)) 0x3F
                      in if tmp > 0x7FF \<and> (tmp < 0xD800 \<or> tmp > 0xDFFF) then Some (tmp, W3)
                         else None)
                else None)
          else (if i + 4 \<le> end \<and> andNum (bufGet this (i + 1)) 0xC0 = 0x80 \<and>
                   andNum (bufGet this (i + 2)) 0xC0 = 0x80 \<and>
                   andNum (bufGet this (i + 3)) 0xC0 = 0x80
                then (let tmp = push_bit 18 (first AND 0xF) OR
                                push_bit 12 (andNum (bufGet this (i + 1)) 0x3F) OR
                                push_bit 6 (andNum (bufGet this (i + 2)) 0x3F) OR
                                andNum (bufGet this (i + 3)) 0x3F
                      in if tmp > 0xFFFF \<and> tmp < 0x110000 then Some (tmp, W4) else None)
                else None))"

definition utf8Slice_emit :: "int \<Rightarrow> jsstring" where
  "utf8Slice_emit code =
     (if code > 0xFFFF
      then (let code1 = code - 0x10000
            in [fromCharCode (0xd800 + (drop_bit 10 (code1 - 0x10000) AND 0x3ff)),
                fromCharCode (0xdc00 + (code1 AND 0x3ff))])
      else [fromCharCode code])"

function utf8Slice_loop :: "buffer \<Rightarrow> int \<Rightarrow> int \<Rightarrow> jsstring \<Rightarrow> jsstring" where
  "utf8Slice_loop this end i res =
     (if i < end
      then (case utf8Slice_decode this end i of
              None \<Rightarrow> utf8Slice_loop this end (i + 1) (res @ [0xFFFD])
            | Some (code, w) \<Rightarrow> utf8Slice_loop this end (i + widthBytes w) (res @ utf8Slice_emit code))
      else res)"
  by pat_completeness auto
termination
proof (relation "measure (\<lambda>(this, end, i, res). nat (end - i))")
  fix this :: buffer and "end" i :: int and res :: jsstring and x2 :: "int \<times> utf8Width" and code w
  assume "i < end" "(code, w) = x2"
  have "0 < widthBytes w" by (cases w) simp_all
  then show "((this, end, i + widthBytes w, res @ utf8Slice_emit code), this, end, i, res)
      \<in> measure (\<lambda>(this, end, i, res). nat (end - i))"
    using \<open>i < end\<close> by simp
qed auto

definition utf8Slice :: "buffer \<Rightarrow> int option \<Rightarrow> int option \<Rightarrow> error + jsstring" where
  "utf8Slice this start0 end0 =
     (let start = dflt start0 0;
          end = dflt end0 (int (length this))
      in if start < 0 \<or> start > int (length this) \<or> end > int (length this)
         then Inl PlainRangeError
         else Inr (utf8Slice_loop this (if end < start then start else end) start []))"

text \<open>
  The bytes that \<^verbatim>\<open>utf8Write\<close> stores for one code point below \<open>0x10000\<close>, in the
  expressions of the source, and the same for a whole string with no surrogate in it.
\<close>

definition utf8Bytes :: "int \<Rightarrow> byte list" where
  "utf8Bytes code =
     (if code < 0x80 then [word_of_int code]
      else if code < 0x800
      then [word_of_int (drop_bit 6 code OR 0xC0), word_of_int (code AND 0x3F OR 0x80)]
      else [word_of_int (drop_bit 12 code OR 0xE0),
            word_of_int (drop_bit 6 code AND 0x3F OR 0x80),
            word_of_int (code AND 0x3F OR 0x80)])"

definition utf8BytesOf :: "jsstring \<Rightarrow> byte list" where
  "utf8BytesOf s = concat (map (\<lambda>c. utf8Bytes (uint c)) s)"

definition noSurrogate :: "jsstring \<Rightarrow> bool" where
  "noSurrogate s = (\<forall>c \<in> set s. \<not> (0xD800 \<le> c \<and> c \<le> 0xDFFF))"

text \<open>
  The specification side of claim C1: a string is well formed when every lead surrogate
  is followed by a trail surrogate and every trail surrogate follows a lead surrogate.
\<close>

fun wellFormed :: "jsstring \<Rightarrow> bool" where
  "wellFormed [] = True"
| "wellFormed [c] = (\<not> (0xD800 \<le> c \<and> c \<le> 0xDFFF))"
| "wellFormed (c # d # rest) =
     (if 0xD800 \<le> c \<and> c \<le> 0xDBFF then 0xDC00 \<le> d \<and> d \<le> 0xDFFF \<and> wellFormed rest
      else \<not> (0xDC00 \<le> c \<and> c \<le> 0xDFFF) \<and> wellFormed (d # rest))"

section \<open>Search\<close>

text \<open>
  The search functions are embedded at byte granularity (\<^verbatim>\<open>indexSize === 1\<close>, the
  needle a byte sequence): the \<^verbatim>\<open>encoding\<close> is absent or does not name UTF-16, and
  \<^verbatim>\<open>read(buf, i)\<close> is \<^verbatim>\<open>buf[i]\<close>. \<^verbatim>\<open>===\<close> on two element reads holds when both
  are the same number or both are \<^verbatim>\<open>undefined\<close>. \<open>dir\<close> is true for \<^verbatim>\<open>indexOf\<close>
  and false for \<^verbatim>\<open>lastIndexOf\<close>.

  First edition, lines 1278--1335:
  \<^verbatim>\<open>
  function arrayIndexOf(arr, val, byteOffset, encoding, dir) {
    let indexSize = 1;
    let arrLength = arr.length;
    let valLength = val.length;
    ...
    let i;
    if (dir) {
      let foundIndex = -1;
      for (i = byteOffset; i < arrLength; i++) {
        if (read(arr, i) === read(val, foundIndex === -1 ? 0 : i - foundIndex)) {
          if (foundIndex === -1)
            foundIndex = i;
          if (i - foundIndex + 1 === valLength)
            return foundIndex * indexSize;
        } else {
          if (foundIndex !== -1)
            i -= i - foundIndex;
          foundIndex = -1;
        }
      }
    } else {
      if (byteOffset + valLength > arrLength)
        byteOffset = arrLength - valLength;
      for (i = byteOffset; i >= 0; i--) {
        let found = true;
        for (let j = 0; j < valLength; j++) {
          if (read(arr, i + j) !== read(val, j)) {
            found = false;
            break;
          }
        }
        if (found)
          return i;
      }
    }
    return -1;
  }\<close>
\<close>

function arrayIndexOf_forward :: "buffer \<Rightarrow> buffer \<Rightarrow> int \<Rightarrow> int \<Rightarrow> int" where
  "arrayIndexOf_forward arr val i foundIndex =
     (if i < int (length arr)
      then (if bufGet arr i = bufGet val (if foundIndex = - 1 then 0 else i - foundIndex)
            then (let foundIndex' = (if foundIndex = - 1 then i else foundIndex)
                  in if i - foundIndex' + 1 = int (length val) then foundIndex'
                     else arrayIndexOf_forward arr val (i + 1) foundIndex')
            else arrayIndexOf_forward arr val
                   ((if foundIndex \<noteq> - 1 then i - (i - foundIndex) else i) + 1) (- 1))
      else - 1)"
  by pat_completeness auto
termination
  by (relation "(\<lambda>(arr, val, i, foundIndex).
                    nat (int (length arr) - (if foundIndex = - 1 then i else foundIndex)))
                <*mlex*> measure (\<lambda>(arr, val, i, foundIndex). nat (int (length arr) - i))")
     (auto simp: wf_mlex mlex_prod_def)

function arrayIndexOf_matches :: "buffer \<Rightarrow> buffer \<Rightarrow> int \<Rightarrow> int \<Rightarrow> bool" where
  "arrayIndexOf_matches arr val i j =
     (if j < int (length val)
      then (if bufGet arr (i + j) \<noteq> bufGet val j then False
            else arrayIndexOf_matches arr val i (j + 1))
      else True)"
  by pat_completeness auto
termination
  by (relation "measure (\<lambda>(arr, val, i, j). nat (int (length val) - j))") auto

function arrayIndexOf_backward :: "buffer \<Rightarrow> buffer \<Rightarrow> int \<Rightarrow> int" where
  "arrayIndexOf_backward arr val i =
     (if i \<ge> 0
      then (if arrayIndexOf_matches arr val i 0 then i
            else arrayIndexOf_backward arr val (i - 1))
      else - 1)"
  by pat_completeness auto
termination
  by (relation "measure (\<lambda>(arr, val, i). nat (i + 1))") auto

definition arrayIndexOf :: "buffer \<Rightarrow> buffer \<Rightarrow> int \<Rightarrow> bool \<Rightarrow> int" where
  "arrayIndexOf arr val byteOffset dir =
     (let arrLength = int (length arr);
          valLength = int (length val)
      in if dir then arrayIndexOf_forward arr val byteOffset (- 1)
         else arrayIndexOf_backward arr val
                (if byteOffset + valLength > arrLength then arrLength - valLength else byteOffset))"

text \<open>
  Second edition, lines 2756--2811:
  \<^verbatim>\<open>
  function indexOfBuffer(buffer, val, byteOffset, encoding, dir) {
    let indexSize = 1;
    let bufLen = buffer.length;
    let valLen = val.length;
    ...
    let i;
    if (dir) {
      let foundIndex = -1;
      for (i = byteOffset; i !== bufLen - valLen; ++i) {
        if (read(buffer, i) === read(val, 0)) {
          foundIndex = i;
          break;
        }
      }
      if (foundIndex >= 0) {
        for (let j = 1; j !== valLen; ++j) {
          if (read(buffer, i + j) !== read(val, j)) {
            foundIndex = -1;
            break;
          }
        }
        if (foundIndex >= 0)
          return foundIndex * indexSize;
      }
    } else {
      if (byteOffset + valLen > bufLen)
        byteOffset = bufLen - valLen;
      for (i = byteOffset; i !== 0; --i) {
        let found = true;
        for (let j = 0; j !== valLen; ++j) {
          if (read(buffer, i + j) !== read(val, j)) {
            found = false;
            break;
          }
        }
        if (found)
          return i * indexSize;
      }
    }
    return -1;
  }\<close>
  Every loop is guarded by \<^verbatim>\<open>!==\<close> and is a partial function. The first loop returns
  \<^verbatim>\<open>foundIndex\<close>; where it is not \<open>-1\<close> it is also the value of \<^verbatim>\<open>i\<close>.
\<close>

partial_function (option) indexOfBuffer_first :: "buffer \<Rightarrow> buffer \<Rightarrow> int \<Rightarrow> int \<Rightarrow> int option" where
  "indexOfBuffer_first buffer val stop i =
     (if i \<noteq> stop
      then (if bufGet buffer i = bufGet val 0 then Some i
            else indexOfBuffer_first buffer val stop (i + 1))
      else Some (- 1))"

declare indexOfBuffer_first.simps [code]

partial_function (option) indexOfBuffer_rest :: "buffer \<Rightarrow> buffer \<Rightarrow> int \<Rightarrow> int \<Rightarrow> int \<Rightarrow> int option" where
  "indexOfBuffer_rest buffer val i foundIndex j =
     (if j \<noteq> int (length val)
      then (if bufGet buffer (i + j) \<noteq> bufGet val j then Some (- 1)
            else indexOfBuffer_rest buffer val i foundIndex (j + 1))
      else Some foundIndex)"

declare indexOfBuffer_rest.simps [code]

partial_function (option) indexOfBuffer_matches :: "buffer \<Rightarrow> buffer \<Rightarrow> int \<Rightarrow> int \<Rightarrow> bool option" where
  "indexOfBuffer_matches buffer val i j =
     (if j \<noteq> int (length val)
      then (if bufGet buffer (i + j) \<noteq> bufGet val j then Some False
            else indexOfBuffer_matches buffer val i (j + 1))
      else Some True)"

declare indexOfBuffer_matches.simps [code]

partial_function (option) indexOfBuffer_backward :: "buffer \<Rightarrow> buffer \<Rightarrow> int \<Rightarrow> int option" where
  "indexOfBuffer_backward buffer val i =
     (if i \<noteq> 0
      then Option.bind (indexOfBuffer_matches buffer val i 0)
             (\<lambda>found. if found then Some i else indexOfBuffer_backward buffer val (i - 1))
      else Some (- 1))"

declare indexOfBuffer_backward.simps [code]

definition indexOfBuffer :: "buffer \<Rightarrow> buffer \<Rightarrow> int \<Rightarrow> bool \<Rightarrow> int option" where
  "indexOfBuffer buffer val byteOffset dir =
     (let bufLen = int (length buffer);
          valLen = int (length val)
      in if dir
         then Option.bind (indexOfBuffer_first buffer val (bufLen - valLen) byteOffset)
                (\<lambda>foundIndex.
                   if foundIndex \<ge> 0
                   then Option.bind (indexOfBuffer_rest buffer val foundIndex foundIndex 1)
                          (\<lambda>foundIndex. if foundIndex \<ge> 0 then Some foundIndex else Some (- 1))
                   else Some (- 1))
         else indexOfBuffer_backward buffer val
                (if byteOffset + valLen > bufLen then bufLen - valLen else byteOffset))"

text \<open>
  The specification side of claim C3: the needle occurs in the buffer at position \<open>p\<close>.
\<close>

definition occursAt :: "buffer \<Rightarrow> buffer \<Rightarrow> nat \<Rightarrow> bool" where
  "occursAt buffer val p = (p + length val \<le> length buffer \<and> take (length val) (drop p buffer) = val)"





section \<open>Facts about the element accessors\<close>

lemma length_bufSet [simp]: "length (bufSet b i v) = length b"
  by (simp add: bufSet_def)

lemma nth_bufSet:
  "j < length b \<Longrightarrow> bufSet b i v ! j = (if i = int j then word_of_int v else b ! j)"
  by (auto simp: bufSet_def)

section \<open>The ASCII codec: what is stored and what is read\<close>

declare asciiWrite1_loop.simps [simp del] asciiSlice1_loop.simps [simp del]

lemma asciiWrite1_loop_spec:
  "0 \<le> i \<Longrightarrow> i \<le> len \<Longrightarrow> len \<le> int (length string) \<Longrightarrow> 0 \<le> offset \<Longrightarrow>
   offset + (len - i) \<le> int (length this) \<Longrightarrow>
   \<exists>this'. asciiWrite1_loop string len i offset this = (len, this') \<and>
     length this' = length this \<and>
     (\<forall>k. 0 \<le> k \<and> k < len - i \<longrightarrow>
        this' ! nat (offset + k) = word_of_int (uint (string ! nat (i + k)) AND 0xFF)) \<and>
     (\<forall>j. j < length this \<and> (int j < offset \<or> offset + (len - i) \<le> int j) \<longrightarrow>
        this' ! j = this ! j)"
proof (induction string len i offset this rule: asciiWrite1_loop.induct)
  case (1 string len i offset this)
  show ?case
  proof (cases "i < len")
    case False
    with "1.prems" have "i = len" by simp
    then show ?thesis by (subst asciiWrite1_loop.simps) auto
  next
    case True
    let ?v = "andNum (charCodeAt string i) 0xFF"
    let ?b = "bufSet this offset ?v"
    have v: "?v = uint (string ! nat i) AND 0xFF"
      using True "1.prems" by (simp add: andNum_def charCodeAt_def)
    from "1.IH"[OF True] True "1.prems"
    obtain this' where
      r: "asciiWrite1_loop string len (i + 1) (offset + 1) ?b = (len, this')"
      and l: "length this' = length this"
      and w: "\<And>k. 0 \<le> k \<Longrightarrow> k < len - (i + 1) \<Longrightarrow>
                this' ! nat (offset + 1 + k) = word_of_int (uint (string ! nat (i + 1 + k)) AND 0xFF)"
      and f: "\<And>j. j < length this \<Longrightarrow> (int j < offset + 1 \<or> offset + 1 + (len - (i + 1)) \<le> int j) \<Longrightarrow>
                this' ! j = ?b ! j"
      by auto
    have eq: "asciiWrite1_loop string len i offset this = (len, this')"
      using True r by (subst asciiWrite1_loop.simps) simp
    have w': "this' ! nat (offset + k) = word_of_int (uint (string ! nat (i + k)) AND 0xFF)"
      if k: "0 \<le> k" "k < len - i" for k
    proof (cases "k = 0")
      case True
      have "nat offset < length this" using \<open>i < len\<close> "1.prems" by linarith
      then have "this' ! nat offset = ?b ! nat offset" using f[of "nat offset"] "1.prems" by simp
      also have "\<dots> = word_of_int ?v"
        using \<open>nat offset < length this\<close> "1.prems" by (simp add: nth_bufSet)
      finally show ?thesis using True v by simp
    next
      case False
      then have "0 \<le> k - 1" "k - 1 < len - (i + 1)" using k by auto
      from w[OF this] show ?thesis by (simp add: algebra_simps)
    qed
    have f': "this' ! j = this ! j"
      if j: "j < length this" "int j < offset \<or> offset + (len - i) \<le> int j" for j
    proof -
      have "this' ! j = ?b ! j" using f[of j] j by auto
      also have "\<dots> = this ! j" using j True by (auto simp: nth_bufSet)
      finally show ?thesis .
    qed
    show ?thesis using eq l w' f' by auto
  qed
qed

lemma asciiWrite2_loop_eq:
  "i \<le> len \<Longrightarrow>
   asciiWrite2_loop string len i offset this = Some (snd (asciiWrite1_loop string len i offset this))"
proof (induction string len i offset this rule: asciiWrite1_loop.induct)
  case (1 string len i offset this)
  show ?case
  proof (cases "i < len")
    case True
    with 1 show ?thesis
      by (subst asciiWrite2_loop.simps, subst asciiWrite1_loop.simps) simp
  next
    case False
    with 1 show ?thesis
      by (subst asciiWrite2_loop.simps, subst asciiWrite1_loop.simps) simp
  qed
qed

lemma asciiSlice1_loop_closed:
  "0 \<le> i \<Longrightarrow> i \<le> end \<Longrightarrow> end \<le> int (length this) \<Longrightarrow>
   asciiSlice1_loop this end i ret =
     ret @ map (\<lambda>b. word_of_int (uint b AND 0x7F)) (take (nat (end - i)) (drop (nat i) this))"
proof (induction this "end" i ret rule: asciiSlice1_loop.induct)
  case (1 this "end" i ret)
  show ?case
  proof (cases "i < end")
    case False
    with "1.prems" show ?thesis by (subst asciiSlice1_loop.simps) simp
  next
    case True
    have n: "nat (end - i) = Suc (nat (end - (i + 1)))" using True by simp
    have s: "nat (i + 1) = Suc (nat i)" using "1.prems" by simp
    have d: "drop (nat i) this = this ! nat i # drop (nat (i + 1)) this"
      using True "1.prems" by (simp add: Cons_nth_drop_Suc s)
    have g: "bufGet this i = Some (uint (this ! nat i))"
      using True "1.prems" by (simp add: bufGet_def)
    have "asciiSlice1_loop this end i ret =
            asciiSlice1_loop this end (i + 1) (ret @ [fromCharCode (andNum (bufGet this i) 0x7F)])"
      using True by (subst asciiSlice1_loop.simps) simp
    also have "\<dots> = (ret @ [fromCharCode (andNum (bufGet this i) 0x7F)]) @
        map (\<lambda>b. word_of_int (uint b AND 0x7F)) (take (nat (end - (i + 1))) (drop (nat (i + 1)) this))"
      using "1.IH"[OF True] True "1.prems" by simp
    also have "\<dots> = ret @ map (\<lambda>b. word_of_int (uint b AND 0x7F)) (take (nat (end - i)) (drop (nat i) this))"
      by (simp only: n d g) (simp add: andNum_def fromCharCode_def)
    finally show ?thesis .
  qed
qed

lemma asciiSlice2_loop_eq:
  "i \<le> end \<Longrightarrow> asciiSlice2_loop this end i ret = Some (asciiSlice1_loop this end i ret)"
proof (induction this "end" i ret rule: asciiSlice1_loop.induct)
  case (1 this "end" i ret)
  then show ?case
    by (subst asciiSlice2_loop.simps, subst asciiSlice1_loop.simps) simp
qed

text \<open>
  Claim C9, as the code has it. With an offset inside the buffer and a length that is not
  negative, \<^verbatim>\<open>asciiWrite\<close> (both editions) returns the number \<open>n\<close> of bytes written,
  the minimum of the room left, the string's length and the length asked for, keeps the
  buffer's length, and stores at each written position \<open>offset + k\<close> the low 8 bits of
  the code unit, \<^verbatim>\<open>string.charCodeAt(k) & 0xFF\<close>. With \<open>0 \<le> start \<le> end \<le> length\<close>,
  \<^verbatim>\<open>asciiSlice\<close> (both editions) returns \<open>end - start\<close> characters, the one for each
  byte \<open>b\<close> of the range having the code \<^verbatim>\<open>b & 0x7F\<close>.
\<close>

theorem ascii_codec_masks:
  "(0 \<le> dflt offset0 0 \<and> dflt offset0 0 \<le> int (length this) \<and>
    0 \<le> dflt length0 (int (length string)) \<longrightarrow>
      (\<exists>this'. asciiWrite1 this string offset0 length0 =
               (Inr (min (int (length this) - dflt offset0 0)
                       (min (int (length string)) (dflt length0 (int (length string))))), this') \<and>
             asciiWrite2 this string offset0 length0 =
               Some (Inr (min (int (length this) - dflt offset0 0)
                       (min (int (length string)) (dflt length0 (int (length string))))), this') \<and>
             length this' = length this \<and>
             (\<forall>k. 0 \<le> k \<and> k < min (int (length this) - dflt offset0 0)
                       (min (int (length string)) (dflt length0 (int (length string)))) \<longrightarrow>
                this' ! nat (dflt offset0 0 + k) = word_of_int (uint (string ! nat k) AND 0xFF)))) \<and>
   (0 \<le> dflt start0 0 \<and> dflt start0 0 \<le> dflt end0 (int (length buf)) \<and>
    dflt end0 (int (length buf)) \<le> int (length buf) \<longrightarrow>
      (\<exists>res. asciiSlice1 buf start0 end0 = Inr res \<and>
             asciiSlice2 buf start0 end0 = Some (Inr res) \<and>
             int (length res) = dflt end0 (int (length buf)) - dflt start0 0 \<and>
             (\<forall>k. 0 \<le> k \<and> k < dflt end0 (int (length buf)) - dflt start0 0 \<longrightarrow>
                res ! nat k = word_of_int (uint (buf ! nat (dflt start0 0 + k)) AND 0x7F))))"
proof (intro conjI impI)
  let ?offset = "dflt offset0 0"
  let ?len = "dflt length0 (int (length string))"
  let ?n = "min (int (length this) - ?offset) (min (int (length string)) ?len)"
  assume a: "0 \<le> ?offset \<and> ?offset \<le> int (length this) \<and> 0 \<le> ?len"
  define n where "n = ?n"
  have n0: "0 \<le> n" "n \<le> int (length string)" "?offset + (n - 0) \<le> int (length this)"
    using a by (simp_all add: n_def)
  have "\<exists>this'. asciiWrite1_loop string n 0 ?offset this = (n, this') \<and>
     length this' = length this \<and>
     (\<forall>k. 0 \<le> k \<and> k < n - 0 \<longrightarrow>
        this' ! nat (?offset + k) = word_of_int (uint (string ! nat (0 + k)) AND 0xFF)) \<and>
     (\<forall>j. j < length this \<and> (int j < ?offset \<or> ?offset + (n - 0) \<le> int j) \<longrightarrow>
        this' ! j = this ! j)"
    using n0 a by (intro asciiWrite1_loop_spec) simp_all
  then obtain this' where
    r: "asciiWrite1_loop string n 0 ?offset this = (n, this')"
    and l: "length this' = length this"
    and w: "\<forall>k. 0 \<le> k \<and> k < n \<longrightarrow>
              this' ! nat (?offset + k) = word_of_int (uint (string ! nat k) AND 0xFF)"
    by auto
  have e1: "asciiWrite1 this string offset0 length0 = (Inr ?n, this')"
    using a r by (simp add: asciiWrite1_def Let_def n_def)
  have e2: "asciiWrite2 this string offset0 length0 = Some (Inr ?n, this')"
    using a r n0 by (simp add: asciiWrite2_def Let_def asciiWrite2_loop_eq n_def)
  show "\<exists>this'. asciiWrite1 this string offset0 length0 = (Inr ?n, this') \<and>
             asciiWrite2 this string offset0 length0 = Some (Inr ?n, this') \<and>
             length this' = length this \<and>
             (\<forall>k. 0 \<le> k \<and> k < ?n \<longrightarrow>
                this' ! nat (?offset + k) = word_of_int (uint (string ! nat k) AND 0xFF))"
    using e1 e2 l w unfolding n_def by blast
next
  let ?start = "dflt start0 0"
  let ?end = "dflt end0 (int (length buf))"
  let ?res = "map (\<lambda>b. word_of_int (uint b AND 0x7F) :: 16 word) (take (nat (?end - ?start)) (drop (nat ?start) buf))"
  assume a: "0 \<le> ?start \<and> ?start \<le> ?end \<and> ?end \<le> int (length buf)"
  then have c: "asciiSlice1_loop buf ?end ?start [] = ?res"
    by (simp add: asciiSlice1_loop_closed)
  have e1: "asciiSlice1 buf start0 end0 = Inr ?res"
    using a c by (simp add: asciiSlice1_def Let_def)
  have e2: "asciiSlice2 buf start0 end0 = Some (Inr ?res)"
    using a c by (simp add: asciiSlice2_def Let_def asciiSlice2_loop_eq)
  have l: "int (length ?res) = ?end - ?start" using a by auto
  have n: "?res ! nat k = word_of_int (uint (buf ! nat (?start + k)) AND 0x7F)"
    if "0 \<le> k" "k < ?end - ?start" for k
  proof -
    have "nat k < nat (?end - ?start)" "nat ?start + nat k < length buf"
      using that a by linarith+
    then show ?thesis using that a by (simp add: nat_add_distrib)
  qed
  show "\<exists>res. asciiSlice1 buf start0 end0 = Inr res \<and>
             asciiSlice2 buf start0 end0 = Some (Inr res) \<and>
             int (length res) = ?end - ?start \<and>
             (\<forall>k. 0 \<le> k \<and> k < ?end - ?start \<longrightarrow>
                res ! nat k = word_of_int (uint (buf ! nat (?start + k)) AND 0x7F))"
    using e1 e2 l n by blast
qed

text \<open>
  Claim C9 as stated says that \<^verbatim>\<open>asciiWrite\<close> stores \<^verbatim>\<open>charCodeAt(i) & 0x7F\<close>.
  Writing the one-character string U+00E9 into a one-byte buffer stores the byte
  \<open>0xE9\<close> in both editions, where the mask \<open>0x7F\<close> would give \<open>0x69\<close>.
\<close>

theorem asciiWrite_mask_counterexample:
  "asciiWrite1 [0] [0xE9] None None = (Inr 1, [0xE9]) \<and>
   asciiWrite2 [0] [0xE9] None None = Some (Inr 1, [0xE9]) \<and>
   (0xE9 :: byte) \<noteq> word_of_int (uint (0xE9 :: 16 word) AND 0x7F)"
  by (simp add: asciiWrite1_def asciiWrite2_def dflt_def asciiWrite1_loop.simps
        asciiWrite2_loop.simps bufSet_def andNum_def charCodeAt_def)

text \<open>
  The theorem of claim C9 at concrete inputs: the code unit \<open>0x141\<close> written at offset 1
  is stored as \<open>0x41\<close>, and the bytes \<open>0xE9, 0x41\<close> read back as the characters
  \<open>0x69, 0x41\<close>.
\<close>

theorem ascii_codec_masks_witness:
  "asciiWrite1 [0, 0] [0x141] (Some 1) None = (Inr 1, [0, 0x41]) \<and>
   asciiWrite2 [0, 0] [0x141] (Some 1) None = Some (Inr 1, [0, 0x41]) \<and>
   asciiSlice1 [0xE9, 0x41] None None = Inr [0x69, 0x41] \<and>
   asciiSlice2 [0xE9, 0x41] None None = Some (Inr [0x69, 0x41])"
proof -
  have "asciiWrite1 [0, 0] [0x141] (Some 1) None = (Inr 1, [0, 0x41])"
    by (simp add: asciiWrite1_def dflt_def asciiWrite1_loop.simps bufSet_def andNum_def charCodeAt_def)
  with ascii_codec_masks[of "Some 1" "[0, 0]" None "[0x141]" None None "[0xE9, 0x41]"]
  show ?thesis
    by (simp add: dflt_def asciiSlice1_def asciiSlice1_loop.simps bufGet_def andNum_def fromCharCode_def)
qed

section \<open>Byte-order swaps\<close>

declare swap16_loop.simps [simp del] swap32_loop.simps [simp del] swap64_loop.simps [simp del]

lemma length_swap [simp]: "length (swap b n m) = length b"
  by (simp add: swap_def bufSetU_def Let_def)

lemma nth_swap:
  "0 \<le> n \<Longrightarrow> nat n < length b \<Longrightarrow> 0 \<le> m \<Longrightarrow> nat m < length b \<Longrightarrow> j < length b \<Longrightarrow>
   swap b n m ! j = (if j = nat m then b ! nat n else if j = nat n then b ! nat m else b ! j)"
  by (auto simp: swap_def bufSetU_def bufSet_def bufGet_def Let_def nth_list_update)

lemma groupRev_in:
  assumes "0 < w" "k mod w = 0" "k \<le> j" "j < k + w"
  shows "groupRev w j = 2 * k + w - 1 - j"
proof -
  obtain q where q: "k = w * q" using assms(2) by (auto simp: dvd_eq_mod_eq_0 [symmetric])
  define t where "t = j - k"
  have t: "t < w" "j = w * q + t" using assms q by (auto simp: t_def)
  have "j div w = q" using t assms(1) by simp
  moreover have "j mod w = t" using t assms(1) by simp
  ultimately have "groupRev w j = w * q + (w - 1 - t)" by (simp add: groupRev_def)
  then show ?thesis using t q by (simp add: mult.commute)
qed

lemma groupRev_out:
  assumes "0 < w" "k mod w = 0" "k + w \<le> j"
  shows "k + w \<le> groupRev w j"
proof -
  obtain q where q: "k = w * q" using assms(2) by (auto simp: dvd_eq_mod_eq_0 [symmetric])
  have "(k + w) div w \<le> j div w" using assms(3) by (rule div_le_mono)
  moreover have "(k + w) div w = q + 1" using q assms(1) by simp
  ultimately have "q + 1 \<le> j div w" by simp
  then have "w * (q + 1) \<le> w * (j div w)" by (rule mult_le_mono2)
  then show ?thesis using q by (simp add: groupRev_def)
qed

lemma groupRev_less:
  assumes "0 < w" "n mod w = 0" "j < n"
  shows "groupRev w j < n"
proof -
  obtain m where m: "n = w * m" using assms(2) by (auto simp: dvd_eq_mod_eq_0 [symmetric])
  have "j div w < m" using assms(3) m assms(1)
    by (simp add: less_mult_imp_div_less mult.commute)
  then have "j div w + 1 \<le> m" by simp
  then have "w * (j div w + 1) \<le> w * m" by (rule mult_le_mono2)
  moreover have "groupRev w j < w * (j div w + 1)" using assms(1) by (simp add: groupRev_def)
  ultimately show ?thesis using m by simp
qed

text \<open>
  One round of a swap loop: when the body reverses the group at \<open>k\<close> and the remaining
  rounds reverse every later group, the whole loop reverses every group from \<open>k\<close> on.
\<close>

lemma group_step:
  assumes w: "0 < w" and k: "k mod w = 0" and n: "length this mod w = 0"
    and b: "\<And>j. j < length this \<Longrightarrow>
              b ! j = (if k \<le> j \<and> j < k + w then this ! (2 * k + w - 1 - j) else this ! j)"
    and ih: "\<And>j. j < length this \<Longrightarrow> L ! j = (if k + w \<le> j then b ! groupRev w j else b ! j)"
    and j: "j < length this"
  shows "L ! j = (if k \<le> j then this ! groupRev w j else this ! j)"
proof -
  consider "j < k" | "k \<le> j" "j < k + w" | "k + w \<le> j" by linarith
  then show ?thesis
  proof cases
    case 1
    then show ?thesis using ih[OF j] b[OF j] by simp
  next
    case 2
    then show ?thesis using ih[OF j] b[OF j] groupRev_in[OF w k 2] by simp
  next
    case 3
    have "groupRev w j < length this" using w n j by (rule groupRev_less)
    moreover have "k + w \<le> groupRev w j" using w k 3 by (rule groupRev_out)
    ultimately show ?thesis using 3 ih[OF j] b[of "groupRev w j"] by simp
  qed
qed

lemma less_length_group:
  assumes "(k::nat) mod w = 0" "n mod w = 0" "k < n"
  shows "k + w \<le> n"
proof -
  obtain q where q: "k = w * q" using assms(1) by (auto simp: dvd_eq_mod_eq_0 [symmetric])
  obtain m where m: "n = w * m" using assms(2) by (auto simp: dvd_eq_mod_eq_0 [symmetric])
  have "q < m" using assms(3) q m by simp
  then have "q + 1 \<le> m" by simp
  then have "w * (q + 1) \<le> w * m" by (rule mult_le_mono2)
  then show ?thesis using q m by simp
qed

lemma swap16_loop_spec:
  "k mod 2 = 0 \<Longrightarrow> len = int (length this) \<Longrightarrow> length this mod 2 = 0 \<Longrightarrow>
   length (swap16_loop len (int k) this) = length this \<and>
   (\<forall>j<length this. swap16_loop len (int k) this ! j =
      (if k \<le> j then this ! groupRev 2 j else this ! j))"
proof (induction len "int k" this arbitrary: k rule: swap16_loop.induct)
  case (1 len this)
  show ?case
  proof (cases "int k < len")
    case False
    then show ?thesis using "1.prems" by (subst (1 2) swap16_loop.simps) auto
  next
    case True
    define b where "b = swap this (int k) (int k + 1)"
    have kw: "k + 2 \<le> length this"
      using True "1.prems" by (intro less_length_group) auto
    have u: "swap16_loop len (int k) this = swap16_loop len (int (k + 2)) b"
      using True by (subst swap16_loop.simps) (simp add: add.commute b_def)
    have lb: "length b = length this" by (simp add: b_def)
    have e: "int k + 2 = int (k + 2)" by simp
    have "length (swap16_loop len (int (k + 2)) (swap this (int k) (int k + 1))) = length (swap this (int k) (int k + 1)) \<and>
       (\<forall>j<length (swap this (int k) (int k + 1)). swap16_loop len (int (k + 2)) (swap this (int k) (int k + 1)) ! j =
          (if k + 2 \<le> j then (swap this (int k) (int k + 1)) ! groupRev 2 j else (swap this (int k) (int k + 1)) ! j))"
      using "1.prems" by (intro "1.hyps"[OF True e]) simp_all
    then have ih: "length (swap16_loop len (int (k + 2)) b) = length b \<and>
       (\<forall>j<length b. swap16_loop len (int (k + 2)) b ! j =
          (if k + 2 \<le> j then b ! groupRev 2 j else b ! j))"
      unfolding b_def .
    have b: "b ! j = (if k \<le> j \<and> j < k + 2 then this ! (2 * k + 2 - 1 - j) else this ! j)"
      if "j < length this" for j
    proof -
      consider "j < k" | "j = k" | "j = k + 1" | "k + 2 \<le> j"
        by linarith
      then show ?thesis using that kw by cases (simp_all add: b_def nth_swap nat_add_distrib)
    qed
    have "swap16_loop len (int k) this ! j = (if k \<le> j then this ! groupRev 2 j else this ! j)"
      if j: "j < length this" for j
      unfolding u using _ "1.prems"(1,3) b _ j
      by (rule group_step) (use ih lb in auto)
    then show ?thesis using ih lb by (simp add: u)
  qed
qed

lemma swap32_loop_spec:
  "k mod 4 = 0 \<Longrightarrow> len = int (length this) \<Longrightarrow> length this mod 4 = 0 \<Longrightarrow>
   length (swap32_loop len (int k) this) = length this \<and>
   (\<forall>j<length this. swap32_loop len (int k) this ! j =
      (if k \<le> j then this ! groupRev 4 j else this ! j))"
proof (induction len "int k" this arbitrary: k rule: swap32_loop.induct)
  case (1 len this)
  show ?case
  proof (cases "int k < len")
    case False
    then show ?thesis using "1.prems" by (subst (1 2) swap32_loop.simps) auto
  next
    case True
    define b where "b = swap (swap this (int k) (int k + 3)) (int k + 1) (int k + 2)"
    have kw: "k + 4 \<le> length this"
      using True "1.prems" by (intro less_length_group) auto
    have u: "swap32_loop len (int k) this = swap32_loop len (int (k + 4)) b"
      using True by (subst swap32_loop.simps) (simp add: add.commute b_def)
    have lb: "length b = length this" by (simp add: b_def)
    have e: "int k + 4 = int (k + 4)" by simp
    have "length (swap32_loop len (int (k + 4)) (swap (swap this (int k) (int k + 3)) (int k + 1) (int k + 2))) = length (swap (swap this (int k) (int k + 3)) (int k + 1) (int k + 2)) \<and>
       (\<forall>j<length (swap (swap this (int k) (int k + 3)) (int k + 1) (int k + 2)). swap32_loop len (int (k + 4)) (swap (swap this (int k) (int k + 3)) (int k + 1) (int k + 2)) ! j =
          (if k + 4 \<le> j then (swap (swap this (int k) (int k + 3)) (int k + 1) (int k + 2)) ! groupRev 4 j else (swap (swap this (int k) (int k + 3)) (int k + 1) (int k + 2)) ! j))"
      using "1.prems" by (intro "1.hyps"[OF True e]) simp_all
    then have ih: "length (swap32_loop len (int (k + 4)) b) = length b \<and>
       (\<forall>j<length b. swap32_loop len (int (k + 4)) b ! j =
          (if k + 4 \<le> j then b ! groupRev 4 j else b ! j))"
      unfolding b_def .
    have b: "b ! j = (if k \<le> j \<and> j < k + 4 then this ! (2 * k + 4 - 1 - j) else this ! j)"
      if "j < length this" for j
    proof -
      consider "j < k" | "j = k" | "j = k + 1" | "j = k + 2" | "j = k + 3" | "k + 4 \<le> j"
        by linarith
      then show ?thesis using that kw by cases (simp_all add: b_def nth_swap nat_add_distrib)
    qed
    have "swap32_loop len (int k) this ! j = (if k \<le> j then this ! groupRev 4 j else this ! j)"
      if j: "j < length this" for j
      unfolding u using _ "1.prems"(1,3) b _ j
      by (rule group_step) (use ih lb in auto)
    then show ?thesis using ih lb by (simp add: u)
  qed
qed

lemma swap64_loop_spec:
  "k mod 8 = 0 \<Longrightarrow> len = int (length this) \<Longrightarrow> length this mod 8 = 0 \<Longrightarrow>
   length (swap64_loop len (int k) this) = length this \<and>
   (\<forall>j<length this. swap64_loop len (int k) this ! j =
      (if k \<le> j then this ! groupRev 8 j else this ! j))"
proof (induction len "int k" this arbitrary: k rule: swap64_loop.induct)
  case (1 len this)
  show ?case
  proof (cases "int k < len")
    case False
    then show ?thesis using "1.prems" by (subst (1 2) swap64_loop.simps) auto
  next
    case True
    define b where "b = swap (swap (swap (swap this (int k) (int k + 7)) (int k + 1) (int k + 6)) (int k + 2) (int k + 5)) (int k + 3) (int k + 4)"
    have kw: "k + 8 \<le> length this"
      using True "1.prems" by (intro less_length_group) auto
    have u: "swap64_loop len (int k) this = swap64_loop len (int (k + 8)) b"
      using True by (subst swap64_loop.simps) (simp add: add.commute b_def)
    have lb: "length b = length this" by (simp add: b_def)
    have e: "int k + 8 = int (k + 8)" by simp
    have "length (swap64_loop len (int (k + 8)) (swap (swap (swap (swap this (int k) (int k + 7)) (int k + 1) (int k + 6)) (int k + 2) (int k + 5)) (int k + 3) (int k + 4))) = length (swap (swap (swap (swap this (int k) (int k + 7)) (int k + 1) (int k + 6)) (int k + 2) (int k + 5)) (int k + 3) (int k + 4)) \<and>
       (\<forall>j<length (swap (swap (swap (swap this (int k) (int k + 7)) (int k + 1) (int k + 6)) (int k + 2) (int k + 5)) (int k + 3) (int k + 4)). swap64_loop len (int (k + 8)) (swap (swap (swap (swap this (int k) (int k + 7)) (int k + 1) (int k + 6)) (int k + 2) (int k + 5)) (int k + 3) (int k + 4)) ! j =
          (if k + 8 \<le> j then (swap (swap (swap (swap this (int k) (int k + 7)) (int k + 1) (int k + 6)) (int k + 2) (int k + 5)) (int k + 3) (int k + 4)) ! groupRev 8 j else (swap (swap (swap (swap this (int k) (int k + 7)) (int k + 1) (int k + 6)) (int k + 2) (int k + 5)) (int k + 3) (int k + 4)) ! j))"
      using "1.prems" by (intro "1.hyps"[OF True e]) simp_all
    then have ih: "length (swap64_loop len (int (k + 8)) b) = length b \<and>
       (\<forall>j<length b. swap64_loop len (int (k + 8)) b ! j =
          (if k + 8 \<le> j then b ! groupRev 8 j else b ! j))"
      unfolding b_def .
    have b: "b ! j = (if k \<le> j \<and> j < k + 8 then this ! (2 * k + 8 - 1 - j) else this ! j)"
      if "j < length this" for j
    proof -
      consider "j < k" | "j = k" | "j = k + 1" | "j = k + 2" | "j = k + 3" | "j = k + 4" | "j = k + 5" | "j = k + 6" | "j = k + 7" | "k + 8 \<le> j"
        by linarith
      then show ?thesis using that kw by cases (simp_all add: b_def nth_swap nat_add_distrib)
    qed
    have "swap64_loop len (int k) this ! j = (if k \<le> j then this ! groupRev 8 j else this ! j)"
      if j: "j < length this" for j
      unfolding u using _ "1.prems"(1,3) b _ j
      by (rule group_step) (use ih lb in auto)
    then show ?thesis using ih lb by (simp add: u)
  qed
qed

lemma jsRem_nat: "jsRem (int n) (int w) = int (n mod w)"
  by (cases "n = 0") (simp_all add: jsRem_def zmod_int)

text \<open>
  The second edition does what claim C8 says: on a length that is a multiple of the group
  size the swap returns the buffer with every group reversed, on any other length it
  throws \<^verbatim>\<open>ERR_INVALID_BUFFER_SIZE\<close> and the buffer is as it was.
\<close>

lemma swap_second_edition_reverses_groups:
  "(length this mod 2 = 0 \<longrightarrow>
      (\<exists>this'. swap16_2 this = (Inr (), this') \<and> length this' = length this \<and>
         (\<forall>j<length this. this' ! j = this ! groupRev 2 j))) \<and>
   (length this mod 2 \<noteq> 0 \<longrightarrow> swap16_2 this = (Inl ERR_INVALID_BUFFER_SIZE, this)) \<and>
   (length this mod 4 = 0 \<longrightarrow>
      (\<exists>this'. swap32_2 this = (Inr (), this') \<and> length this' = length this \<and>
         (\<forall>j<length this. this' ! j = this ! groupRev 4 j))) \<and>
   (length this mod 4 \<noteq> 0 \<longrightarrow> swap32_2 this = (Inl ERR_INVALID_BUFFER_SIZE, this)) \<and>
   (length this mod 8 = 0 \<longrightarrow>
      (\<exists>this'. swap64_2 this = (Inr (), this') \<and> length this' = length this \<and>
         (\<forall>j<length this. this' ! j = this ! groupRev 8 j))) \<and>
   (length this mod 8 \<noteq> 0 \<longrightarrow> swap64_2 this = (Inl ERR_INVALID_BUFFER_SIZE, this))"
proof -
  have r2: "jsRem (int (length this)) 2 = int (length this mod 2)"
    using jsRem_nat[of "length this" 2] by simp
  have r4: "jsRem (int (length this)) 4 = int (length this mod 4)"
    using jsRem_nat[of "length this" 4] by simp
  have r8: "jsRem (int (length this)) 8 = int (length this mod 8)"
    using jsRem_nat[of "length this" 8] by simp
  have s2: "length this mod 2 = 0 \<Longrightarrow> length (swap16_loop (int (length this)) 0 this) = length this \<and>
      (\<forall>j<length this. swap16_loop (int (length this)) 0 this ! j = this ! groupRev 2 j)"
    using swap16_loop_spec[of 0 "int (length this)" this] by simp
  have s4: "length this mod 4 = 0 \<Longrightarrow> length (swap32_loop (int (length this)) 0 this) = length this \<and>
      (\<forall>j<length this. swap32_loop (int (length this)) 0 this ! j = this ! groupRev 4 j)"
    using swap32_loop_spec[of 0 "int (length this)" this] by simp
  have s8: "length this mod 8 = 0 \<Longrightarrow> length (swap64_loop (int (length this)) 0 this) = length this \<and>
      (\<forall>j<length this. swap64_loop (int (length this)) 0 this ! j = this ! groupRev 8 j)"
    using swap64_loop_spec[of 0 "int (length this)" this] by simp
  show ?thesis
    using s2 s4 s8 by (simp add: swap16_2_def swap32_2_def swap64_2_def Let_def r2 r4 r8)
qed

text \<open>
  The first edition never gets that far: with no binding for \<^verbatim>\<open>len\<close>, each of its
  three swaps throws a \<^verbatim>\<open>ReferenceError\<close> on every buffer.
\<close>

lemma swap_first_edition_unbound_len:
  "swap16_1 None this = (Inl ReferenceError, this) \<and>
   swap32_1 None this = (Inl ReferenceError, this) \<and>
   swap64_1 None this = (Inl ReferenceError, this)"
  by (simp add: swap16_1_def swap32_1_def swap64_1_def)

text \<open>
  Claim C8 at the two-byte buffer \<open>01 02\<close>, whose length is a multiple of 2: the claim
  says \<^verbatim>\<open>swap16\<close> reverses the pair and returns the buffer. The first edition's
  \<^verbatim>\<open>swap16\<close> throws a \<^verbatim>\<open>ReferenceError\<close> and leaves \<open>01 02\<close>; the second
  edition's returns \<open>02 01\<close>.
\<close>

theorem swap16_first_edition_throws:
  "swap16_1 None [0x01, 0x02] = (Inl ReferenceError, [0x01, 0x02]) \<and>
   swap16_2 [0x01, 0x02] = (Inr (), [0x02, 0x01])"
  by (simp add: swap16_1_def swap16_2_def jsRem_def swap16_loop.simps swap_def bufSetU_def
        bufSet_def bufGet_def Let_def)

section \<open>Comparison\<close>

declare priv_compare1_loop.simps [simp del]

lemma bufGet_nth: "i < length b \<Longrightarrow> bufGet b (int i) = Some (uint (b ! i))"
  by (simp add: bufGet_def)

lemma priv_compare2_loop_lex:
  "i \<le> length source \<Longrightarrow> i \<le> length target \<Longrightarrow>
   len = int (min (length source) (length target)) \<Longrightarrow>
   priv_compare2_loop source target len (int i) = Some (lexCompare (drop i source) (drop i target))"
proof (induction "min (length source) (length target) - i" arbitrary: i)
  case 0
  then have i: "i = min (length source) (length target)" by simp
  have "lexCompare (drop i source) (drop i target) =
          normalizeCompareVal 0 (int (length source)) (int (length target))"
  proof (cases "length source \<le> length target")
    case True
    then have "drop i source = []" using i by simp
    moreover have "length source < length target \<Longrightarrow> \<exists>y ys. drop i target = y # ys"
      using i True by (cases "drop i target") auto
    moreover have "length source = length target \<Longrightarrow> drop i target = []" using i by simp
    ultimately show ?thesis using True by (auto simp: normalizeCompareVal_def)
  next
    case False
    then have "drop i target = []" using i by simp
    moreover have "\<exists>x xs. drop i source = x # xs"
      using i False by (cases "drop i source") auto
    ultimately show ?thesis using False by (auto simp: normalizeCompareVal_def)
  qed
  then show ?case using i 0 by (subst priv_compare2_loop.simps) simp
next
  case (Suc n)
  then have i: "i < length source" "i < length target" by auto
  have ds: "drop i source = source ! i # drop (Suc i) source"
    and dt: "drop i target = target ! i # drop (Suc i) target"
    using i by (simp_all add: Cons_nth_drop_Suc)
  have ih: "priv_compare2_loop source target len (int (Suc i)) =
              Some (lexCompare (drop (Suc i) source) (drop (Suc i) target))"
    using Suc.prems Suc.hyps(2) i by (intro Suc.hyps(1)) auto
  have ne: "int i \<noteq> len" using i Suc.prems by simp
  have s: "int i + 1 = int (Suc i)" by simp
  show ?case
    using ne ih i
    by (subst priv_compare2_loop.simps)
       (auto simp: Let_def bufGet_nth numLess_def ds dt s word_less_def)
qed

text \<open>
  The second edition's \<^verbatim>\<open>_compare\<close> always returns, and returns the lexicographic
  result of claim C4.
\<close>

lemma priv_compare2_lex: "priv_compare2 source target = Some (lexCompare source target)"
proof (cases "min (length source) (length target) = 0")
  case True
  then have "length source = 0 \<or> length target = 0" by (simp add: min_def split: if_splits)
  then have "source = [] \<or> target = []" by simp
  then show ?thesis
    by (cases source; cases target) (auto simp: priv_compare2_def Let_def normalizeCompareVal_def)
next
  case False
  have m: "min (int (length source)) (int (length target)) = int (min (length source) (length target))"
    by (simp add: min_def)
  show ?thesis
    using False priv_compare2_loop_lex[of 0 source target]
    unfolding priv_compare2_def Let_def m by simp
qed

lemma priv_compare1_loop_lex:
  "length buf1 = length buf2 \<Longrightarrow> i \<le> length buf1 \<Longrightarrow>
   priv_compare1_loop buf1 buf2 (int i) = lexCompare (drop i buf1) (drop i buf2)"
proof (induction "length buf1 - i" arbitrary: i)
  case 0
  then show ?case by (subst priv_compare1_loop.simps) simp
next
  case (Suc n)
  then have i: "i < length buf1" "i < length buf2" by auto
  have ds: "drop i buf1 = buf1 ! i # drop (Suc i) buf1"
    and dt: "drop i buf2 = buf2 ! i # drop (Suc i) buf2"
    using i by (simp_all add: Cons_nth_drop_Suc)
  have ih: "priv_compare1_loop buf1 buf2 (int (Suc i)) =
              lexCompare (drop (Suc i) buf1) (drop (Suc i) buf2)"
    using Suc.prems Suc.hyps(2) i by (intro Suc.hyps(1)) auto
  have s: "int i + 1 = int (Suc i)" by simp
  show ?case
    using ih i
    by (subst priv_compare1_loop.simps)
       (auto simp: Let_def bufGet_nth numLess_def ds dt s word_less_def)
qed

text \<open>
  The first edition's \<^verbatim>\<open>_compare\<close> looks at the lengths first: the bytes decide only
  between buffers of the same length.
\<close>

lemma priv_compare1_shortlex:
  "priv_compare1 buf1 buf2 =
     (if length buf1 < length buf2 then - 1
      else if length buf1 > length buf2 then 1
      else lexCompare buf1 buf2)"
  using priv_compare1_loop_lex[of buf1 buf2 0] by (simp add: priv_compare1_def)

text \<open>
  \<open>lexCompare\<close> is the order the claim describes: it is 0 exactly on equal buffers, the
  first differing position decides, and a proper prefix is the smaller buffer.
\<close>

lemma lexCompare_eq_0: "lexCompare a b = 0 \<longleftrightarrow> a = b"
  by (induction a b rule: lexCompare.induct) auto

lemma lexCompare_range: "lexCompare a b \<in> {- 1, 0, 1}"
  by (induction a b rule: lexCompare.induct) auto

lemma lexCompare_first_difference:
  "i < length a \<Longrightarrow> i < length b \<Longrightarrow> take i a = take i b \<Longrightarrow> a ! i \<noteq> b ! i \<Longrightarrow>
   lexCompare a b = (if a ! i < b ! i then - 1 else 1)"
proof (induction a b arbitrary: i rule: lexCompare.induct)
  case (4 x xs y ys)
  show ?case
  proof (cases i)
    case 0
    with 4 show ?thesis by auto
  next
    case (Suc k)
    with "4.prems" have "x = y" by simp
    moreover have "lexCompare xs ys = (if xs ! k < ys ! k then - 1 else 1)"
      using "4.prems" Suc \<open>x = y\<close> by (intro "4.IH") auto
    ultimately show ?thesis using Suc by simp
  qed
qed simp_all

lemma lexCompare_prefix:
  "length a < length b \<Longrightarrow> take (length a) b = a \<Longrightarrow> lexCompare a b = - 1"
  "length b < length a \<Longrightarrow> take (length b) a = b \<Longrightarrow> lexCompare a b = 1"
proof (induction a b rule: lexCompare.induct)
qed auto

text \<open>
  Claim C4 at the buffers \<open>00 05\<close> and \<open>01\<close>. They differ at position 0, where
  \<open>00 < 01\<close>, so the claim gives \<open>-1\<close>, and so does the second edition. The first
  edition's \<^verbatim>\<open>_compare\<close>, which \<^verbatim>\<open>Buffer.compare\<close> returns, answers \<open>1\<close>
  because the first buffer is the longer one.
\<close>

theorem compare_first_edition_by_length:
  "priv_compare1 [0x00, 0x05] [0x01] = 1 \<and>
   priv_compare2 [0x00, 0x05] [0x01] = Some (- 1) \<and>
   lexCompare [0x00, 0x05] [0x01] = - 1"
  by (simp add: priv_compare1_def priv_compare2_lex)

section \<open>Integer writes are checked before the first store\<close>

lemma numLess_simps:
  "numLess (Some a) (Some b) = (a < b)" "numLess None x = False" "numLess x None = False"
  by (simp_all add: numLess_def split: option.split)

lemma bufSetU_simps:
  "bufSetU b i None = bufSet b i 0" "bufSetU b i (Some v) = bufSet b i v"
  by (simp_all add: bufSetU_def)



lemma checkInt_accept:
  "\<not> numLess (Some vmax) value \<Longrightarrow> \<not> numLess value (Some vmin) \<Longrightarrow> 0 \<le> offset \<Longrightarrow>
   offset + byteLength < int (length buf) \<Longrightarrow> 0 \<le> byteLength \<Longrightarrow>
   checkInt value vmin vmax buf (Some offset) byteLength = Inr offset"
  by (auto simp: checkInt_def checkBounds_def bufGet_def)





lemma variable_width_cases:
  "1 \<le> (n::int) \<Longrightarrow> n \<le> 6 \<Longrightarrow> n = 1 \<or> n = 2 \<or> n = 3 \<or> n = 4 \<or> n = 5 \<or> n = 6"
  by arith








lemma length_bufSetU [simp]: "length (bufSetU b i v) = length b"
  by (simp add: bufSetU_def)

lemma write_helpers_accept:
  assumes "vmin \<le> v" "v \<le> vmax" "0 \<le> offset" "offset + w \<le> int (length buf)"
  shows "w = 8 \<Longrightarrow> \<exists>buf'. writeBigU_Int64LE buf (Some v) (Some offset) vmin vmax = (Inr (offset + w), buf') \<and> length buf' = length buf"
    and "w = 8 \<Longrightarrow> \<exists>buf'. writeBigU_Int64BE buf (Some v) (Some offset) vmin vmax = (Inr (offset + w), buf') \<and> length buf' = length buf"
    and "w = 6 \<Longrightarrow> \<exists>buf'. writeU_Int48LE buf (Some v) (Some offset) vmin vmax = (Inr (offset + w), buf') \<and> length buf' = length buf"
    and "w = 6 \<Longrightarrow> \<exists>buf'. writeU_Int48BE buf (Some v) (Some offset) vmin vmax = (Inr (offset + w), buf') \<and> length buf' = length buf"
    and "w = 5 \<Longrightarrow> \<exists>buf'. writeU_Int40LE buf (Some v) (Some offset) vmin vmax = (Inr (offset + w), buf') \<and> length buf' = length buf"
    and "w = 5 \<Longrightarrow> \<exists>buf'. writeU_Int40BE buf (Some v) (Some offset) vmin vmax = (Inr (offset + w), buf') \<and> length buf' = length buf"
    and "w = 4 \<Longrightarrow> \<exists>buf'. writeU_Int32LE buf (Some v) (Some offset) vmin vmax = (Inr (offset + w), buf') \<and> length buf' = length buf"
    and "w = 4 \<Longrightarrow> \<exists>buf'. writeU_Int32BE buf (Some v) (Some offset) vmin vmax = (Inr (offset + w), buf') \<and> length buf' = length buf"
    and "w = 3 \<Longrightarrow> \<exists>buf'. writeU_Int24LE buf (Some v) (Some offset) vmin vmax = (Inr (offset + w), buf') \<and> length buf' = length buf"
    and "w = 3 \<Longrightarrow> \<exists>buf'. writeU_Int24BE buf (Some v) (Some offset) vmin vmax = (Inr (offset + w), buf') \<and> length buf' = length buf"
    and "w = 2 \<Longrightarrow> \<exists>buf'. writeU_Int16LE buf (Some v) (Some offset) vmin vmax = (Inr (offset + w), buf') \<and> length buf' = length buf"
    and "w = 2 \<Longrightarrow> \<exists>buf'. writeU_Int16BE buf (Some v) (Some offset) vmin vmax = (Inr (offset + w), buf') \<and> length buf' = length buf"
    and "w = 1 \<Longrightarrow> \<exists>buf'. writeU_Int8 buf (Some v) (Some offset) vmin vmax = (Inr (offset + w), buf') \<and> length buf' = length buf"
proof -
  have c: "checkInt (Some v) vmin vmax buf (Some offset) (w - 1) = Inr offset" if "1 \<le> w"
    using assms that by (intro checkInt_accept) (auto simp: numLess_simps)
  show "w = 8 \<Longrightarrow> \<exists>buf'. writeBigU_Int64LE buf (Some v) (Some offset) vmin vmax = (Inr (offset + w), buf') \<and> length buf' = length buf"
    using c by (simp add: writeBigU_Int64LE_def Let_def)
  show "w = 8 \<Longrightarrow> \<exists>buf'. writeBigU_Int64BE buf (Some v) (Some offset) vmin vmax = (Inr (offset + w), buf') \<and> length buf' = length buf"
    using c by (simp add: writeBigU_Int64BE_def Let_def)
  show "w = 6 \<Longrightarrow> \<exists>buf'. writeU_Int48LE buf (Some v) (Some offset) vmin vmax = (Inr (offset + w), buf') \<and> length buf' = length buf"
    using c by (simp add: writeU_Int48LE_def Let_def)
  show "w = 6 \<Longrightarrow> \<exists>buf'. writeU_Int48BE buf (Some v) (Some offset) vmin vmax = (Inr (offset + w), buf') \<and> length buf' = length buf"
    using c by (simp add: writeU_Int48BE_def Let_def)
  show "w = 5 \<Longrightarrow> \<exists>buf'. writeU_Int40LE buf (Some v) (Some offset) vmin vmax = (Inr (offset + w), buf') \<and> length buf' = length buf"
    using c by (simp add: writeU_Int40LE_def Let_def)
  show "w = 5 \<Longrightarrow> \<exists>buf'. writeU_Int40BE buf (Some v) (Some offset) vmin vmax = (Inr (offset + w), buf') \<and> length buf' = length buf"
    using c by (simp add: writeU_Int40BE_def Let_def)
  show "w = 4 \<Longrightarrow> \<exists>buf'. writeU_Int32LE buf (Some v) (Some offset) vmin vmax = (Inr (offset + w), buf') \<and> length buf' = length buf"
    using c by (simp add: writeU_Int32LE_def Let_def)
  show "w = 4 \<Longrightarrow> \<exists>buf'. writeU_Int32BE buf (Some v) (Some offset) vmin vmax = (Inr (offset + w), buf') \<and> length buf' = length buf"
    using c by (simp add: writeU_Int32BE_def Let_def)
  show "w = 3 \<Longrightarrow> \<exists>buf'. writeU_Int24LE buf (Some v) (Some offset) vmin vmax = (Inr (offset + w), buf') \<and> length buf' = length buf"
    using c by (simp add: writeU_Int24LE_def Let_def)
  show "w = 3 \<Longrightarrow> \<exists>buf'. writeU_Int24BE buf (Some v) (Some offset) vmin vmax = (Inr (offset + w), buf') \<and> length buf' = length buf"
    using c by (simp add: writeU_Int24BE_def Let_def)
  show "w = 2 \<Longrightarrow> \<exists>buf'. writeU_Int16LE buf (Some v) (Some offset) vmin vmax = (Inr (offset + w), buf') \<and> length buf' = length buf"
    using c by (simp add: writeU_Int16LE_def Let_def)
  show "w = 2 \<Longrightarrow> \<exists>buf'. writeU_Int16BE buf (Some v) (Some offset) vmin vmax = (Inr (offset + w), buf') \<and> length buf' = length buf"
    using c by (simp add: writeU_Int16BE_def Let_def)
  show "w = 1 \<Longrightarrow> \<exists>buf'. writeU_Int8 buf (Some v) (Some offset) vmin vmax = (Inr (offset + w), buf') \<and> length buf' = length buf"
    using assms by (auto simp: writeU_Int8_def bufGet_def numLess_simps)
qed

text \<open>
  The rejection is not all a write ever does: a representable value at an offset whose
  range lies within the buffer is written, and the call returns the offset after the
  last byte.
\<close>

lemma int_write_accepted:
  assumes "supportedWidth m" "representable (writeSigned m) (writeWidth m) v"
    "0 \<le> offset" "offset + writeWidth m \<le> int (length buf)"
  shows "\<exists>buf'. callIntWrite m buf (Some v) (Some offset) = (Inr (offset + writeWidth m), buf') \<and>
           length buf' = length buf"
proof -
  note r = write_helpers_accept[where buf = buf and offset = offset and v = v]
  show ?thesis
  proof (cases m)
    case WriteBigUInt64LE
    with assms show ?thesis
      by (auto simp: writeBigUInt64LE_def representable_def dflt_def intro!: r)
  next
    case WriteBigUInt64BE
    with assms show ?thesis
      by (auto simp: writeBigUInt64BE_def representable_def dflt_def intro!: r)
  next
    case WriteBigInt64LE
    with assms show ?thesis
      by (auto simp: writeBigInt64LE_def representable_def dflt_def intro!: r)
  next
    case WriteBigInt64BE
    with assms show ?thesis
      by (auto simp: writeBigInt64BE_def representable_def dflt_def intro!: r)
  next
    case (WriteUIntLE n)
    with assms have "n = 1 \<or> n = 2 \<or> n = 3 \<or> n = 4 \<or> n = 5 \<or> n = 6"
      by (intro variable_width_cases) auto
    with assms WriteUIntLE show ?thesis
      by (auto simp: writeUIntLE_def representable_def intro!: r)
  next
    case (WriteUIntBE n)
    with assms have "n = 1 \<or> n = 2 \<or> n = 3 \<or> n = 4 \<or> n = 5 \<or> n = 6"
      by (intro variable_width_cases) auto
    with assms WriteUIntBE show ?thesis
      by (auto simp: writeUIntBE_def representable_def intro!: r)
  next
    case (WriteIntLE n)
    with assms have "n = 1 \<or> n = 2 \<or> n = 3 \<or> n = 4 \<or> n = 5 \<or> n = 6"
      by (intro variable_width_cases) auto
    with assms WriteIntLE show ?thesis
      by (auto simp: writeIntLE_def representable_def intro!: r)
  next
    case (WriteIntBE n)
    with assms have "n = 1 \<or> n = 2 \<or> n = 3 \<or> n = 4 \<or> n = 5 \<or> n = 6"
      by (intro variable_width_cases) auto
    with assms WriteIntBE show ?thesis
      by (auto simp: writeIntBE_def representable_def intro!: r)
  next
    case WriteUInt32LE
    with assms show ?thesis
      by (auto simp: writeUInt32LE_def representable_def dflt_def intro!: r)
  next
    case WriteUInt16LE
    with assms show ?thesis
      by (auto simp: writeUInt16LE_def representable_def dflt_def intro!: r)
  next
    case WriteUInt8
    with assms show ?thesis
      by (auto simp: writeUInt8_def representable_def dflt_def intro!: r)
  next
    case WriteUInt32BE
    with assms show ?thesis
      by (auto simp: writeUInt32BE_def representable_def dflt_def intro!: r)
  next
    case WriteUInt16BE
    with assms show ?thesis
      by (auto simp: writeUInt16BE_def representable_def dflt_def intro!: r)
  next
    case WriteInt32LE
    with assms show ?thesis
      by (auto simp: writeInt32LE_def representable_def dflt_def intro!: r)
  next
    case WriteInt16LE
    with assms show ?thesis
      by (auto simp: writeInt16LE_def representable_def dflt_def intro!: r)
  next
    case WriteInt8
    with assms show ?thesis
      by (auto simp: writeInt8_def representable_def dflt_def intro!: r)
  next
    case WriteInt32BE
    with assms show ?thesis
      by (auto simp: writeInt32BE_def representable_def dflt_def intro!: r)
  next
    case WriteInt16BE
    with assms show ?thesis
      by (auto simp: writeInt16BE_def representable_def dflt_def intro!: r)
  qed
qed

section \<open>Boundaries of the 8-bit read and the 32-bit write\<close>

lemma ushr8_ffffffff:
  "ushr8 (Some 0xFFFFFFFF) = Some 0xFFFFFF" "ushr8 (Some 0xFFFFFF) = Some 0xFFFF"
  "ushr8 (Some 0xFFFF) = Some 0xFF"
  by (simp_all add: ushr8_def)

text \<open>
  Claim C6. On a buffer of length \<open>n\<close>: \<^verbatim>\<open>readUInt8(n - 1)\<close> returns the last byte
  (when the buffer has one); \<^verbatim>\<open>readUInt8(n)\<close> throws a \<^verbatim>\<open>RangeError\<close>;
  \<^verbatim>\<open>writeUInt32LE(0xFFFFFFFF, offset)\<close> with \<open>[offset, offset + 4)\<close> within the buffer
  returns \<open>offset + 4\<close> and sets exactly those four bytes, to \<open>0xFF\<close>; and
  \<^verbatim>\<open>writeUInt32LE(0x100000000, offset)\<close> throws \<^verbatim>\<open>ERR_OUT_OF_RANGE\<close>, at every
  offset, leaving the buffer as it was.
\<close>

theorem uint8_read_and_uint32_write_boundaries:
  "(0 < length buf \<longrightarrow>
      readUInt8 buf (Some (int (length buf) - 1)) = Inr (uint (buf ! (length buf - 1)))) \<and>
   (\<exists>e. readUInt8 buf (Some (int (length buf))) = Inl e \<and> isRangeError e) \<and>
   (0 \<le> offset \<and> offset + 4 \<le> int (length buf) \<longrightarrow>
      (\<exists>buf'. writeUInt32LE buf (Some 0xFFFFFFFF) (Some offset) = (Inr (offset + 4), buf') \<and>
         length buf' = length buf \<and>
         (\<forall>j<length buf. buf' ! j =
            (if offset \<le> int j \<and> int j < offset + 4 then 0xFF else buf ! j)))) \<and>
   writeUInt32LE buf (Some 0x100000000) (Some offset) = (Inl ERR_OUT_OF_RANGE, buf)"
proof (intro conjI impI)
  assume "0 < length buf"
  then have "nat (int (length buf) - 1) = length buf - 1" by simp
  with \<open>0 < length buf\<close>
  show "readUInt8 buf (Some (int (length buf) - 1)) = Inr (uint (buf ! (length buf - 1)))"
    by (simp add: readUInt8_def dflt_def bufGet_def)
next
  show "\<exists>e. readUInt8 buf (Some (int (length buf))) = Inl e \<and> isRangeError e"
    by (simp add: readUInt8_def dflt_def bufGet_def boundsError_def)
next
  assume a: "0 \<le> offset \<and> offset + 4 \<le> int (length buf)"
  define buf' where "buf' = bufSet (bufSet (bufSet (bufSet buf offset 0xFFFFFFFF)
      (offset + 1) 0xFFFFFF) (offset + 2) 0xFFFF) (offset + 3) 0xFF"
  have c: "checkInt (Some 0xFFFFFFFF) 0 0xffffffff buf (Some offset) 3 = Inr offset"
    using a by (intro checkInt_accept) (auto simp: numLess_simps)
  have w: "writeUInt32LE buf (Some 0xFFFFFFFF) (Some offset) = (Inr (offset + 4), buf')"
    by (simp add: writeUInt32LE_def writeU_Int32LE_def dflt_def c Let_def ushr8_ffffffff
          bufSetU_simps buf'_def)
  have n: "buf' ! j = (if offset \<le> int j \<and> int j < offset + 4 then 0xFF else buf ! j)"
    if "j < length buf" for j
    using that a by (auto simp: buf'_def nth_bufSet)
  show "\<exists>buf'. writeUInt32LE buf (Some 0xFFFFFFFF) (Some offset) = (Inr (offset + 4), buf') \<and>
         length buf' = length buf \<and>
         (\<forall>j<length buf. buf' ! j =
            (if offset \<le> int j \<and> int j < offset + 4 then 0xFF else buf ! j))"
    using w n by (auto simp: buf'_def)
next
  show "writeUInt32LE buf (Some 0x100000000) (Some offset) = (Inl ERR_OUT_OF_RANGE, buf)"
    by (simp add: writeUInt32LE_def writeU_Int32LE_def dflt_def checkInt_def numLess_simps)
qed

text \<open>The theorem of claim C6 on the five-byte buffer \<open>0A 0B 0C 0D 0E\<close>, writing at offset 1.\<close>

theorem uint8_read_and_uint32_write_boundaries_witness:
  "readUInt8 [0x0A, 0x0B, 0x0C, 0x0D, 0x0E] (Some 4) = Inr 0x0E \<and>
   (\<exists>e. readUInt8 [0x0A, 0x0B, 0x0C, 0x0D, 0x0E] (Some 5) = Inl e \<and> isRangeError e) \<and>
   writeUInt32LE [0x0A, 0x0B, 0x0C, 0x0D, 0x0E] (Some 0xFFFFFFFF) (Some 1) =
     (Inr 5, [0x0A, 0xFF, 0xFF, 0xFF, 0xFF]) \<and>
   writeUInt32LE [0x0A, 0x0B, 0x0C, 0x0D, 0x0E] (Some 0x100000000) (Some 1) =
     (Inl ERR_OUT_OF_RANGE, [0x0A, 0x0B, 0x0C, 0x0D, 0x0E])"
proof -
  have w: "writeUInt32LE [0x0A, 0x0B, 0x0C, 0x0D, 0x0E] (Some 0xFFFFFFFF) (Some 1) =
     (Inr 5, [0x0A, 0xFF, 0xFF, 0xFF, 0xFF])"
    by (simp add: writeUInt32LE_def writeU_Int32LE_def dflt_def checkInt_def checkBounds_def
          numLess_simps bufGet_def bufSetU_simps bufSet_def Let_def ushr8_ffffffff)
  show ?thesis
    using uint8_read_and_uint32_write_boundaries[of "[0x0A, 0x0B, 0x0C, 0x0D, 0x0E]" 1] w
    by simp
qed

section \<open>Fill changes the range it is given and nothing else\<close>

declare fillRange.simps [simp del]

lemma fillRange_spec:
  "0 \<le> k \<Longrightarrow>
   length (fillRange buf v k final) = length buf \<and>
   (\<forall>j<length buf. fillRange buf v k final ! j =
      (if k \<le> int j \<and> int j < final then word_of_int v else buf ! j))"
proof (induction buf v k final rule: fillRange.induct)
  case (1 buf v k final)
  show ?case
  proof (cases "k < final")
    case False
    then show ?thesis by (subst (1 2) fillRange.simps) auto
  next
    case True
    have u: "fillRange buf v k final = fillRange (bufSet buf k v) v (k + 1) final"
      using True by (subst fillRange.simps) simp
    have ih: "length (fillRange (bufSet buf k v) v (k + 1) final) = length (bufSet buf k v) \<and>
       (\<forall>j<length (bufSet buf k v). fillRange (bufSet buf k v) v (k + 1) final ! j =
          (if k + 1 \<le> int j \<and> int j < final then word_of_int v else bufSet buf k v ! j))"
      using "1.prems" by (intro "1.IH"[OF True]) simp
    show ?thesis
      unfolding u using ih True by (auto simp: nth_bufSet)
  qed
qed

lemma typedArrayFill_spec:
  "0 \<le> start \<Longrightarrow> end \<le> int (length buf) \<Longrightarrow> 0 \<le> end \<Longrightarrow>
   length (typedArrayFill buf v start end) = length buf \<and>
   (\<forall>j<length buf. typedArrayFill buf v start end ! j =
      (if start \<le> int j \<and> int j < end then word_of_int v else buf ! j))"
proof -
  define k where "k = min start (int (length buf))"
  assume a: "0 \<le> start" "end \<le> int (length buf)" "0 \<le> end"
  then have t: "typedArrayFill buf v start end = fillRange buf v k end"
    by (simp add: typedArrayFill_def Let_def k_def)
  have "0 \<le> k" using a by (simp add: k_def)
  from fillRange_spec[OF this, of buf v "end"]
  have f: "length (fillRange buf v k end) = length buf"
    "\<And>j. j < length buf \<Longrightarrow> fillRange buf v k end ! j =
      (if k \<le> int j \<and> int j < end then word_of_int v else buf ! j)"
    by auto
  have "(k \<le> int j \<and> int j < end) = (start \<le> int j \<and> int j < end)" if "j < length buf" for j
    using that a by (auto simp: k_def)
  then show ?thesis using f by (simp add: t)
qed

text \<open>
  Claim C10. For every buffer, every numeric value and every range that passes the
  validation of both editions and lies within the buffer (\<open>0 \<le> offset\<close>, \<open>offset\<close> a
  safe integer, \<open>0 \<le> end \<le> length\<close>; the buffer a view of at least its own length),
  \<^verbatim>\<open>_fill\<close> returns the buffer, of the same length, in which the bytes at the indices
  of \<open>[offset, end)\<close> are the value reduced modulo 256 and every other byte is what it
  was; when \<open>offset \<ge> end\<close> the buffer is unchanged.
\<close>

theorem fill_number_frame:
  "0 \<le> offset \<and> offset \<le> MAX_SAFE_INTEGER \<and> 0 \<le> end \<and> end \<le> int (length buf) \<and>
   int (length buf) \<le> byteLen \<longrightarrow>
   (\<exists>buf'. priv_fill1 buf value (Some offset) (Some end) = (Inr (), buf') \<and>
           priv_fill2 byteLen buf value (Some offset) (Some end) = (Inr (), buf') \<and>
           length buf' = length buf \<and>
           (\<forall>j<length buf. buf' ! j =
              (if offset \<le> int j \<and> int j < end then word_of_int value else buf ! j)) \<and>
           (end \<le> offset \<longrightarrow> buf' = buf))"
proof
  assume a: "0 \<le> offset \<and> offset \<le> MAX_SAFE_INTEGER \<and> 0 \<le> end \<and> end \<le> int (length buf) \<and>
     int (length buf) \<le> byteLen"
  define buf' where "buf' = (if end \<le> offset then buf else typedArrayFill buf value offset end)"
  have v1: "validateInteger offset MIN_SAFE_INTEGER MAX_SAFE_INTEGER = None"
    using a by (simp add: validateInteger_def MIN_SAFE_INTEGER_def)
  have v2: "validateInteger end 0 (int (length buf)) = None"
    using a by (simp add: validateInteger_def)
  have v3: "validateInteger offset 0 MAX_SAFE_INTEGER = None"
    using a by (simp add: validateInteger_def)
  have e1: "priv_fill1 buf value (Some offset) (Some end) = (Inr (), buf')"
    by (simp add: priv_fill1_def v1 v2 buf'_def)
  have e2: "priv_fill2 byteLen buf value (Some offset) (Some end) = (Inr (), buf')"
    using a by (auto simp: priv_fill2_def validateOffset_def v2 v3 buf'_def Let_def)
  have s: "length buf' = length buf \<and>
     (\<forall>j<length buf. buf' ! j =
        (if offset \<le> int j \<and> int j < end then word_of_int value else buf ! j))"
    using a typedArrayFill_spec[of offset "end" buf "value"] by (auto simp: buf'_def)
  show "\<exists>buf'. priv_fill1 buf value (Some offset) (Some end) = (Inr (), buf') \<and>
           priv_fill2 byteLen buf value (Some offset) (Some end) = (Inr (), buf') \<and>
           length buf' = length buf \<and>
           (\<forall>j<length buf. buf' ! j =
              (if offset \<le> int j \<and> int j < end then word_of_int value else buf ! j)) \<and>
           (end \<le> offset \<longrightarrow> buf' = buf)"
    using e1 e2 s by (intro exI[of _ buf']) (simp add: buf'_def)
qed

text \<open>
  The theorem of claim C10 on the buffer \<open>01 02 03 04 05\<close>: filling \<open>[1, 3)\<close> with
  \<open>0x1FF\<close> gives \<open>01 FF FF 04 05\<close>, and filling the empty range \<open>[3, 3)\<close> changes
  nothing.
\<close>

theorem fill_number_frame_witness:
  "priv_fill1 [1, 2, 3, 4, 5] 0x1FF (Some 1) (Some 3) = (Inr (), [1, 0xFF, 0xFF, 4, 5]) \<and>
   priv_fill2 8 [1, 2, 3, 4, 5] 0x1FF (Some 1) (Some 3) = (Inr (), [1, 0xFF, 0xFF, 4, 5]) \<and>
   priv_fill1 [1, 2, 3, 4, 5] 0x1FF (Some 3) (Some 3) = (Inr (), [1, 2, 3, 4, 5])"
proof -
  have "priv_fill1 [1, 2, 3, 4, 5] 0x1FF (Some 1) (Some 3) = (Inr (), [1, 0xFF, 0xFF, 4, 5])"
    by (simp add: priv_fill1_def validateInteger_def MIN_SAFE_INTEGER_def MAX_SAFE_INTEGER_def
          typedArrayFill_def fillRange.simps bufSet_def Let_def)
  then show ?thesis
    using fill_number_frame[of 1 3 "[1, 2, 3, 4, 5]" 8 "0x1FF"]
      fill_number_frame[of 3 3 "[1, 2, 3, 4, 5]" 8 "0x1FF"]
    by (simp add: MAX_SAFE_INTEGER_def)
qed

text \<open>With no offset given, the whole buffer is filled, whatever \<^verbatim>\<open>end\<close> is.\<close>

lemma fill_number_defaults:
  "\<exists>buf'. priv_fill1 buf value None end0 = (Inr (), buf') \<and>
          (int (length buf) \<le> byteLen \<longrightarrow> priv_fill2 byteLen buf value None end0 = (Inr (), buf')) \<and>
          length buf' = length buf \<and> (\<forall>j<length buf. buf' ! j = word_of_int value)"
proof -
  have s: "length (typedArrayFill buf value 0 (int (length buf))) = length buf \<and>
     (\<forall>j<length buf. typedArrayFill buf value 0 (int (length buf)) ! j = word_of_int value)"
    using typedArrayFill_spec[of 0 "int (length buf)" buf "value"] by simp
  show ?thesis
    using s by (intro exI[of _ "typedArrayFill buf value 0 (int (length buf))"])
      (auto simp: priv_fill1_def priv_fill2_def Let_def)
qed

section \<open>The hex codec on the example of the specification\<close>

text \<open>
  The first edition's \<^verbatim>\<open>hexSlice\<close> does not pad: a byte below \<open>0x10\<close> becomes one
  digit. The second edition's pads to two.
\<close>

lemma hexSlice_first_edition_unpadded:
  "hexSlice1 [0x01, 0x02] None None = Inr (js ''12'') \<and>
   hexSlice2 [0x01, 0x02] None None = Some (Inr (js ''0102''))"
  by code_simp

text \<open>
  Claim C2 on the example of the specification. The bytes \<open>FF FE FD\<close> stringify to
  \<^verbatim>\<open>"fffefd"\<close> in both editions. Writing \<^verbatim>\<open>"fffefd"\<close> back with \<^verbatim>\<open>hexWrite\<close>
  stores three bytes in both editions, but each from one character only,
  \<^verbatim>\<open>string.slice(i * 2, i * 2 + 1)\<close>: the characters at positions 0, 2 and 4, all
  \<^verbatim>\<open>f\<close>. The buffer is \<open>0F 0F 0F\<close>, not the original \<open>FF FE FD\<close>.
\<close>

theorem hexWrite_reads_one_digit_per_byte:
  "hexSlice1 [0xFF, 0xFE, 0xFD] None None = Inr (js ''fffefd'') \<and>
   hexSlice2 [0xFF, 0xFE, 0xFD] None None = Some (Inr (js ''fffefd'')) \<and>
   hexWrite1 [0, 0, 0] (js ''fffefd'') None None = (Inr 3, [0x0F, 0x0F, 0x0F]) \<and>
   hexWrite2 [0, 0, 0] (js ''fffefd'') None None = Some (Inr 3, [0x0F, 0x0F, 0x0F])"
  by code_simp

section \<open>Base64 decoding of malformed input\<close>

lemma pad_not_base64 [simp]: "\<not> isBase64Char 0x3D" "\<not> isSkipped 0x3D"
  by (simp_all add: isBase64Char_def isSkipped_def)

lemma base64_not_skipped: "isBase64Char c \<Longrightarrow> \<not> isSkipped c"
  by (auto simp: isBase64Char_def isSkipped_def)

lemma base64Decode_scan_ok:
  "0 \<le> eq \<Longrightarrow> eq \<le> 2 \<Longrightarrow> base64Decode_scan data out eq = (out', eq', False) \<Longrightarrow>
   length out' = length out + length (filter isBase64Char data) \<and>
   eq' = eq + int (length (filter (\<lambda>c. c = 0x3D) data)) \<and> eq' \<le> 2 \<and>
   \<not> outOfAlphabet data \<and> \<not> interleavedPadding data \<and>
   (0 < eq \<longrightarrow> filter isBase64Char data = [])"
proof (induction data arbitrary: out eq)
  case Nil
  then show ?case
    by (auto simp: outOfAlphabet_def interleavedPadding_def)
next
  case (Cons ch rest)
  consider (pad) "ch = 0x3D" | (sym) "ch \<noteq> 0x3D" "isBase64Char ch"
    | (skip) "ch \<noteq> 0x3D" "\<not> isBase64Char ch" "isSkipped ch"
    | (bad) "ch \<noteq> 0x3D" "\<not> isBase64Char ch" "\<not> isSkipped ch"
    by blast
  then show ?case
  proof cases
    case pad
    with Cons.prems have le: "eq + 1 \<le> 2"
      and r: "base64Decode_scan rest out (eq + 1) = (out', eq', False)"
      by (auto split: if_splits)
    from Cons.IH[OF _ le r] Cons.prems(1)
    have ih: "length out' = length out + length (filter isBase64Char rest)"
      "eq' = eq + 1 + int (length (filter (\<lambda>c. c = 0x3D) rest))" "eq' \<le> 2"
      "\<not> outOfAlphabet rest" "\<not> interleavedPadding rest" "filter isBase64Char rest = []"
      by auto
    have "\<forall>c\<in>set rest. \<not> isBase64Char c"
      using ih(6) by (simp add: filter_empty_conv)
    then show ?thesis
      using pad ih by (auto simp: outOfAlphabet_def interleavedPadding_def)
  next
    case sym
    with Cons.prems have z: "eq = 0"
      and r: "base64Decode_scan rest (out @ [arrNum kBase64DecMap (uint ch)]) eq = (out', eq', False)"
      by (auto split: if_splits)
    from Cons.IH[OF _ _ r] Cons.prems(1,2) z
    show ?thesis
      using sym by (auto simp: outOfAlphabet_def interleavedPadding_def)
  next
    case skip
    with Cons.prems have r: "base64Decode_scan rest out eq = (out', eq', False)"
      by (auto split: if_splits)
    from Cons.IH[OF _ _ r] Cons.prems(1,2)
    show ?thesis
      using skip by (auto simp: outOfAlphabet_def interleavedPadding_def)
  next
    case bad
    with Cons.prems show ?thesis by (auto split: if_splits)
  qed
qed

lemma base64Decode_checks:
  assumes "data \<noteq> []" "base64Decode_scan data [] 0 = (out, p, False)"
    "length out = 0 \<or> (p \<noteq> 0 \<and> jsRem (int (length out) + p) 4 \<noteq> 0) \<or> jsRem (int (length out)) 4 = 1"
  shows "base64Decode data = []"
proof -
  from assms(3) consider (a) "out = []"
    | (b) "out \<noteq> []" "p \<noteq> 0 \<and> jsRem (int (length out) + p) 4 \<noteq> 0"
    | (c) "out \<noteq> []" "\<not> (p \<noteq> 0 \<and> jsRem (int (length out) + p) 4 \<noteq> 0)" "jsRem (int (length out)) 4 = 1"
    by auto
  then show ?thesis
  proof cases
    case a
    then show ?thesis using assms(1,2) by (simp add: base64Decode_def Let_def)
  next
    case b
    then show ?thesis using assms(1,2) by (simp add: base64Decode_def Let_def)
  next
    case c
    then show ?thesis using assms(1,2) by (simp add: base64Decode_def Let_def)
  qed
qed

lemma base64Decode_error:
  "base64Decode_scan data [] 0 = (out, p, True) \<Longrightarrow> base64Decode data = []"
  by (simp add: base64Decode_def)

text \<open>
  The second edition's decoder fails softly, as claim C7 says: every input that is
  rejected for one of the four reasons decodes to the empty string.
\<close>

lemma base64Decode_rejected:
  assumes "rejected data"
  shows "base64Decode data = []"
proof (cases "data = []")
  case True
  then show ?thesis by (simp add: base64Decode_def)
next
  case False
  obtain out p hadError where s: "base64Decode_scan data [] 0 = (out, p, hadError)"
    by (cases "base64Decode_scan data [] 0") auto
  show ?thesis
  proof (cases hadError)
    case True
    with s show ?thesis by (auto intro: base64Decode_error)
  next
    case e: False
    define n where "n = length (filter isBase64Char data)"
    define q where "q = length (filter (\<lambda>c. c = 0x3D) data)"
    from base64Decode_scan_ok[of 0 data "[]" out p] s e
    have ok: "length out = n" "p = int q" "p \<le> 2" "\<not> outOfAlphabet data" "\<not> interleavedPadding data"
      by (auto simp: n_def q_def)
    then have "\<not> tooMuchPadding data" by (simp add: tooMuchPadding_def q_def)
    with assms ok have li: "(0 < q \<and> (n + q) mod 4 \<noteq> 0) \<or> n mod 4 = 1"
      by (simp add: rejected_def lengthInconsistent_def Let_def n_def q_def)
    have r1: "jsRem (int n + int q) 4 = int ((n + q) mod 4)"
      using jsRem_nat[of "n + q" 4] by simp
    have r2: "jsRem (int n) 4 = int (n mod 4)"
      using jsRem_nat[of n 4] by simp
    have "length out = 0 \<or> (p \<noteq> 0 \<and> jsRem (int (length out) + p) 4 \<noteq> 0) \<or>
          jsRem (int (length out)) 4 = 1"
      using li ok(1,2) by (auto simp: r1 r2)
    with False s e show ?thesis by (intro base64Decode_checks) auto
  qed
qed

lemma asciiWrite2_returns:
  assumes "0 \<le> offset" "offset \<le> int (length this)"
  shows "\<exists>n this'. asciiWrite2 this string (Some offset) None = Some (Inr n, this')"
proof -
  have "0 \<le> min (int (length this) - offset) (min (int (length string)) (int (length string)))"
    using assms by simp
  then show ?thesis
    using assms by (simp add: asciiWrite2_def dflt_def Let_def asciiWrite2_loop_eq)
qed

lemma base64ByteLength_nonneg: "0 \<le> base64ByteLength str bytes0"
  by (cases bytes0) (simp_all add: base64ByteLength_def Let_def)

text \<open>
  The second edition's \<^verbatim>\<open>base64Write\<close> throws on no string: with an offset inside the
  buffer (and a length argument that is absent or not negative) it returns a count.
\<close>

lemma base64Write2_never_raises_on_content:
  assumes "0 \<le> dflt offset0 0" "dflt offset0 0 \<le> int (length this)"
    "length0 = None \<or> 0 \<le> dflt length0 0"
  shows "\<exists>n this'. base64Write2 this string offset0 length0 = Some (Inr n, this')"
proof -
  have "0 \<le> dflt length0 (base64ByteLength string (Some (int (length string))))"
    using assms(3) base64ByteLength_nonneg[of string "Some (int (length string))"]
    by (cases length0) (simp_all add: dflt_def)
  then show ?thesis
    using assms(1,2) asciiWrite2_returns[OF assms(1,2)]
    by (simp add: base64Write2_def Let_def latin1Write2_def)
qed

text \<open>The three examples of claim C7, on the second edition's decoder.\<close>

lemma base64Decode_examples:
  "base64Decode (js ''Zg=='') = js ''f'' \<and>
   base64Decode (js ''Zm8='') = js ''fo'' \<and>
   base64Decode (js ''Z==='') = []"
  by code_simp

text \<open>
  The second edition's \<^verbatim>\<open>base64Write\<close> removes the characters outside the alphabet
  from the string before it decodes it. A string that the decoder rejects for such a
  character alone is written as if the character were not there: \<^verbatim>\<open>"Zm9v!"\<close> decodes
  to the empty string, and \<^verbatim>\<open>base64Write\<close> writes \<^verbatim>\<open>foo\<close>.
\<close>

lemma base64Write_second_edition_sanitises:
  "rejected (js ''Zm9v!'') \<and> base64Decode (js ''Zm9v!'') = [] \<and>
   base64Write2 [0, 0, 0] (js ''Zm9v!'') None None = Some (Inr 3, [0x66, 0x6F, 0x6F])"
  by code_simp

text \<open>
  Claim C7 at the input \<^verbatim>\<open>"Z==="\<close>, written into the one-byte buffer that
  \<^verbatim>\<open>Buffer.from("Z===", 'base64')\<close> allocates for it. The second edition writes nothing
  and returns 0. The first edition hands the string to \<^verbatim>\<open>atob\<close>, which throws, and
  the exception leaves \<^verbatim>\<open>base64Write\<close>: the call raises, where the claim says that
  decoding never does. On the well-formed \<^verbatim>\<open>"Zg=="\<close> both editions write the byte of
  \<^verbatim>\<open>f\<close>.
\<close>

theorem base64Write_first_edition_raises:
  "base64Write1 [0] (js ''Z==='') (Some 0) (Some 1) = (Inl InvalidCharacterError, [0]) \<and>
   base64Write2 [0] (js ''Z==='') (Some 0) (Some 1) = Some (Inr 0, [0]) \<and>
   base64Write1 [0] (js ''Zg=='') (Some 0) (Some 1) = (Inr 1, [0x66]) \<and>
   base64Write2 [0] (js ''Zg=='') (Some 0) (Some 1) = Some (Inr 1, [0x66])"
  by code_simp

section \<open>The UTF-8 round trip\<close>

text \<open>
  Inside the Basic Multilingual Plane the round trip works, as on the euro sign of the
  specification's scenario.
\<close>

lemma utf8_round_trip_euro:
  "utf8Write [0, 0, 0] [0x20AC] None None = (Inr 3, [0xE2, 0x82, 0xAC]) \<and>
   utf8Slice [0xE2, 0x82, 0xAC] None None = Inr [0x20AC]"
  by code_simp

subsection \<open>Bit fields of integers\<close>

text \<open>
  The masks and shifts of the UTF-8 code are bit fields: an \<open>OR\<close> of two fields that do
  not overlap is a sum, an \<open>AND\<close> with a mask is a remainder.
\<close>

lemma and_mask_mod: "(x::int) AND mask n = x mod 2 ^ n"
  by (simp add: take_bit_eq_mod flip: take_bit_eq_mask)

lemma or_field:
  assumes "0 \<le> x" "x < 2 ^ n"
  shows "x OR push_bit n y = y * 2 ^ n + (x::int)"
proof -
  have "take_bit n x = x" using assms by (simp add: take_bit_int_eq_self)
  then have "x OR push_bit n y = concat_bit n x y" by (simp add: concat_bit_def)
  also have "\<dots> = take_bit n x + push_bit n y" by (rule concat_bit_eq)
  finally show ?thesis using \<open>take_bit n x = x\<close> by (simp add: push_bit_eq_mult)
qed

lemma and_low_field:
  assumes "0 \<le> x" "x < 2 ^ n"
  shows "(y * 2 ^ n + x) AND mask n = (x::int)"
proof -
  have "(y * 2 ^ n + x) AND mask n = (y * 2 ^ n + x) mod 2 ^ n"
    by (simp add: take_bit_eq_mod flip: take_bit_eq_mask)
  then show ?thesis using assms by simp
qed

lemma and_high_field:
  "(x::int) AND push_bit n m = push_bit n (drop_bit n x AND m)"
  by (rule bit_eqI) (auto simp: bit_simps)

lemma drop_field:
  assumes "0 \<le> x" "x < 2 ^ n"
  shows "drop_bit n (y * 2 ^ n + x) = (y::int)"
  using assms by (simp add: drop_bit_eq_div)

subsection \<open>Strings with no surrogate round-trip\<close>

text \<open>
  One code unit outside the surrogate range is written as one, two or three bytes, and
  \<^verbatim>\<open>utf8Slice\<close> decodes these bytes to the same code unit.
\<close>

lemma cont_byte: "((x::int) AND 0x3F) OR 0x80 = 0x80 + x mod 64"
proof -
  have a: "x AND 0x3F = x mod 64"
    using and_mask_mod[of x 6] by (simp add: mask_eq_exp_minus_1)
  have "0 \<le> x mod 64" "x mod 64 < 2 ^ 7" by simp_all
  from or_field[OF this, of 1] show ?thesis by (simp add: a push_bit_eq_mult)
qed

lemma lead2_byte:
  assumes "0 \<le> code" "code < 0x800"
  shows "drop_bit 6 code OR 0xC0 = 0xC0 + code div (64::int)"
proof -
  have "0 \<le> code div 64" "code div 64 < 2 ^ 5" using assms by simp_all
  from or_field[OF this, of 6] show ?thesis by (simp add: drop_bit_eq_div push_bit_eq_mult)
qed

lemma lead3_byte:
  assumes "0 \<le> code" "code < 0x10000"
  shows "drop_bit 12 code OR 0xE0 = 0xE0 + code div (4096::int)"
proof -
  have "0 \<le> code div 4096" "code div 4096 < 2 ^ 4" using assms by simp_all
  from or_field[OF this, of 14] show ?thesis by (simp add: drop_bit_eq_div push_bit_eq_mult)
qed

lemma cont_tag:
  assumes "0 \<le> r" "r < 64"
  shows "(0x80 + r) AND 0xC0 = (0x80::int)"
proof -
  have "drop_bit 6 (2 * 2 ^ 6 + r) = 2" using assms by (intro drop_field) simp_all
  then have "(2 * 2 ^ 6 + r) AND push_bit 6 3 = push_bit 6 (2 AND 3)"
    by (simp only: and_high_field[of _ 6 3])
  then show ?thesis by (simp add: push_bit_eq_mult add.commute)
qed

lemma cont_payload:
  assumes "0 \<le> r" "r < 64"
  shows "(0x80 + r) AND 0x3F = (r::int)"
  using and_low_field[of r 6 2] assms by (simp add: mask_eq_exp_minus_1 add.commute)

lemma lead2_payload:
  assumes "0 \<le> q" "q < 32"
  shows "(0xC0 + q) AND 0x1F = (q::int)"
  using and_low_field[of q 5 6] assms by (simp add: mask_eq_exp_minus_1 add.commute)

lemma lead3_payload:
  assumes "0 \<le> q" "q < 16"
  shows "(0xE0 + q) AND 0xF = (q::int)"
  using and_low_field[of q 4 14] assms by (simp add: mask_eq_exp_minus_1 add.commute)

lemma join2:
  assumes "0 \<le> r" "r < 64"
  shows "push_bit 6 q OR r = 64 * q + (r::int)"
  using or_field[of r 6 q] assms by (simp add: or.commute)

lemma join3:
  assumes "0 \<le> m" "m < 64" "0 \<le> r" "r < 64"
  shows "push_bit 12 q OR push_bit 6 m OR r = 4096 * q + 64 * m + (r::int)"
proof -
  have a: "push_bit 6 m OR r = 64 * m + r" using assms by (intro join2)
  have "0 \<le> 64 * m + r" "64 * m + r < 2 ^ 12" using assms by simp_all
  from or_field[OF this, of q] have "push_bit 12 q OR (64 * m + r) = 4096 * q + 64 * m + r"
    by (simp only: or.commute[of "push_bit 12 q"]) simp
  then show ?thesis by (simp only: a)
qed

lemma uint_byte: "0 \<le> v \<Longrightarrow> v < 256 \<Longrightarrow> uint (word_of_int v :: byte) = v"
  by (simp add: uint_word_of_int take_bit_eq_mod)

lemma bufGet_mid:
  "k < length xs \<Longrightarrow> bufGet (pre @ xs @ post) (int (length pre) + int k) = Some (uint (xs ! k))"
  by (simp add: bufGet_def nth_append nat_add_distrib)


lemma bufGet_at:
  "bufGet (pre @ x # rest) (int (length pre)) = Some (uint x)"
  "bufGet (pre @ x # y # rest1) (int (length pre) + 1) = Some (uint y)"
  "bufGet (pre @ x # y # z # rest2) (int (length pre) + 2) = Some (uint z)"
  by (simp_all add: bufGet_def nth_append nat_add_distrib)

lemma bufSet_at:
  "bufSet (pre @ x # rest) (int (length pre)) v = pre @ word_of_int v # rest"
  "bufSet (pre @ x # y # rest1) (int (length pre) + 1) v = pre @ x # word_of_int v # rest1"
  "bufSet (pre @ x # y # z # rest2) (int (length pre) + 2) v = pre @ x # y # word_of_int v # rest2"
  by (simp_all add: bufSet_def list_update_append nat_add_distrib)

lemma length_utf8Bytes:
  "length (utf8Bytes code) = (if code < 0x80 then 1 else if code < 0x800 then 2 else 3)"
  by (simp add: utf8Bytes_def)

lemma utf8Write_encode_bmp:
  assumes "code < 0x10000"
    and "length old = length (utf8Bytes code)"
    and "int (length (utf8Bytes code)) \<le> len"
    and "offset = int (length pre)"
  shows "utf8Write_encode code len offset written (pre @ old @ post) =
           (False, len - int (length (utf8Bytes code)), offset + int (length (utf8Bytes code)),
            written + int (length (utf8Bytes code)), pre @ utf8Bytes code @ post)"
proof -
  consider (1) "code < 0x80" | (2) "\<not> code < 0x80" "code < 0x800" | (3) "\<not> code < 0x80" "\<not> code < 0x800"
    by blast
  then show ?thesis
  proof cases
    case 1
    then obtain a where "old = [a]" using assms(2) by (cases old) (simp_all add: length_utf8Bytes)
    then show ?thesis using 1 assms(3,4)
      by (simp add: utf8Write_encode_def utf8Bytes_def bufSet_at)
  next
    case 2
    then have "length old = 2" using assms(2) by (simp add: length_utf8Bytes)
    then obtain a b where "old = [a, b]" by (auto simp: length_Suc_conv numeral_2_eq_2)
    then show ?thesis using 2 assms(3,4)
      by (simp add: utf8Write_encode_def utf8Bytes_def bufSet_at)
  next
    case 3
    then have "length old = 3" using assms(2) by (simp add: length_utf8Bytes)
    then obtain a b c where "old = [a, b, c]" by (auto simp: length_Suc_conv numeral_3_eq_3)
    then show ?thesis using 3 assms(1,3,4)
      by (simp add: utf8Write_encode_def utf8Bytes_def bufSet_at)
  qed
qed

lemma utf8Slice_decode_bmp:
  assumes "0 \<le> code" "code < 0x10000" "\<not> (0xD800 \<le> code \<and> code \<le> 0xDFFF)"
    and "int (length pre) + int (length (utf8Bytes code)) \<le> end"
  shows "\<exists>w. utf8Slice_decode (pre @ utf8Bytes code @ post) end (int (length pre)) = Some (code, w) \<and>
             widthBytes w = int (length (utf8Bytes code))"
proof -
  consider (1) "code < 0x80" | (2) "\<not> code < 0x80" "code < 0x800" | (3) "\<not> code < 0x80" "\<not> code < 0x800"
    by blast
  then show ?thesis
  proof cases
    case 1
    have u: "uint (word_of_int code :: byte) = code" using assms(1) 1 by (intro uint_byte) simp_all
    have "utf8Slice_decode (pre @ utf8Bytes code @ post) end (int (length pre)) = Some (code, W1)"
      using 1 assms(4) by (simp add: utf8Slice_decode_def utf8Bytes_def bufGet_at u)
    then show ?thesis using 1 by (intro exI[of _ W1]) (simp add: length_utf8Bytes)
  next
    case 2
    define q where "q = code div 64"
    define r where "r = code mod 64"
    have q: "2 \<le> q" "q < 32" using 2 by (simp_all add: q_def)
    have r: "0 \<le> r" "r < 64" by (simp_all add: r_def)
    have code: "code = 64 * q + r" by (simp add: q_def r_def)
    define b1 :: byte where "b1 = word_of_int (0xC0 + q)"
    define b2 :: byte where "b2 = word_of_int (0x80 + r)"
    have b: "utf8Bytes code = [b1, b2]"
      using 2 assms(1) by (simp add: utf8Bytes_def lead2_byte cont_byte q_def r_def b1_def b2_def)
    have u1: "uint b1 = 0xC0 + q" unfolding b1_def using q by (intro uint_byte) simp_all
    have u2: "uint b2 = 0x80 + r" unfolding b2_def using r by (intro uint_byte) simp_all
    have p1: "(0xC0 + q) AND 0x1F = q" using q by (intro lead2_payload) simp_all
    have t: "(0x80 + r) AND 0xC0 = 0x80" using r by (rule cont_tag)
    have p2: "(0x80 + r) AND 0x3F = r" using r by (rule cont_payload)
    have j: "push_bit 6 q OR r = code" unfolding code using r by (rule join2)
    have "utf8Slice_decode (pre @ utf8Bytes code @ post) end (int (length pre)) = Some (code, W2)"
      unfolding b using q 2 assms(4) length_utf8Bytes[of code]
      by (simp add: utf8Slice_decode_def bufGet_at u1 u2 andNum_def p1 p2 t j Let_def)
    then show ?thesis using 2 by (intro exI[of _ W2]) (simp add: length_utf8Bytes)
  next
    case 3
    define q where "q = code div 4096"
    define m where "m = (code div 64) mod 64"
    define r where "r = code mod 64"
    have q: "0 \<le> q" "q < 16" using assms(1,2) by (simp_all add: q_def)
    have m: "0 \<le> m" "m < 64" by (simp_all add: m_def)
    have r: "0 \<le> r" "r < 64" by (simp_all add: r_def)
    have "code div 4096 = (code div 64) div 64" by (simp add: div_mult2_eq[symmetric])
    then have d: "code div 64 = 64 * q + m" by (simp add: q_def m_def)
    have "code = 64 * (code div 64) + r" by (simp add: r_def)
    then have code: "code = 4096 * q + 64 * m + r" unfolding d by simp
    define b1 :: byte where "b1 = word_of_int (0xE0 + q)"
    define b2 :: byte where "b2 = word_of_int (0x80 + m)"
    define b3 :: byte where "b3 = word_of_int (0x80 + r)"
    have e1: "drop_bit 12 code OR 0xE0 = 0xE0 + q"
      unfolding q_def using assms(1,2) by (rule lead3_byte)
    have e2: "drop_bit 6 code AND 0x3F OR 0x80 = 0x80 + m"
      unfolding m_def cont_byte by (simp add: drop_bit_eq_div)
    have e3: "code AND 0x3F OR 0x80 = 0x80 + r"
      unfolding r_def by (rule cont_byte)
    have b: "utf8Bytes code = [b1, b2, b3]"
      using 3 unfolding utf8Bytes_def e1 e2 e3 b1_def b2_def b3_def by simp
    have u1: "uint b1 = 0xE0 + q" unfolding b1_def using q by (intro uint_byte) simp_all
    have u2: "uint b2 = 0x80 + m" unfolding b2_def using m by (intro uint_byte) simp_all
    have u3: "uint b3 = 0x80 + r" unfolding b3_def using r by (intro uint_byte) simp_all
    have p1: "(0xE0 + q) AND 0xF = q" using q by (intro lead3_payload) simp_all
    have t2: "(0x80 + m) AND 0xC0 = 0x80" using m by (rule cont_tag)
    have p2: "(0x80 + m) AND 0x3F = m" using m by (rule cont_payload)
    have t3: "(0x80 + r) AND 0xC0 = 0x80" using r by (rule cont_tag)
    have p3: "(0x80 + r) AND 0x3F = r" using r by (rule cont_payload)
    have j: "push_bit 12 q OR push_bit 6 m OR r = code" unfolding code using m r by (rule join3)
    have ns: "code < 0xD800 \<or> 0xDFFF < code" using assms(3) by linarith
    have "utf8Slice_decode (pre @ utf8Bytes code @ post) end (int (length pre)) = Some (code, W3)"
      unfolding b using q 3 ns assms(4) length_utf8Bytes[of code]
      by (simp add: utf8Slice_decode_def bufGet_at u1 u2 u3 andNum_def p1 p2 p3 t2 t3 j Let_def)
    then show ?thesis using 3 by (intro exI[of _ W3]) (simp add: length_utf8Bytes)
  qed
qed


lemma noSurrogate_Cons:
  "noSurrogate (c # s) \<longleftrightarrow> \<not> (0xD800 \<le> uint c \<and> uint c \<le> 0xDFFF) \<and> noSurrogate s"
  by (simp add: noSurrogate_def word_le_def)

lemma utf8BytesOf_simps:
  "utf8BytesOf [] = []"
  "utf8BytesOf (c # s) = utf8Bytes (uint c) @ utf8BytesOf s"
  by (simp_all add: utf8BytesOf_def)

lemma uint_jschar: "0 \<le> uint (c :: 16 word)" "uint (c :: 16 word) < 0x10000"
  using uint_bounded[of c] by simp_all

lemma utf8Write_loop_bmp:
  "noSurrogate s \<Longrightarrow> length old = length (utf8BytesOf s) \<Longrightarrow>
   int (length (utf8BytesOf s)) \<le> len \<Longrightarrow> offset = int (length pre) \<Longrightarrow>
   utf8Write_loop s None len offset written (pre @ old @ post) =
     (written + int (length (utf8BytesOf s)), pre @ utf8BytesOf s @ post)"
proof (induction s arbitrary: old len offset written pre)
  case Nil
  then show ?case by (simp add: utf8BytesOf_simps)
next
  case (Cons c s)
  define code where "code = uint c"
  define n where "n = length (utf8Bytes code)"
  define old1 where "old1 = take n old"
  define old2 where "old2 = drop n old"
  have ns: "(code > 0xD7FF \<and> code < 0xE000) = False" "noSurrogate s"
    using Cons.prems(1) by (auto simp: noSurrogate_Cons code_def)
  have lo: "length old = n + length (utf8BytesOf s)"
    using Cons.prems(2) by (simp add: utf8BytesOf_simps n_def code_def)
  then have l1: "length old1 = length (utf8Bytes code)" and l2: "length old2 = length (utf8BytesOf s)"
    by (simp_all add: old1_def old2_def n_def)
  have old: "old = old1 @ old2" by (simp add: old1_def old2_def)
  have len: "int n \<le> len" "int (length (utf8BytesOf s)) \<le> len - int n"
    using Cons.prems(3) by (simp_all add: utf8BytesOf_simps n_def code_def)
  have e: "utf8Write_encode code len offset written (pre @ old1 @ (old2 @ post)) =
             (False, len - int n, offset + int n, written + int n,
              pre @ utf8Bytes code @ (old2 @ post))"
    unfolding n_def using uint_jschar(2)[of c] l1 len(1) Cons.prems(4)
    by (intro utf8Write_encode_bmp) (simp_all add: code_def n_def)
  have o: "offset + int n = int (length (pre @ utf8Bytes code))"
    using Cons.prems(4) by (simp add: n_def)
  have ih: "utf8Write_loop s None (len - int n) (offset + int n) (written + int n)
              ((pre @ utf8Bytes code) @ old2 @ post) =
            (written + int n + int (length (utf8BytesOf s)),
             (pre @ utf8Bytes code) @ utf8BytesOf s @ post)"
    using ns(2) l2 len(2) o by (rule Cons.IH)
  have "utf8Write_loop (c # s) None len offset written (pre @ old1 @ old2 @ post) =
          utf8Write_loop s None (len - int n) (offset + int n) (written + int n)
              ((pre @ utf8Bytes code) @ old2 @ post)"
    by (simp add: code_def[symmetric] ns(1) e del: utf8Write_loop.simps(2)
        add: utf8Write_loop.simps(2)[of c s None])
  then show ?case unfolding ih old by (simp add: utf8BytesOf_simps n_def code_def)
qed


lemma utf8Bytes_nonempty: "0 < length (utf8Bytes code)"
  by (simp add: length_utf8Bytes)

lemma utf8Slice_emit_bmp: "utf8Slice_emit (uint (c :: 16 word)) = [c]"
  using uint_jschar(2)[of c] by (simp add: utf8Slice_emit_def fromCharCode_def)

declare utf8Slice_loop.simps [simp del]

lemma utf8Slice_loop_bmp:
  "noSurrogate s \<Longrightarrow> end = int (length pre) + int (length (utf8BytesOf s)) \<Longrightarrow>
   utf8Slice_loop (pre @ utf8BytesOf s @ post) end (int (length pre)) res = res @ s"
proof (induction s arbitrary: pre res)
  case Nil
  then show ?case by (subst utf8Slice_loop.simps) (simp add: utf8BytesOf_simps)
next
  case (Cons c s)
  define code where "code = uint c"
  define n where "n = length (utf8Bytes code)"
  have ns: "\<not> (0xD800 \<le> code \<and> code \<le> 0xDFFF)" "noSurrogate s"
    using Cons.prems(1) by (auto simp: noSurrogate_Cons code_def)
  have e: "end = int (length pre) + int n + int (length (utf8BytesOf s))"
    using Cons.prems(2) by (simp add: utf8BytesOf_simps n_def code_def)
  have "0 < n" unfolding n_def by (rule utf8Bytes_nonempty)
  then have lt: "int (length pre) < end" unfolding e by linarith
  have c: "0 \<le> code" "code < 0x10000" using uint_jschar[of c] by (simp_all add: code_def)
  have le: "int (length pre) + int (length (utf8Bytes code)) \<le> end" using e by (simp add: n_def)
  from utf8Slice_decode_bmp[OF c ns(1) le, of "utf8BytesOf s @ post"]
  obtain w where w: "utf8Slice_decode (pre @ utf8Bytes code @ utf8BytesOf s @ post) end (int (length pre)) = Some (code, w)"
      "widthBytes w = int n" by (auto simp: n_def)
  have em: "utf8Slice_emit code = [c]" unfolding code_def by (rule utf8Slice_emit_bmp)
  have e': "end = int (length (pre @ utf8Bytes code)) + int (length (utf8BytesOf s))"
    using e by (simp add: n_def)
  have ih: "utf8Slice_loop ((pre @ utf8Bytes code) @ utf8BytesOf s @ post) end
              (int (length (pre @ utf8Bytes code))) (res @ [c]) = (res @ [c]) @ s"
    using ns(2) e' by (rule Cons.IH)
  have "utf8Slice_loop (pre @ utf8BytesOf (c # s) @ post) end (int (length pre)) res =
        utf8Slice_loop ((pre @ utf8Bytes code) @ utf8BytesOf s @ post) end
              (int (length (pre @ utf8Bytes code))) (res @ [c])"
    by (subst utf8Slice_loop.simps) (simp add: lt utf8BytesOf_simps code_def[symmetric] w em n_def)
  then show ?case unfolding ih by simp
qed

lemma isTrailSurrogate_range:
  assumes "0 \<le> code" "code < 0x10000" "isTrailSurrogate code"
  shows "0xDC00 \<le> code \<and> code \<le> 0xDFFF"
proof -
  have d: "0 \<le> code div 1024" "code div 1024 < 2 ^ 6" using assms by simp_all
  have "code AND push_bit 10 63 = push_bit 10 (drop_bit 10 code AND 63)"
    by (rule and_high_field)
  also have "drop_bit 10 code AND 63 = (code div 1024) mod 64"
    using and_mask_mod[of "code div 1024" 6] by (simp add: mask_eq_exp_minus_1 drop_bit_eq_div)
  also have "\<dots> = code div 1024" using d by simp
  finally have "code AND 0xfc00 = 1024 * (code div 1024)" by (simp add: push_bit_eq_mult)
  then have "code div 1024 = 55" using assms(3) by (simp add: isTrailSurrogate_def)
  then show ?thesis by linarith
qed

lemma byteLengthUtf8_loop_bmp:
  "noSurrogate s \<Longrightarrow> byteLengthUtf8_loop s prev n = n + int (length (utf8BytesOf s))"
proof (induction s arbitrary: prev n)
  case Nil
  then show ?case by (simp add: utf8BytesOf_simps)
next
  case (Cons c s)
  have ns: "\<not> (0xD800 \<le> uint c \<and> uint c \<le> 0xDFFF)" "noSurrogate s"
    using Cons.prems by (auto simp: noSurrogate_Cons)
  have t: "\<not> isTrailSurrogate (uint c)"
    using isTrailSurrogate_range[OF uint_jschar[of c]] ns(1) by auto
  show ?case using uint_jschar(2)[of c]
    by (simp add: Cons.IH[OF ns(2)] utf8BytesOf_simps length_utf8Bytes t Let_def split: option.split)
qed

lemma byteLengthUtf8_bmp: "noSurrogate s \<Longrightarrow> byteLengthUtf8 s = int (length (utf8BytesOf s))"
  by (simp add: byteLengthUtf8_def byteLengthUtf8_loop_bmp)

text \<open>
  For every string with no surrogate code unit and every buffer with room for its
  encoding at \<open>offset\<close>, \<^verbatim>\<open>utf8Write\<close> writes \<^verbatim>\<open>byteLengthUtf8(s)\<close> bytes and
  \<^verbatim>\<open>utf8Slice\<close> over the written range returns the string: the round trip of claim
  C1 holds on these strings.
\<close>

lemma utf8_round_trip_no_surrogate:
  assumes "noSurrogate s" "0 \<le> offset" "offset + byteLengthUtf8 s \<le> int (length this)"
  shows "\<exists>this'. utf8Write this s (Some offset) None = (Inr (byteLengthUtf8 s), this') \<and>
           length this' = length this \<and>
           utf8Slice this' (Some offset) (Some (offset + byteLengthUtf8 s)) = Inr s"
proof -
  define n where "n = length (utf8BytesOf s)"
  define pre where "pre = take (nat offset) this"
  define old where "old = take n (drop (nat offset) this)"
  define post where "post = drop n (drop (nat offset) this)"
  have bl: "byteLengthUtf8 s = int n" using assms(1) by (simp add: byteLengthUtf8_bmp n_def)
  have "old @ post = drop (nat offset) this" unfolding old_def post_def by (rule append_take_drop_id)
  then have split: "this = pre @ old @ post" unfolding pre_def by simp
  have lp: "int (length pre) = offset" using assms(2,3) by (simp add: pre_def bl)
  have lo: "length old = length (utf8BytesOf s)"
    using assms(2,3) by (simp add: old_def bl n_def[symmetric])
  have w: "utf8Write_loop s None (int n) offset 0 (pre @ old @ post) =
             (0 + int (length (utf8BytesOf s)), pre @ utf8BytesOf s @ post)"
    using assms(1) lo by (rule utf8Write_loop_bmp) (simp_all add: n_def lp)
  have m: "min (int (length this) - offset) (int n) = int n" using assms(3) by (simp add: bl)
  have W: "utf8Write this s (Some offset) None = (Inr (int n), pre @ utf8BytesOf s @ post)"
    using assms(2,3) w
    by (simp add: utf8Write_def dflt_def bl m Let_def n_def[symmetric] flip: split)
  have l: "length (pre @ utf8BytesOf s @ post) = length this"
  proof -
    have "length this = length (pre @ old @ post)" using split by simp
    then show ?thesis using lo by simp
  qed
  have r: "utf8Slice_loop (pre @ utf8BytesOf s @ post) (offset + int n) (int (length pre)) [] = [] @ s"
    using assms(1) by (rule utf8Slice_loop_bmp) (simp add: lp n_def)
  have R: "utf8Slice (pre @ utf8BytesOf s @ post) (Some offset) (Some (offset + int n)) = Inr s"
    using assms(2,3) r unfolding utf8Slice_def dflt_def l by (simp add: bl lp Let_def)
  show ?thesis using W l R by (simp add: bl)
qed

subsection \<open>Code points above U+FFFF are read back wrong\<close>

text \<open>
  For every code point from \<open>0x10000\<close> to \<open>0x10FFFF\<close> the end of the loop body of
  \<^verbatim>\<open>utf8Slice\<close> appends two code units. The second is the trail surrogate of the code
  point. The first is never its lead surrogate: \<open>0x10000\<close> is subtracted twice, so the
  ten bits are those of the lead surrogate moved by 960 modulo 1024.
\<close>

lemma and_3ff: "(x::int) AND 0x3ff = x mod 1024"
  using and_mask_mod[of x 10] by (simp add: mask_eq_exp_minus_1)

lemma uint_fromCharCode: "0 \<le> n \<Longrightarrow> n < 0x10000 \<Longrightarrow> uint (fromCharCode n) = n"
  by (simp add: fromCharCode_def uint_word_of_int take_bit_eq_mod)

lemma utf8Slice_emit_lead_wrong:
  assumes "0x10000 \<le> code" "code < 0x110000"
  shows "\<exists>lead trail. utf8Slice_emit code = [lead, trail] \<and>
           uint lead = 0xD800 + ((code - 0x10000) div 1024 + 960) mod 1024 \<and>
           uint lead \<noteq> 0xD800 + (code - 0x10000) div 1024 \<and>
           uint trail = 0xDC00 + (code - 0x10000) mod 1024"
proof -
  define c where "c = code - 0x10000"
  define h where "h = c div 1024"
  define g where "g = (h + 960) mod 1024"
  have c: "0 \<le> c" "c < 0x100000" using assms by (simp_all add: c_def)
  then have h: "0 \<le> h" "h < 1024" by (simp_all add: h_def)
  have g: "0 \<le> g" "g < 1024" by (simp_all add: g_def)
  have "c - 0x10000 = (h - 64) * 1024 + c mod 1024"
    by (simp add: h_def algebra_simps)
  then have "(c - 0x10000) div 1024 = h - 64"
    by (metis div_mult_self3 mod_div_trivial add.right_neutral zero_neq_numeral) 
  then have d: "drop_bit 10 (c - 0x10000) = h - 64"
    by (simp add: drop_bit_eq_div)
  have "h + 960 = (h - 64) + 1024" by simp
  then have m: "(h - 64) mod 1024 = g"
    unfolding g_def by (simp only: mod_add_self2)
  have ne: "g \<noteq> h"
  proof (cases "h < 64")
    case True
    then have "g = h + 960" using h by (simp add: g_def)
    then show ?thesis by simp
  next
    case False
    then have "h + 960 = (h - 64) + 1024" "0 \<le> h - 64" "h - 64 < 1024" using h by simp_all
    then have "g = h - 64" unfolding g_def by (simp only: mod_add_self2) simp
    then show ?thesis by simp
  qed
  have e: "utf8Slice_emit code =
     [fromCharCode (0xd800 + g), fromCharCode (0xdc00 + c mod 1024)]"
    using assms by (simp add: utf8Slice_emit_def Let_def and_3ff d m flip: c_def)
  have u1: "uint (fromCharCode (0xd800 + g)) = 0xd800 + g"
    using g by (intro uint_fromCharCode) simp_all
  have cm: "0 \<le> c mod 1024" "c mod 1024 < 1024" by simp_all
  have u2: "uint (fromCharCode (0xdc00 + c mod 1024)) = 0xdc00 + c mod 1024"
    using cm by (intro uint_fromCharCode) simp_all
  show ?thesis
    using e u1 u2 ne by (simp add: g_def h_def c_def)
qed

text \<open>
  Claim C1 at the well-formed string of the single code point U+1F600, the surrogate pair
  \<open>D83D DE00\<close>. \<^verbatim>\<open>utf8Write\<close> encodes it as the four bytes \<open>F0 9F 98 80\<close>, which
  is its UTF-8. Reading the four bytes back with \<^verbatim>\<open>utf8Slice\<close> gives \<open>DBFD DE00\<close>:
  the loop subtracts \<open>0x10000\<close> from the code point and then once more inside the
  expression of the lead surrogate, \<^verbatim>\<open>((code - 0x10000) >> 10) & 0x3ff\<close>. The string
  read is not the string written.
\<close>

theorem utf8Slice_surrogate_pair_wrong:
  "wellFormed [0xD83D, 0xDE00] \<and>
   utf8Write [0, 0, 0, 0] [0xD83D, 0xDE00] None None = (Inr 4, [0xF0, 0x9F, 0x98, 0x80]) \<and>
   utf8Slice [0xF0, 0x9F, 0x98, 0x80] None None = Inr [0xDBFD, 0xDE00]"
  by code_simp

section \<open>Search with the needle at the end of the range\<close>

text \<open>
  The second edition's backward loop runs \<^verbatim>\<open>for (i = byteOffset; i !== 0; --i)\<close> and
  never tries position 0; its forward search stops at the first position whose byte
  equals the first byte of the needle, and returns \<open>-1\<close> when the rest does not match
  there. The first edition finds both occurrences.
\<close>

lemma lastIndexOf_second_edition_skips_position_0:
  "occursAt [0x61, 0x62, 0x63] [0x61] 0 \<and>
   indexOfBuffer [0x61, 0x62, 0x63] [0x61] 2 False = Some (- 1) \<and>
   arrayIndexOf [0x61, 0x62, 0x63] [0x61] 2 False = 0"
  by code_simp

lemma indexOf_second_edition_gives_up_after_first_candidate:
  "occursAt [0x61, 0x61, 0x62] [0x61, 0x62] 1 \<and>
   indexOfBuffer [0x61, 0x61, 0x62] [0x61, 0x62] 0 True = Some (- 1) \<and>
   arrayIndexOf [0x61, 0x61, 0x62] [0x61, 0x62] 0 True = 1"
  by code_simp

text \<open>
  Claim C3 at the buffer \<open>61 62 63\<close>, searched forward from offset 0 for a needle equal
  to the whole buffer. The needle occurs at position 0 and the claim says \<^verbatim>\<open>indexOf\<close>
  returns 0. The second edition's first loop runs
  \<^verbatim>\<open>for (i = byteOffset; i !== bufLen - valLen; ++i)\<close>, which leaves out the last
  position a needle can start at, here the only one: the result is \<open>-1\<close>. The first
  edition returns 0.
\<close>

theorem indexOf_whole_buffer_not_found:
  "occursAt [0x61, 0x62, 0x63] [0x61, 0x62, 0x63] 0 \<and>
   indexOfBuffer [0x61, 0x62, 0x63] [0x61, 0x62, 0x63] 0 True = Some (- 1) \<and>
   arrayIndexOf [0x61, 0x62, 0x63] [0x61, 0x62, 0x63] 0 True = 0"
  by code_simp

end
